(* ===== verification/Prelude.thy ===== *)
theory Prelude
  imports Main "HOL-Library.Word" "HOL-Library.Sublist" "HOL-Library.AList"
    "HOL-Library.Char_ord" "HOL-Library.List_Lexorder"
begin

text \<open>
  The prelude of the development: the machine types the Go code uses, the
  lemma collections the component theories fill and draw on, and the generic facts
  on lists, slices and association lists that several components need.
\<close>

unbundle bit_operations_syntax

section \<open>Machine types\<close>

type_synonym byte = "8 word"
type_synonym bytes = "byte list"
type_synonym u16 = "16 word"
type_synonym u32 = "32 word"
type_synonym u64 = "64 word"
type_synonym hash32 = "256 word"

text \<open>
  Go strings are byte sequences; they are modelled as \<^typ>\<open>string\<close>, whose characters are
  the 256 byte values, and converted by the two functions below where the code writes
  \<open>[]byte(s)\<close> and \<open>string(b)\<close>.
\<close>

definition bytes_of :: "string \<Rightarrow> bytes" where
  "bytes_of s = map (\<lambda>c. word_of_nat (of_char c)) s"

definition string_of :: "bytes \<Rightarrow> string" where
  "string_of b = map (\<lambda>w. char_of (unat w)) b"

section \<open>Lemma collections\<close>

named_theorems outcome_simps \<open>computing with outcomes and actions\<close>
named_theorems fs_simps \<open>what a file system operation leaves at each path\<close>
named_theorems path_simps \<open>normal forms of path names\<close>
named_theorems codec_simps \<open>widths and round trips of binary encodings\<close>

section \<open>Bytes and strings\<close>

lemma of_char_less_256: "of_char c < (256 :: nat)"
  using of_char_mod_256 [of c, where ?'a = nat] by (metis mod_less_divisor zero_less_numeral)

lemma string_of_bytes_of [simp]: "string_of (bytes_of s) = s"
proof (induction s)
  case Nil
  show ?case by (simp add: string_of_def bytes_of_def)
next
  case (Cons c s)
  have "unat (word_of_nat (of_char c) :: byte) = of_char c"
    by (simp add: unat_of_nat of_char_less_256)
  with Cons show ?case
    by (simp add: string_of_def bytes_of_def del: unat_of_nat)
qed

lemma bytes_of_string_of [simp]: "bytes_of (string_of b) = b"
proof (induction b)
  case Nil
  show ?case by (simp add: string_of_def bytes_of_def)
next
  case (Cons w b)
  have "unat w < 2 ^ LENGTH(8)" by (rule unsigned_less)
  then have "of_char (char_of (unat w)) = unat w" by (simp add: of_char_of)
  then show ?case
    using Cons by (simp add: string_of_def bytes_of_def)
qed

lemma length_bytes_of [simp]: "length (bytes_of s) = length s"
  by (simp add: bytes_of_def)

lemma length_string_of [simp]: "length (string_of b) = length b"
  by (simp add: string_of_def)

lemma bytes_of_inject [simp]: "bytes_of s = bytes_of t \<longleftrightarrow> s = t"
  by (metis string_of_bytes_of)

lemma bytes_of_append [simp]: "bytes_of (s @ t) = bytes_of s @ bytes_of t"
  by (simp add: bytes_of_def)

lemma string_of_append [simp]: "string_of (a @ b) = string_of a @ string_of b"
  by (simp add: string_of_def)

lemma bytes_of_Nil [simp]: "bytes_of [] = []"
  by (simp add: bytes_of_def)

lemma bytes_of_eq_Nil [simp]: "bytes_of s = [] \<longleftrightarrow> s = []"
  by (simp add: bytes_of_def)

section \<open>Slices\<close>

text \<open>\<open>chunk b lo n\<close> is the run of \<open>n\<close> elements of \<open>b\<close> from position \<open>lo\<close>.\<close>

definition chunk :: "'a list \<Rightarrow> nat \<Rightarrow> nat \<Rightarrow> 'a list" where
  "chunk b lo n = take n (drop lo b)"

lemma length_chunk [simp]: "lo + n \<le> length b \<Longrightarrow> length (chunk b lo n) = n"
  by (simp add: chunk_def)

lemma nth_chunk: "lo + n \<le> length b \<Longrightarrow> i < n \<Longrightarrow> chunk b lo n ! i = b ! (lo + i)"
  by (simp add: chunk_def)

lemma chunk_append1: "lo + n \<le> length b \<Longrightarrow> chunk (b @ c) lo n = chunk b lo n"
  by (simp add: chunk_def)

lemma chunk_zero [simp]: "chunk b lo 0 = []"
  by (simp add: chunk_def)

lemma chunk_full [simp]: "chunk b 0 (length b) = b"
  by (simp add: chunk_def)

text \<open>\<open>overwrite b lo d\<close> is \<open>b\<close> with \<open>d\<close> written at position \<open>lo\<close>.\<close>

definition overwrite :: "'a list \<Rightarrow> nat \<Rightarrow> 'a list \<Rightarrow> 'a list" where
  "overwrite b lo d = take lo b @ d @ drop (lo + length d) b"

lemma length_overwrite [simp]:
  "lo + length d \<le> length b \<Longrightarrow> length (overwrite b lo d) = length b"
  by (simp add: overwrite_def)

lemma nth_overwrite:
  assumes "lo + length d \<le> length b" and "i < length b"
  shows "overwrite b lo d ! i = (if lo \<le> i \<and> i < lo + length d then d ! (i - lo) else b ! i)"
  using assms by (auto simp: overwrite_def nth_append)

lemma chunk_overwrite_same:
  "lo + length d \<le> length b \<Longrightarrow> chunk (overwrite b lo d) lo (length d) = d"
  by (simp add: chunk_def overwrite_def)

lemma chunk_overwrite_disjoint:
  assumes "lo + length d \<le> length b" and "a + n \<le> length b"
    and "a + n \<le> lo \<or> lo + length d \<le> a"
  shows "chunk (overwrite b lo d) a n = chunk b a n"
proof (rule nth_equalityI)
  show "length (chunk (overwrite b lo d) a n) = length (chunk b a n)"
    using assms by simp
next
  fix i assume "i < length (chunk (overwrite b lo d) a n)"
  then have "i < n" using assms by simp
  then show "chunk (overwrite b lo d) a n ! i = chunk b a n ! i"
    using assms by (auto simp: nth_chunk nth_overwrite)
qed

lemma overwrite_chunk_id: "lo + n \<le> length b \<Longrightarrow> overwrite b lo (chunk b lo n) = b"
  by (rule nth_equalityI) (auto simp: nth_overwrite nth_chunk)

section \<open>Association lists\<close>

lemma map_of_filter_key:
  "map_of (filter (\<lambda>kv. P (fst kv)) al) k = (if P k then map_of al k else None)"
  by (induction al) auto

lemma map_of_map_key:
  assumes "inj_on f (fst ` set al \<union> {k})"
  shows "map_of (map (\<lambda>kv. (f (fst kv), snd kv)) al) (f k) = map_of al k"
  using assms
proof (induction al)
  case Nil
  show ?case by simp
next
  case (Cons kv al)
  then have "inj_on f (fst ` set al \<union> {k})" by (auto simp: inj_on_def)
  with Cons.IH have IH: "map_of (map (\<lambda>kv. (f (fst kv), snd kv)) al) (f k) = map_of al k" .
  from Cons.prems have "f k = f (fst kv) \<longleftrightarrow> k = fst kv" by (auto simp: inj_on_def)
  then show ?case using IH by (cases kv) auto
qed

section \<open>Prefixes\<close>

lemma prefix_butlast_trans: "prefix p (butlast q) \<Longrightarrow> prefix p q"
  using prefix_order.trans prefixeq_butlast by blast

end
