(* ===== verification/Go_Error.thy ===== *)
theory Go_Error
  imports Go_Text
begin

text \<open>
  Errors as values. \<open>goerr\<close> collects the error values the program meets: the
  \<open>os\<close> and \<open>io\<close> errors of the standard library, formatted errors, and the coded
  errors of \<open>internal/ckpterr/err.go\<close> with \<open>E\<close> and \<open>Wrap\<close>. An \<open>outcome\<close> is
  what running a Go function amounts to: a result, a returned error, a run-time panic, or
  no return at all. An action is a function from the state to an outcome and the next
  state; \<open>bindA\<close> runs the rest of the function only after a result, which is the
  \<open>if err != nil { return err }\<close> of the source, and \<open>tryA\<close> hands a returned error
  (never a panic) to the code that looks at it.
\<close>

section \<open>internal/ckpterr/err.go\<close>

datatype Code = Ok | NotFound | IO | RPC | CUDA | CRIU | Unsupported | Invalid

fun Code_num :: "Code \<Rightarrow> nat" where
  "Code_num Ok = 0"
| "Code_num NotFound = 1"
| "Code_num IO = 2"
| "Code_num RPC = 3"
| "Code_num CUDA = 4"
| "Code_num CRIU = 5"
| "Code_num Unsupported = 6"
| "Code_num Invalid = 7"

text \<open>The codes are integer constants in the source, so they are ordered as integers.\<close>

instantiation Code :: linorder
begin

definition less_eq_Code :: "Code \<Rightarrow> Code \<Rightarrow> bool" where
  "less_eq_Code a b \<longleftrightarrow> Code_num a \<le> Code_num b"

definition less_Code :: "Code \<Rightarrow> Code \<Rightarrow> bool" where
  "less_Code a b \<longleftrightarrow> Code_num a < Code_num b"

instance
proof
  fix a b :: Code
  assume "a \<le> b" "b \<le> a"
  then show "a = b" by (cases a; cases b) (simp_all add: less_eq_Code_def)
qed (auto simp: less_eq_Code_def less_Code_def)

end

datatype errno = ENOENT | EEXIST | ENOTDIR | EISDIR | EINVAL | EIO | ENXIO | NegOffset

datatype num_cause = ErrSyntax | ErrRange

datatype goerr =
    PathError string string errno
  | LinkError string string string errno
  | ErrInvalid
  | EOF
  | UnexpectedEOF
  | NumError string string num_cause
  | FmtError string
  | CkptError Code string

fun errno_text :: "errno \<Rightarrow> string" where
  "errno_text ENOENT = ''no such file or directory''"
| "errno_text EEXIST = ''file exists''"
| "errno_text ENOTDIR = ''not a directory''"
| "errno_text EISDIR = ''is a directory''"
| "errno_text EINVAL = ''invalid argument''"
| "errno_text EIO = ''input/output error''"
| "errno_text ENXIO = ''no such device or address''"
| "errno_text NegOffset = ''negative offset''"

fun Error :: "goerr \<Rightarrow> string" where
  "Error (PathError op p e) = op @ '' '' @ p @ '': '' @ errno_text e"
| "Error (LinkError op p q e) = op @ '' '' @ p @ '' '' @ q @ '': '' @ errno_text e"
| "Error ErrInvalid = ''invalid argument''"
| "Error EOF = ''EOF''"
| "Error UnexpectedEOF = ''unexpected EOF''"
| "Error (NumError fn s c) = ''strconv.'' @ fn @ '': parsing '' @ Quote s @ '': '' @
     (case c of ErrSyntax \<Rightarrow> ''invalid syntax'' | ErrRange \<Rightarrow> ''value out of range'')"
| "Error (FmtError s) = s"
| "Error (CkptError c m) = m @ '' ('' @ nat_dec (Code_num c) @ '')''"

definition E :: "Code \<Rightarrow> string \<Rightarrow> goerr" where
  "E code msg = CkptError code msg"

definition Wrap :: "Code \<Rightarrow> string \<Rightarrow> goerr option \<Rightarrow> goerr" where
  "Wrap code msg err =
     (case err of None \<Rightarrow> E code msg | Some e \<Rightarrow> E code (msg @ '': '' @ Error e))"

text \<open>The type assertion \<open>err.(*ckpterr.Error)\<close> followed by a look at the code.\<close>

fun ckpt_code :: "goerr \<Rightarrow> Code option" where
  "ckpt_code (CkptError c m) = Some c"
| "ckpt_code _ = None"

fun IsNotExist :: "goerr \<Rightarrow> bool" where
  "IsNotExist (PathError op p e) \<longleftrightarrow> e = ENOENT"
| "IsNotExist (LinkError op p q e) \<longleftrightarrow> e = ENOENT"
| "IsNotExist _ \<longleftrightarrow> False"

text \<open>\<open>strconv.Atoi\<close> with its error. The digits are read from the left, so a number too large
  for 64 bits is out of range even when something else follows it.\<close>

definition atoi :: "string \<Rightarrow> goerr + int" where
  "atoi s =
     (case Atoi s of
        Some n \<Rightarrow> Inr n
      | None \<Rightarrow>
          let ds = (if s \<noteq> [] \<and> (hd s = CHR ''-'' \<or> hd s = CHR ''+'') then tl s else s);
              pre = takeWhile is_digit ds
          in Inl (NumError ''Atoi'' s
               (if 2 ^ 64 \<le> int (dec_nat pre) \<or> pre = ds \<and> ds \<noteq> [] then ErrRange else ErrSyntax)))"

lemma ckpt_code_Wrap [simp]: "ckpt_code (Wrap c m e) = Some c"
  by (simp add: Wrap_def E_def split: option.splits)

lemma ckpt_code_E [simp]: "ckpt_code (E c m) = Some c"
  by (simp add: E_def)

section \<open>Outcomes and actions\<close>

datatype 'a outcome = Ret 'a | Err goerr | Panic string | Diverge

type_synonym ('s, 'a) act = "'s \<Rightarrow> 'a outcome \<times> 's"

definition retA :: "'a \<Rightarrow> ('s, 'a) act" where
  "retA a = (\<lambda>s. (Ret a, s))"

definition errA :: "goerr \<Rightarrow> ('s, 'a) act" where
  "errA e = (\<lambda>s. (Err e, s))"

text \<open>An outcome computed without touching the state.\<close>

definition liftA :: "'a outcome \<Rightarrow> ('s, 'a) act" where
  "liftA r = (\<lambda>s. (r, s))"

text \<open>A read of the state.\<close>

definition readA :: "('s \<Rightarrow> 'a outcome) \<Rightarrow> ('s, 'a) act" where
  "readA f = (\<lambda>s. (f s, s))"

definition bindA :: "('s, 'a) act \<Rightarrow> ('a \<Rightarrow> ('s, 'b) act) \<Rightarrow> ('s, 'b) act" where
  "bindA m f = (\<lambda>s. case m s of (r, s') \<Rightarrow>
     (case r of Ret a \<Rightarrow> f a s' | Err e \<Rightarrow> (Err e, s')
      | Panic p \<Rightarrow> (Panic p, s') | Diverge \<Rightarrow> (Diverge, s')))"

definition tryA :: "('s, 'a) act \<Rightarrow> ('s, goerr + 'a) act" where
  "tryA m = (\<lambda>s. case m s of (r, s') \<Rightarrow>
     (case r of Ret a \<Rightarrow> Ret (Inr a) | Err e \<Rightarrow> Ret (Inl e)
      | Panic p \<Rightarrow> Panic p | Diverge \<Rightarrow> Diverge, s'))"

text \<open>\<open>return ckpterr.Wrap(code, msg, err)\<close> on the error path of a call.\<close>

definition wrapA :: "Code \<Rightarrow> string \<Rightarrow> ('s, 'a) act \<Rightarrow> ('s, 'a) act" where
  "wrapA c msg m = (\<lambda>s. case m s of (r, s') \<Rightarrow>
     (case r of Err e \<Rightarrow> Err (Wrap c msg (Some e)) | x \<Rightarrow> x, s'))"

text \<open>Outcomes chained without a state, and the outcome of a parser's result.\<close>

definition bindO :: "'a outcome \<Rightarrow> ('a \<Rightarrow> 'b outcome) \<Rightarrow> 'b outcome" where
  "bindO r f =
     (case r of Ret a \<Rightarrow> f a | Err e \<Rightarrow> Err e | Panic p \<Rightarrow> Panic p | Diverge \<Rightarrow> Diverge)"

definition outcome_of :: "goerr + 'a \<Rightarrow> 'a outcome" where
  "outcome_of r = (case r of Inl e \<Rightarrow> Err e | Inr a \<Rightarrow> Ret a)"

lemma retA_apply [outcome_simps, simp]: "retA a s = (Ret a, s)"
  by (simp add: retA_def)

lemma errA_apply [outcome_simps, simp]: "errA e s = (Err e, s)"
  by (simp add: errA_def)

lemma liftA_apply [outcome_simps, simp]: "liftA r s = (r, s)"
  by (simp add: liftA_def)

lemma readA_apply [outcome_simps, simp]: "readA f s = (f s, s)"
  by (simp add: readA_def)

lemma outcome_of_simps [outcome_simps, simp]:
  "outcome_of (Inl e) = Err e" "outcome_of (Inr a) = Ret a"
  by (simp_all add: outcome_of_def)

lemma bindO_simps [outcome_simps, simp]:
  "bindO (Ret a) f = f a" "bindO (Err e) f = Err e"
  "bindO (Panic p) f = Panic p" "bindO Diverge f = Diverge"
  by (simp_all add: bindO_def)

lemma bindA_step [outcome_simps]:
  "m s = (Ret a, s') \<Longrightarrow> bindA m f s = f a s'"
  "m s = (Err e, s') \<Longrightarrow> bindA m f s = (Err e, s')"
  "m s = (Panic p, s') \<Longrightarrow> bindA m f s = (Panic p, s')"
  "m s = (Diverge, s') \<Longrightarrow> bindA m f s = (Diverge, s')"
  by (simp_all add: bindA_def)

lemma bindA_retA [simp]: "bindA (retA a) f = f a"
  by (simp add: bindA_def retA_def)

lemma bindA_errA [simp]: "bindA (errA e) f = errA e"
  by (simp add: bindA_def errA_def)

lemma bindA_assoc: "bindA (bindA m f) g = bindA m (\<lambda>x. bindA (f x) g)"
  by (rule ext) (simp add: bindA_def split: prod.splits outcome.splits)

lemma bindA_liftA: "bindA (liftA r) f s = (case r of Ret a \<Rightarrow> f a s | Err e \<Rightarrow> (Err e, s)
    | Panic p \<Rightarrow> (Panic p, s) | Diverge \<Rightarrow> (Diverge, s))"
  by (simp add: bindA_def split: outcome.splits)

lemma bindA_readA: "bindA (readA g) f s = (case g s of Ret a \<Rightarrow> f a s | Err e \<Rightarrow> (Err e, s)
    | Panic p \<Rightarrow> (Panic p, s) | Diverge \<Rightarrow> (Diverge, s))"
  by (simp add: bindA_def split: outcome.splits)

lemma bindA_RetE:
  assumes "bindA m f s = (Ret b, t)"
  obtains a s' where "m s = (Ret a, s')" and "f a s' = (Ret b, t)"
  using assms by (auto simp: bindA_def split: prod.splits outcome.splits)

lemma bindA_ErrE:
  assumes "bindA m f s = (Err e, t)"
  obtains "m s = (Err e, t)" | a s' where "m s = (Ret a, s')" and "f a s' = (Err e, t)"
  using assms by (auto simp: bindA_def split: prod.splits outcome.splits)

lemma tryA_step [outcome_simps]:
  "m s = (Ret a, s') \<Longrightarrow> tryA m s = (Ret (Inr a), s')"
  "m s = (Err e, s') \<Longrightarrow> tryA m s = (Ret (Inl e), s')"
  "m s = (Panic p, s') \<Longrightarrow> tryA m s = (Panic p, s')"
  "m s = (Diverge, s') \<Longrightarrow> tryA m s = (Diverge, s')"
  by (simp_all add: tryA_def)

lemma tryA_RetE:
  assumes "tryA m s = (Ret r, t)"
  obtains a where "m s = (Ret a, t)" and "r = Inr a" | e where "m s = (Err e, t)" and "r = Inl e"
  using assms by (auto simp: tryA_def split: prod.splits outcome.splits)

lemma tryA_not_Err [simp]: "tryA m s \<noteq> (Err e, t)"
  by (auto simp: tryA_def split: prod.splits outcome.splits)

lemma wrapA_step [outcome_simps]:
  "m s = (Ret a, s') \<Longrightarrow> wrapA c msg m s = (Ret a, s')"
  "m s = (Err e, s') \<Longrightarrow> wrapA c msg m s = (Err (Wrap c msg (Some e)), s')"
  "m s = (Panic p, s') \<Longrightarrow> wrapA c msg m s = (Panic p, s')"
  "m s = (Diverge, s') \<Longrightarrow> wrapA c msg m s = (Diverge, s')"
  by (simp_all add: wrapA_def)

lemma wrapA_Ret_iff [simp]: "wrapA c msg m s = (Ret a, t) \<longleftrightarrow> m s = (Ret a, t)"
  by (auto simp: wrapA_def split: prod.splits outcome.splits)

lemma wrapA_Err_code: "wrapA c msg m s = (Err e, t) \<Longrightarrow> ckpt_code e = Some c"
  by (auto simp: wrapA_def split: prod.splits outcome.splits)

lemma bindO_RetE:
  assumes "bindO r f = Ret b"
  obtains a where "r = Ret a" and "f a = Ret b"
  using assms by (cases r) auto

lemma outcome_of_Ret_iff [simp]: "outcome_of r = Ret a \<longleftrightarrow> r = Inr a"
  by (cases r) auto

text \<open>An invariant of the state that every action of a composition keeps.\<close>

definition keeps :: "('s \<Rightarrow> bool) \<Rightarrow> ('s, 'a) act \<Rightarrow> bool" where
  "keeps P m \<longleftrightarrow> (\<forall>s. P s \<longrightarrow> P (snd (m s)))"

lemma keepsI: "(\<And>s. P s \<Longrightarrow> P (snd (m s))) \<Longrightarrow> keeps P m"
  by (simp add: keeps_def)

lemma keepsD: "keeps P m \<Longrightarrow> P s \<Longrightarrow> m s = (r, t) \<Longrightarrow> P t"
  by (metis keeps_def snd_conv)

lemma keeps_bindA:
  assumes "keeps P m" and "\<And>a. keeps P (f a)"
  shows "keeps P (bindA m f)"
  using assms by (fastforce simp: keeps_def bindA_def split: prod.splits outcome.splits)

lemma keeps_tryA: "keeps P m \<Longrightarrow> keeps P (tryA m)"
  by (fastforce simp: keeps_def tryA_def split: prod.splits)

lemma keeps_wrapA: "keeps P m \<Longrightarrow> keeps P (wrapA c msg m)"
  by (fastforce simp: keeps_def wrapA_def split: prod.splits)

lemma keeps_pure: "keeps P (retA a)" "keeps P (errA e)" "keeps P (liftA r)" "keeps P (readA g)"
  by (simp_all add: keeps_def)

lemma keeps_Pair [simp]: "keeps P (Pair r)"
  by (simp add: keeps_def)

lemmas keeps_rules = keeps_bindA keeps_tryA keeps_wrapA keeps_pure

text \<open>The same for runs that return a result; what an error leaves behind may differ.\<close>

definition keepsR :: "('s \<Rightarrow> bool) \<Rightarrow> ('s, 'a) act \<Rightarrow> bool" where
  "keepsR P m \<longleftrightarrow> (\<forall>s a t. P s \<longrightarrow> m s = (Ret a, t) \<longrightarrow> P t)"

lemma keepsRD: "keepsR P m \<Longrightarrow> P s \<Longrightarrow> m s = (Ret a, t) \<Longrightarrow> P t"
  by (auto simp: keepsR_def)

lemma keepsR_of_keeps: "keeps P m \<Longrightarrow> keepsR P m"
  unfolding keepsR_def by (metis keepsD)

lemma keepsR_bindA: "keepsR P m \<Longrightarrow> (\<And>a. keepsR P (f a)) \<Longrightarrow> keepsR P (bindA m f)"
  unfolding keepsR_def by (blast elim: bindA_RetE)

end
