(* ===== verification/Codec.thy ===== *)
theory Codec
  imports Go_Error
begin

text \<open>
  Binary encodings: Go's \<open>encoding/binary\<close> on fixed-width integers and structs, and
  \<open>io.ReadFull\<close>. A decoder takes the unread bytes and returns a value with the bytes
  after it, or \<open>EOF\<close> (nothing left) or \<open>UnexpectedEOF\<close> (too little left). The locale
  \<open>codec\<close> is the interface between the file formats and this layer: an encoder of
  constant width with its decoder. Lists of encoded values are handled once, inside it.
\<close>

type_synonym 'a decoder = "bytes \<Rightarrow> goerr + 'a \<times> bytes"

section \<open>Integers\<close>

fun le_put :: "nat \<Rightarrow> 'a::len word \<Rightarrow> bytes" where
  "le_put 0 w = []"
| "le_put (Suc n) w = ucast w # le_put n (drop_bit 8 w)"

fun le_get :: "bytes \<Rightarrow> 'a::len word" where
  "le_get [] = 0"
| "le_get (b # bs) = ucast b OR push_bit 8 (le_get bs)"

definition be_put :: "nat \<Rightarrow> 'a::len word \<Rightarrow> bytes" where
  "be_put n w = rev (le_put n w)"

definition be_get :: "bytes \<Rightarrow> 'a::len word" where
  "be_get bs = le_get (rev bs)"

definition read_full :: "nat \<Rightarrow> bytes decoder" where
  "read_full n bs =
     (if n \<le> length bs then Inr (take n bs, drop n bs)
      else Inl (if bs = [] then EOF else UnexpectedEOF))"

definition bindD :: "'a decoder \<Rightarrow> ('a \<Rightarrow> 'b decoder) \<Rightarrow> 'b decoder" where
  "bindD d f bs = (case d bs of Inl e \<Rightarrow> Inl e | Inr (x, r) \<Rightarrow> f x r)"

definition retD :: "'a \<Rightarrow> 'a decoder" where
  "retD x bs = Inr (x, bs)"

text \<open>\<open>binary.Read\<close> of a value of \<open>n\<close> bytes, read whole and then parsed.\<close>

definition dec_struct :: "nat \<Rightarrow> (bytes \<Rightarrow> 'a) \<Rightarrow> 'a decoder" where
  "dec_struct n parse = bindD (read_full n) (\<lambda>b. retD (parse b))"

abbreviation dec_le :: "nat \<Rightarrow> 'a::len word decoder" where
  "dec_le n \<equiv> dec_struct n le_get"

abbreviation dec_be :: "nat \<Rightarrow> 'a::len word decoder" where
  "dec_be n \<equiv> dec_struct n be_get"

fun dec_list :: "'a decoder \<Rightarrow> nat \<Rightarrow> 'a list decoder" where
  "dec_list d 0 = retD []"
| "dec_list d (Suc n) = bindD d (\<lambda>x. bindD (dec_list d n) (\<lambda>xs. retD (x # xs)))"

lemma length_le_put [simp, codec_simps]: "length (le_put n w) = n"
  by (induction n w rule: le_put.induct) simp_all

lemma length_be_put [simp, codec_simps]: "length (be_put n w) = n"
  by (simp add: be_put_def)

lemma le_put_eq_Nil [simp]: "le_put n w = [] \<longleftrightarrow> n = 0"
  by (metis length_0_conv length_le_put)

lemma le_get_put: "le_get (le_put n w) = take_bit (8 * n) w"
proof (induction n w rule: le_put.induct)
  case (1 w)
  show ?case by simp
next
  case (2 n w)
  show ?case
  proof (rule bit_word_eqI)
    fix i assume "i < LENGTH('a)"
    then show "bit (le_get (le_put (Suc n) w) :: 'a word) i = bit (take_bit (8 * Suc n) w) i"
      using 2 by (auto simp: bit_simps)
  qed
qed

lemma bit_le_get: "bit (le_get bs :: 'a::len word) i \<Longrightarrow> i < 8 * length bs"
proof (induction bs arbitrary: i)
  case Nil
  then show ?case by simp
next
  case (Cons b bs)
  then consider "bit b i" | "8 \<le> i" "bit (le_get bs :: 'a word) (i - 8)"
    by (auto simp: bit_simps)
  then show ?case
  proof cases
    case 1
    then have "i < LENGTH(8)" by (rule bit_imp_le_length)
    then show ?thesis by simp
  next
    case 2
    then show ?thesis using Cons.IH [of "i - 8"] by simp
  qed
qed

lemma le_put_get:
  "8 * length bs \<le> LENGTH('a::len) \<Longrightarrow> le_put (length bs) (le_get bs :: 'a word) = bs"
proof (induction bs)
  case Nil
  show ?case by simp
next
  case (Cons b bs)
  have "ucast (ucast b OR push_bit 8 (le_get bs :: 'a word)) = b"
    by (rule bit_word_eqI) (use Cons.prems in \<open>auto simp: bit_simps\<close>)
  moreover have "drop_bit 8 (ucast b OR push_bit 8 (le_get bs :: 'a word)) = le_get bs"
  proof (rule bit_word_eqI)
    fix i assume "i < LENGTH('a)"
    show "bit (drop_bit 8 (ucast b OR push_bit 8 (le_get bs :: 'a word))) i = bit (le_get bs :: 'a word) i"
      using Cons.prems bit_le_get [of bs i, where ?'a = 'a] by (auto simp: bit_simps dest: bit_imp_le_length)
  qed
  ultimately show ?case using Cons by simp
qed

lemma le_get_put_full: "LENGTH('a::len) \<le> 8 * n \<Longrightarrow> le_get (le_put n (w :: 'a word)) = w"
  by (simp add: le_get_put take_bit_word_eq_self)

lemma be_get_put_full: "LENGTH('a::len) \<le> 8 * n \<Longrightarrow> be_get (be_put n (w :: 'a word)) = w"
  by (simp add: be_get_def be_put_def le_get_put_full)

lemma be_put_get:
  "8 * length bs \<le> LENGTH('a::len) \<Longrightarrow> be_put (length bs) (be_get bs :: 'a word) = bs"
  using le_put_get [of "rev bs", where ?'a = 'a] by (simp add: be_get_def be_put_def)

section \<open>Reading\<close>

definition is_short :: "goerr + 'a \<Rightarrow> bool" where
  "is_short r \<longleftrightarrow> r = Inl EOF \<or> r = Inl UnexpectedEOF"

lemma is_short_Inl [simp]: "is_short (Inl EOF)" "is_short (Inl UnexpectedEOF)"
  by (simp_all add: is_short_def)

lemma read_full_append [simp]: "length b = n \<Longrightarrow> read_full n (b @ r) = Inr (b, r)"
  by (simp add: read_full_def)

lemma read_full_short: "length bs < n \<Longrightarrow> is_short (read_full n bs)"
  by (simp add: read_full_def)

lemma read_full_Inr_iff:
  "read_full n bs = Inr (b, r) \<longleftrightarrow> bs = b @ r \<and> length b = n"
  by (auto simp: read_full_def)

lemma bindD_Inr [simp]: "d bs = Inr (x, r) \<Longrightarrow> bindD d f bs = f x r"
  by (simp add: bindD_def)

lemma bindD_Inl [simp]: "d bs = Inl e \<Longrightarrow> bindD d f bs = Inl e"
  by (simp add: bindD_def)

lemma bindD_InrE:
  assumes "bindD d f bs = Inr (y, r)"
  obtains x r' where "d bs = Inr (x, r')" and "f x r' = Inr (y, r)"
  using assms by (auto simp: bindD_def split: sum.splits)

lemma retD_apply [simp]: "retD x bs = Inr (x, bs)"
  by (simp add: retD_def)

lemma bindD_short: "is_short (d bs) \<Longrightarrow> is_short (bindD d f bs)"
  by (auto simp: is_short_def)

section \<open>The codec interface\<close>

text \<open>
  \<open>norm\<close> is what a value becomes on the way through its encoding: the value itself for
  most formats, the value without its content hash for a version 1 manifest entry.
\<close>

locale codec =
  fixes width :: nat
    and enc :: "'a \<Rightarrow> bytes"
    and dec :: "'a decoder"
    and norm :: "'a \<Rightarrow> 'a"
  assumes enc_width: "length (enc x) = width"
    and dec_enc: "dec (enc x @ r) = Inr (norm x, r)"
    and dec_long: "width \<le> length bs \<Longrightarrow> \<exists>x. dec bs = Inr (x, drop width bs)"
    and dec_short: "length bs < width \<Longrightarrow> is_short (dec bs)"
begin

lemma length_encs: "length (concat (map enc xs)) = width * length xs"
  by (induction xs) (simp_all add: enc_width)

lemma dec_list_encs:
  "dec_list dec (length xs) (concat (map enc xs) @ r) = Inr (map norm xs, r)"
proof (induction xs)
  case (Cons x xs)
  then show ?case using dec_enc [of x "concat (map enc xs) @ r"] by simp
qed simp

text \<open>Every value takes exactly \<open>width\<close> bytes, so too little input cannot pass.\<close>

lemma dec_list_short: "length bs < width * n \<Longrightarrow> is_short (dec_list dec n bs)"
proof (induction n arbitrary: bs)
  case (Suc n)
  show ?case
  proof (cases "length bs < width")
    case True
    then show ?thesis by (simp add: bindD_short dec_short)
  next
    case False
    then obtain x where "dec bs = Inr (x, drop width bs)" using dec_long by force
    moreover have "is_short (dec_list dec n (drop width bs))"
      using Suc.prems False by (intro Suc.IH) auto
    ultimately show ?thesis by (simp add: bindD_short)
  qed
qed simp

lemma dec_list_long:
  "width * n \<le> length bs \<Longrightarrow> \<exists>xs. dec_list dec n bs = Inr (xs, drop (width * n) bs) \<and> length xs = n"
proof (induction n arbitrary: bs)
  case (Suc n)
  from Suc.prems have "width \<le> length bs" by simp
  then obtain x where x: "dec bs = Inr (x, drop width bs)" using dec_long by blast
  have "width * n \<le> length (drop width bs)" using Suc.prems by simp
  then obtain xs where "dec_list dec n (drop width bs) = Inr (xs, drop (width * n) (drop width bs))"
    and "length xs = n"
    using Suc.IH by blast
  with x show ?case by (simp add: add.commute)
qed simp

lemma dec_list_length:
  assumes "dec_list dec n bs = Inr (xs, r)"
  shows "length xs = n" and "length bs = width * n + length r"
proof -
  have "width * n \<le> length bs"
    using dec_list_short [of bs n] assms by (force simp: is_short_def)
  from dec_list_long [OF this] this assms show "length xs = n" and "length bs = width * n + length r"
    by auto
qed

end

text \<open>A decoder that takes exactly \<open>n\<close> bytes; sequences of such decoders add up.\<close>

definition reads :: "nat \<Rightarrow> 'a decoder \<Rightarrow> bool" where
  "reads n d \<longleftrightarrow> (\<forall>bs. (n \<le> length bs \<longrightarrow> (\<exists>x. d bs = Inr (x, drop n bs)))
     \<and> (length bs < n \<longrightarrow> is_short (d bs)))"

lemma reads_retD: "reads 0 (retD x)"
  by (simp add: reads_def)

lemma reads_struct: "reads n (dec_struct n parse)"
  by (auto simp: reads_def dec_struct_def bindD_short read_full_short) (simp add: bindD_def read_full_def)

lemma reads_bindD:
  assumes "reads m d" and "\<And>x. reads n (f x)"
  shows "reads (m + n) (bindD d f)"
  unfolding reads_def
proof (intro allI conjI impI)
  fix bs :: bytes assume len: "m + n \<le> length bs"
  then obtain x where x: "d bs = Inr (x, drop m bs)" using assms(1) unfolding reads_def by fastforce
  have "n \<le> length (drop m bs)" using len by simp
  then obtain y where "f x (drop m bs) = Inr (y, drop n (drop m bs))"
    using assms(2) unfolding reads_def by blast
  with x show "\<exists>y. bindD d f bs = Inr (y, drop (m + n) bs)" by (simp add: add.commute)
next
  fix bs :: bytes assume len: "length bs < m + n"
  show "is_short (bindD d f bs)"
  proof (cases "length bs < m")
    case True
    then show ?thesis using assms(1) by (simp add: reads_def bindD_short)
  next
    case False
    then obtain x where "d bs = Inr (x, drop m bs)" using assms(1) unfolding reads_def by fastforce
    moreover have "length (drop m bs) < n" using len False by simp
    then have "is_short (f x (drop m bs))" using assms(2) unfolding reads_def by blast
    ultimately show ?thesis by simp
  qed
qed

lemma codecI:
  assumes "\<And>x. length (enc x) = n" and "\<And>x r. dec (enc x @ r) = Inr (norm x, r)" and "reads n dec"
  shows "codec n enc dec norm"
  using assms by unfold_locales (auto simp: reads_def)

lemma codec_struct:
  assumes "\<And>x. length (enc x) = n" and "\<And>x. parse (enc x) = norm x"
  shows "codec n enc (dec_struct n parse) norm"
  by (rule codecI) (simp_all add: assms reads_struct, simp add: dec_struct_def assms)

interpretation le16: codec 2 "le_put 2 :: u16 \<Rightarrow> bytes" "dec_le 2" "\<lambda>w. w"
  by (rule codec_struct) (simp_all add: le_get_put_full)

interpretation le32: codec 4 "le_put 4 :: u32 \<Rightarrow> bytes" "dec_le 4" "\<lambda>w. w"
  by (rule codec_struct) (simp_all add: le_get_put_full)

interpretation le64: codec 8 "le_put 8 :: u64 \<Rightarrow> bytes" "dec_le 8" "\<lambda>w. w"
  by (rule codec_struct) (simp_all add: le_get_put_full)

interpretation be32: codec 4 "be_put 4 :: u32 \<Rightarrow> bytes" "dec_be 4" "\<lambda>w. w"
  by (rule codec_struct) (simp_all add: be_get_put_full)

interpretation be256: codec 32 "be_put 32 :: 256 word \<Rightarrow> bytes" "dec_be 32" "\<lambda>w. w"
  by (rule codec_struct) (simp_all add: be_get_put_full)

end
