(* ===== verification/Crc32c.thy ===== *)
theory Crc32c
  imports Codec
begin

text \<open>
  \<open>CRC32C\<close> of \<open>pkg/image/format.go\<close>: Go's \<open>hash/crc32\<close> checksum with the
  Castagnoli table, computed as the library computes it, one table lookup per byte. The
  lemmas show that the update is a linear bijection of the state, and from it that the
  checksum changes whenever the data changes within four consecutive bytes.
\<close>

section \<open>Definitions\<close>

definition castagnoli :: u32 where
  "castagnoli = 0x82F63B78"

definition crc_shift :: "u32 \<Rightarrow> u32" where
  "crc_shift c = (if bit c 0 then drop_bit 1 c XOR castagnoli else drop_bit 1 c)"

definition crc_table :: "byte \<Rightarrow> u32" where
  "crc_table i = (crc_shift ^^ 8) (ucast i)"

definition crc_update :: "u32 \<Rightarrow> byte \<Rightarrow> u32" where
  "crc_update c b = crc_table (ucast c XOR b) XOR drop_bit 8 c"

definition CRC32C :: "bytes \<Rightarrow> u32" where
  "CRC32C data = NOT (foldl crc_update (NOT 0) data)"

section \<open>The update is linear and injective\<close>

lemma xor_right_cancel: "x XOR z = y XOR z \<longleftrightarrow> x = (y :: 'a::len word)"
  by (metis xor.assoc xor.right_neutral xor_self_eq)

lemma xor_left_cancel: "z XOR x = z XOR y \<longleftrightarrow> x = (y :: 'a::len word)"
  by (metis xor.assoc xor.left_neutral xor_self_eq)

lemma crc_shift_xor: "crc_shift (x XOR y) = crc_shift x XOR crc_shift y"
proof -
  have c: "a XOR castagnoli XOR (b XOR castagnoli) = a XOR b" for a b
    by (metis xor.assoc xor.commute xor.left_neutral xor_self_eq)
  show ?thesis
    by (cases "bit x 0"; cases "bit y 0")
      (simp_all add: crc_shift_def bit_xor_iff drop_bit_xor c ac_simps)
qed

lemma crc_shift_pow_xor: "(crc_shift ^^ n) (x XOR y) = (crc_shift ^^ n) x XOR (crc_shift ^^ n) y"
  by (induction n) (simp_all add: crc_shift_xor)

lemma bit31_castagnoli: "bit castagnoli 31"
  by (simp add: castagnoli_def)

lemma bit31_crc_shift: "bit (crc_shift c) 31 = bit c 0"
  using bit_imp_le_length [of c 32]
  by (auto simp: crc_shift_def bit_xor_iff bit_drop_bit_eq bit31_castagnoli)

lemma crc_shift_inj: "crc_shift x = crc_shift y \<Longrightarrow> x = y"
proof -
  assume eq: "crc_shift x = crc_shift y"
  then have low: "bit x 0 = bit y 0" using bit31_crc_shift by metis
  with eq have "drop_bit 1 x = drop_bit 1 y"
    by (simp add: crc_shift_def xor_right_cancel split: if_splits)
  then have high: "bit x (Suc n) = bit y (Suc n)" for n
    by (metis bit_drop_bit_eq comp_apply plus_1_eq_Suc)
  show "x = y"
  proof (rule bit_word_eqI)
    fix n show "bit x n = bit y n" using low high by (cases n) auto
  qed
qed

lemma crc_shift_pow_inj: "(crc_shift ^^ n) x = (crc_shift ^^ n) y \<Longrightarrow> x = y"
  by (induction n) (auto dest: crc_shift_inj)

text \<open>While no bit reaches the low end, shifting is division.\<close>

lemma crc_shift_pow_push:
  assumes "\<And>i. bit x i \<Longrightarrow> i + n < 32"
  shows "(crc_shift ^^ n) (push_bit n x) = x"
  using assms
proof (induction n)
  case (Suc n)
  have "drop_bit 1 (push_bit (Suc n) x) = push_bit n x"
  proof (rule bit_word_eqI)
    fix i show "bit (drop_bit 1 (push_bit (Suc n) x)) i = bit (push_bit n x) i"
      using Suc.prems [of "i - n"] by (auto simp: bit_simps simp del: push_bit_Suc)
  qed
  then have "crc_shift (push_bit (Suc n) x) = push_bit n x"
    by (simp add: crc_shift_def bit_push_bit_iff del: push_bit_Suc)
  moreover have "(crc_shift ^^ n) (push_bit n x) = x"
    using Suc.prems by (intro Suc.IH) fastforce
  ultimately show ?case by (simp add: funpow_Suc_right del: funpow.simps)
qed simp

lemma crc_update_shift: "crc_update c b = (crc_shift ^^ 8) (c XOR ucast b)"
proof -
  have "c XOR ucast b = ucast (ucast c XOR b) XOR push_bit 8 (drop_bit 8 c)"
  proof (rule bit_word_eqI)
    fix i assume "i < LENGTH(32)"
    then show "bit (c XOR ucast b) i = bit (ucast (ucast c XOR b) XOR push_bit 8 (drop_bit 8 c)) i"
      by (auto simp: bit_simps dest: bit_imp_le_length)
  qed
  moreover have "(crc_shift ^^ 8) (push_bit 8 (drop_bit 8 c)) = drop_bit 8 c"
    by (rule crc_shift_pow_push) (auto simp: bit_simps dest: bit_imp_le_length)
  ultimately show ?thesis by (simp only: crc_update_def crc_table_def crc_shift_pow_xor)
qed

lemma crc_update_inj_state: "crc_update c b = crc_update d b \<Longrightarrow> c = d"
proof -
  assume "crc_update c b = crc_update d b"
  then have "c XOR ucast b = d XOR ucast b"
    unfolding crc_update_shift by (rule crc_shift_pow_inj)
  then show "c = d" by (simp only: xor_right_cancel)
qed

lemma foldl_crc_inj_state: "foldl crc_update c bs = foldl crc_update d bs \<Longrightarrow> c = d"
  by (induction bs arbitrary: c d) (auto dest: crc_update_inj_state)

text \<open>Up to four bytes at once: the state they lead to is a bijective image of them.\<close>

lemma foldl_crc_word:
  "length bs \<le> 4 \<Longrightarrow> foldl crc_update c bs = (crc_shift ^^ (8 * length bs)) (c XOR le_get bs)"
proof (induction bs arbitrary: c)
  case Nil
  show ?case by simp
next
  case (Cons b bs)
  let ?X = "le_get bs :: u32"
  have fits: "i + 8 < 32" if "bit ?X i" for i
    using bit_le_get [OF that] Cons.prems by simp
  have "c XOR le_get (b # bs) = (c XOR ucast b) XOR push_bit 8 ?X"
  proof (rule bit_word_eqI)
    fix i assume "i < LENGTH(32)"
    then show "bit (c XOR le_get (b # bs)) i = bit ((c XOR ucast b) XOR push_bit 8 ?X) i"
      by (auto simp: bit_simps dest: bit_imp_le_length)
  qed
  then have "(crc_shift ^^ 8) (c XOR le_get (b # bs)) = crc_update c b XOR ?X"
    using crc_shift_pow_push [of ?X 8] fits
    by (simp only: crc_shift_pow_xor crc_update_shift)
  moreover have "8 * length (b # bs) = 8 * length bs + 8" by simp
  ultimately have "(crc_shift ^^ (8 * length (b # bs))) (c XOR le_get (b # bs)) =
      (crc_shift ^^ (8 * length bs)) (crc_update c b XOR ?X)"
    by (simp only: funpow_add comp_apply)
  with Cons show ?case by simp
qed

lemma foldl_crc_inj_burst:
  assumes "foldl crc_update c d = foldl crc_update c d'" and "length d = length d'" and "length d \<le> 4"
  shows "d = d'"
proof -
  have a: "foldl crc_update c d = (crc_shift ^^ (8 * length d)) (c XOR le_get d)"
    using assms(3) by (rule foldl_crc_word)
  have b: "foldl crc_update c d' = (crc_shift ^^ (8 * length d)) (c XOR le_get d')"
    unfolding assms(2) by (rule foldl_crc_word) (use assms in simp)
  from assms(1) have "c XOR le_get d = c XOR (le_get d' :: u32)"
    unfolding a b by (rule crc_shift_pow_inj)
  then have "(le_get d :: u32) = le_get d'" by (simp only: xor_left_cancel)
  moreover have "le_put (length d) (le_get d :: u32) = d"
    using assms(3) by (simp add: le_put_get)
  moreover have "le_put (length d') (le_get d' :: u32) = d'"
    using assms(2,3) by (simp add: le_put_get)
  ultimately show ?thesis by (metis assms(2))
qed

lemma CRC32C_burst:
  assumes "length d = length d'" and "length d \<le> 4" and "d \<noteq> d'"
  shows "CRC32C (a @ d @ z) \<noteq> CRC32C (a @ d' @ z)"
proof
  assume "CRC32C (a @ d @ z) = CRC32C (a @ d' @ z)"
  then have "foldl crc_update (foldl crc_update (foldl crc_update (NOT 0) a) d) z =
      foldl crc_update (foldl crc_update (foldl crc_update (NOT 0) a) d') z"
    by (simp add: CRC32C_def)
  then have "foldl crc_update (foldl crc_update (NOT 0) a) d = foldl crc_update (foldl crc_update (NOT 0) a) d'"
    by (rule foldl_crc_inj_state)
  then have "d = d'" using assms(1,2) by (rule foldl_crc_inj_burst)
  with assms(3) show False by simp
qed

section \<open>Evaluation\<close>

lemma crc_table_unfold:
  "crc_table i = crc_shift (crc_shift (crc_shift (crc_shift
     (crc_shift (crc_shift (crc_shift (crc_shift (ucast i))))))))"
  by (simp add: crc_table_def numeral_eq_Suc)

lemma CRC32C_from_ones: "CRC32C data = NOT (foldl crc_update 0xFFFFFFFF data)"
proof -
  have "NOT 0 = (0xFFFFFFFF :: u32)" by simp
  then show ?thesis by (simp only: CRC32C_def)
qed

lemmas crc_eval = CRC32C_from_ones crc_update_def crc_table_unfold crc_shift_def castagnoli_def

text \<open>The check value of the CRC-32C standard: the checksum of the digits 1 to 9.\<close>

lemma CRC32C_check: "CRC32C (bytes_of ''123456789'') = 0xE3069283"
  by (simp add: bytes_of_def crc_eval)

end
