(* ===== verification/Go_Path.thy ===== *)
theory Go_Path
  imports Go_Text
begin

text \<open>
  Path names. \<open>Clean\<close> and \<open>Join\<close> are Go's \<open>filepath.Clean\<close> and
  \<open>filepath.Join\<close> on Unix. \<open>path_of\<close> gives every name its key: the cleaned
  components behind \<open>''/''\<close> for a rooted name and \<open>''.''\<close> for a relative one.
  Two names that clean to the same string have the same key, and joining a plain
  component to a name appends that component to the key.
\<close>

type_synonym path = "string list"

section \<open>Definitions\<close>

fun split_slash :: "string \<Rightarrow> string list" where
  "split_slash [] = [[]]"
| "split_slash (c # cs) =
     (if c = CHR ''/'' then [] # split_slash cs
      else (case split_slash cs of [] \<Rightarrow> [[c]] | w # ws \<Rightarrow> (c # w) # ws))"

fun join_slash :: "string list \<Rightarrow> string" where
  "join_slash [] = []"
| "join_slash [w] = w"
| "join_slash (w # ws) = w @ ''/'' @ join_slash ws"

definition rooted :: "string \<Rightarrow> bool" where
  "rooted s \<longleftrightarrow> s \<noteq> [] \<and> hd s = CHR ''/''"

definition clean_step :: "bool \<Rightarrow> string list \<Rightarrow> string \<Rightarrow> string list" where
  "clean_step r stack w =
     (if w = [] \<or> w = ''.'' then stack
      else if w = ''..'' then
        (if stack \<noteq> [] \<and> hd stack \<noteq> ''..'' then tl stack
         else if r then stack else ''..'' # stack)
      else w # stack)"

definition clean_comps :: "string \<Rightarrow> string list" where
  "clean_comps s = rev (foldl (clean_step (rooted s)) [] (split_slash s))"

definition path_of :: "string \<Rightarrow> path" where
  "path_of s = (if rooted s then ''/'' else ''.'') # clean_comps s"

definition Clean :: "string \<Rightarrow> string" where
  "Clean s =
     (if rooted s then ''/'' @ join_slash (clean_comps s)
      else if clean_comps s = [] then ''.'' else join_slash (clean_comps s))"

definition Join :: "string \<Rightarrow> string \<Rightarrow> string" where
  "Join a b =
     (if a \<noteq> [] then Clean (a @ ''/'' @ b) else if b \<noteq> [] then Clean b else [])"

text \<open>The last element of a name and what stands before it, slash included;
  \<open>filepath.Dir\<close> cleans the latter.\<close>

definition base_part :: "string \<Rightarrow> string" where
  "base_part s = rev (takeWhile (\<lambda>c. c \<noteq> CHR ''/'') (rev s))"

definition dir_part :: "string \<Rightarrow> string" where
  "dir_part s = rev (dropWhile (\<lambda>c. c \<noteq> CHR ''/'') (rev s))"

definition Dir :: "string \<Rightarrow> string" where
  "Dir s = Clean (dir_part s)"

text \<open>A plain component: one that is a name of its own inside any directory.\<close>

definition plain :: "string \<Rightarrow> bool" where
  "plain w \<longleftrightarrow> w \<noteq> [] \<and> w \<noteq> ''.'' \<and> w \<noteq> ''..'' \<and> CHR ''/'' \<notin> set w"

section \<open>Splitting and joining\<close>

lemma split_slash_nonempty [simp]: "split_slash s \<noteq> []"
  by (induction s) (auto split: list.splits)

lemma split_slash_append: "split_slash (a @ CHR ''/'' # b) = split_slash a @ split_slash b"
proof (induction a)
  case Nil
  show ?case by simp
next
  case (Cons c a)
  then show ?case
    using split_slash_nonempty [of a] by (cases "split_slash a") auto
qed

lemma split_slash_word: "CHR ''/'' \<notin> set w \<Longrightarrow> split_slash w = [w]"
  by (induction w) auto

lemma split_slash_no_slash: "w \<in> set (split_slash s) \<Longrightarrow> CHR ''/'' \<notin> set w"
proof (induction s arbitrary: w)
  case Nil
  then show ?case by simp
next
  case (Cons c s)
  then show ?case
    using split_slash_nonempty [of s] by (cases "split_slash s") (auto split: if_splits)
qed

lemma split_join_slash:
  "ws \<noteq> [] \<Longrightarrow> \<forall>w \<in> set ws. CHR ''/'' \<notin> set w \<Longrightarrow> split_slash (join_slash ws) = ws"
proof (induction ws rule: join_slash.induct)
  case (3 w v ws)
  then show ?case
    using split_slash_append [of w] by (simp add: split_slash_word)
qed (simp_all add: split_slash_word)

lemma rooted_append: "a \<noteq> [] \<Longrightarrow> rooted (a @ b) = rooted a"
  by (simp add: rooted_def)

section \<open>Cleaned components\<close>

text \<open>
  The stack of \<open>clean_step\<close>, newest component first: plain names above a block of
  \<open>''..''\<close>, which is empty for a rooted name.
\<close>

definition clean_stack :: "bool \<Rightarrow> string list \<Rightarrow> bool" where
  "clean_stack r st \<longleftrightarrow>
     (\<exists>ns k. st = ns @ replicate k ''..'' \<and> list_all plain ns \<and> (r \<longrightarrow> k = 0))"

lemma clean_stack_Nil [simp]: "clean_stack r []"
  by (auto simp: clean_stack_def)

lemma clean_stackI:
  "list_all plain ns \<Longrightarrow> (r \<Longrightarrow> k = 0) \<Longrightarrow> clean_stack r (ns @ replicate k ''..'')"
  by (auto simp: clean_stack_def)

lemma clean_stackE:
  assumes "clean_stack r st"
  obtains ns k where "st = ns @ replicate k ''..''" and "list_all plain ns" and "r \<longrightarrow> k = 0"
  using assms unfolding clean_stack_def by blast

lemma clean_stack_step:
  assumes "clean_stack r st" and "CHR ''/'' \<notin> set w"
  shows "clean_stack r (clean_step r st w)"
proof -
  from assms(1) obtain ns k where st: "st = ns @ replicate k ''..''"
    and ns: "list_all plain ns" and k: "r \<longrightarrow> k = 0"
    by (rule clean_stackE)
  consider "w = [] \<or> w = ''.''" | "w = ''..''" | "plain w"
    using assms(2) by (auto simp: plain_def)
  then show ?thesis
  proof cases
    case 1
    with assms(1) show ?thesis by (simp add: clean_step_def)
  next
    case 2
    show ?thesis
    proof (cases ns)
      case Nil
      then have "clean_step r st w = (if r then st else [] @ replicate (Suc k) ''..'')"
        using st 2 by (cases k) (auto simp: clean_step_def)
      then show ?thesis
        using assms(1) clean_stackI [of "[]" r "Suc k"] by (cases r) (simp_all del: replicate_Suc)
    next
      case (Cons n ns')
      then have "clean_step r st w = ns' @ replicate k ''..''"
        using st 2 ns by (auto simp: clean_step_def plain_def)
      then show ?thesis using Cons ns k by (auto intro: clean_stackI)
    qed
  next
    case 3
    then have "clean_step r st w = (w # ns) @ replicate k ''..''"
      using st by (auto simp: clean_step_def plain_def)
    moreover have "list_all plain (w # ns)" using ns 3 by simp
    ultimately show ?thesis using k by (metis clean_stackI)
  qed
qed

lemma clean_stack_foldl:
  "clean_stack r st \<Longrightarrow> \<forall>w \<in> set ws. CHR ''/'' \<notin> set w \<Longrightarrow>
   clean_stack r (foldl (clean_step r) st ws)"
  by (induction ws arbitrary: st) (auto intro: clean_stack_step)

lemma clean_stack_comps: "clean_stack (rooted s) (rev (clean_comps s))"
  using clean_stack_foldl [of "rooted s" "[]" "split_slash s"] split_slash_no_slash
  by (auto simp: clean_comps_def)

lemma foldl_clean_dotdots:
  "\<not> r \<Longrightarrow> foldl (clean_step r) (replicate j ''..'') (replicate k ''..'') = replicate (k + j) ''..''"
proof (induction k arbitrary: j)
  case (Suc k)
  have "clean_step r (replicate j ''..'') ''..'' = replicate (Suc j) ''..''"
    using Suc.prems by (cases j) (auto simp: clean_step_def)
  then show ?case using Suc.IH [OF Suc.prems, of "Suc j"] by simp
qed simp

lemma foldl_clean_plain:
  "list_all plain ns \<Longrightarrow> foldl (clean_step r) st ns = rev ns @ st"
  by (induction ns arbitrary: st) (auto simp: clean_step_def plain_def)

lemma foldl_clean_stack:
  assumes "clean_stack r st"
  shows "foldl (clean_step r) [] (rev st) = st"
proof -
  from assms obtain ns k where st: "st = ns @ replicate k ''..''"
    and ns: "list_all plain ns" and k: "r \<longrightarrow> k = 0"
    by (rule clean_stackE)
  have "foldl (clean_step r) [] (replicate k ''..'') = replicate k ''..''"
    using foldl_clean_dotdots [of r 0 k] k by (cases r) auto
  moreover have "list_all plain (rev ns)" using ns by (simp add: list_all_iff)
  ultimately show ?thesis by (simp add: st foldl_clean_plain)
qed

lemma clean_stack_members:
  assumes "clean_stack r st" and "w \<in> set st"
  shows "plain w \<or> w = ''..''"
proof -
  from assms(1) obtain ns k where st: "st = ns @ replicate k ''..''" and ns: "list_all plain ns"
    by (rule clean_stackE)
  from assms(2) have "w \<in> set ns \<or> w = ''..''" unfolding st by auto
  with ns show ?thesis by (auto simp: list_all_iff)
qed

lemma clean_comps_members: "w \<in> set (clean_comps s) \<Longrightarrow> plain w \<or> w = ''..''"
  using clean_stack_members [OF clean_stack_comps] by simp

lemma clean_comps_no_slash: "w \<in> set (clean_comps s) \<Longrightarrow> CHR ''/'' \<notin> set w"
  using clean_comps_members [of w s] by (auto simp: plain_def)

lemma clean_comps_nonempty: "[] \<notin> set (clean_comps s)"
  using clean_comps_members [of "[]" s] by (auto simp: plain_def)

section \<open>Keys of cleaned and joined names\<close>

lemma rooted_join_slash: "ws \<noteq> [] \<Longrightarrow> hd ws \<noteq> [] \<Longrightarrow> rooted (join_slash ws) = rooted (hd ws)"
  by (cases ws rule: join_slash.cases) (auto simp: rooted_def)

lemma rooted_Clean: "rooted (Clean s) = rooted s"
proof (cases "rooted s")
  case True
  then show ?thesis by (simp add: Clean_def rooted_def)
next
  case False
  show ?thesis
  proof (cases "clean_comps s")
    case Nil
    with False show ?thesis by (simp add: Clean_def rooted_def)
  next
    case (Cons w ws)
    then have "w \<noteq> []" "CHR ''/'' \<notin> set w"
      using clean_comps_nonempty [of s] clean_comps_no_slash [of w s] by auto
    then have "\<not> rooted w" by (cases w) (auto simp: rooted_def)
    with False Cons \<open>w \<noteq> []\<close> show ?thesis by (simp add: Clean_def rooted_join_slash)
  qed
qed

lemma clean_comps_Clean: "clean_comps (Clean s) = clean_comps s"
proof -
  let ?ws = "clean_comps s" and ?r = "rooted s"
  have fold: "foldl (clean_step ?r) [] ?ws = rev ?ws"
    using foldl_clean_stack [OF clean_stack_comps [of s]] by simp
  have split: "split_slash (join_slash ?ws) = (if ?ws = [] then [[]] else ?ws)"
    using split_join_slash [of ?ws] clean_comps_no_slash by auto
  have "foldl (clean_step ?r) [] (split_slash (Clean s)) = rev ?ws"
    using fold split by (auto simp: Clean_def clean_step_def)
  then show ?thesis by (simp add: clean_comps_def [of "Clean s"] rooted_Clean)
qed

lemma path_of_Clean [simp]: "path_of (Clean s) = path_of s"
  by (simp add: path_of_def rooted_Clean clean_comps_Clean)

lemma Clean_Clean: "Clean (Clean s) = Clean s"
  by (simp add: Clean_def [of "Clean s"] rooted_Clean clean_comps_Clean) (simp add: Clean_def)

lemma Clean_eq_iff: "Clean s = Clean t \<longleftrightarrow> path_of s = path_of t"
proof
  assume "Clean s = Clean t"
  then show "path_of s = path_of t" by (metis path_of_Clean)
next
  assume "path_of s = path_of t"
  then show "Clean s = Clean t" by (auto simp: path_of_def Clean_def split: if_splits)
qed

lemma clean_comps_snoc:
  assumes "a \<noteq> []" and "plain w"
  shows "clean_comps (a @ CHR ''/'' # w) = clean_comps a @ [w]"
  using assms split_slash_word [of w] rooted_append [of a "CHR ''/'' # w"]
  by (simp add: clean_comps_def split_slash_append clean_step_def plain_def)

lemma path_of_snoc:
  "a \<noteq> [] \<Longrightarrow> plain w \<Longrightarrow> path_of (a @ CHR ''/'' # w) = path_of a @ [w]"
  by (simp add: path_of_def rooted_append clean_comps_snoc)

lemma path_of_plain: "plain w \<Longrightarrow> path_of w = [''.'', w]"
  by (cases w) (auto simp: path_of_def clean_comps_def split_slash_word clean_step_def plain_def rooted_def)

lemma path_of_Nil [simp]: "path_of [] = [''.'']"
  by (simp add: path_of_def rooted_def clean_comps_def clean_step_def)

lemma path_of_Join [path_simps, simp]: "plain w \<Longrightarrow> path_of (Join a w) = path_of a @ [w]"
  by (cases "a = []") (auto simp: Join_def path_of_snoc path_of_plain, auto simp: plain_def)

lemma path_of_nonempty [simp]: "path_of s \<noteq> []"
  by (simp add: path_of_def)

section \<open>Directory and base\<close>

lemma dir_base: "s = dir_part s @ base_part s"
  by (metis base_part_def dir_part_def rev_append rev_rev_ident takeWhile_dropWhile_id)

lemma dir_part_end: "dir_part s = [] \<or> (\<exists>d. dir_part s = d @ ''/'')"
proof (cases "dropWhile (\<lambda>c. c \<noteq> CHR ''/'') (rev s)")
  case (Cons c cs)
  then have "c = CHR ''/''" using hd_dropWhile [of "\<lambda>c. c \<noteq> CHR ''/''" "rev s"] by auto
  with Cons show ?thesis by (simp add: dir_part_def)
qed (simp add: dir_part_def)

lemma dir_part_append: "CHR ''/'' \<notin> set x \<Longrightarrow> dir_part (s @ x) = dir_part s"
  by (subst dir_part_def, subst rev_append, subst dropWhile_append2) (auto simp: dir_part_def)

lemma base_part_append: "CHR ''/'' \<notin> set x \<Longrightarrow> base_part (s @ x) = base_part s @ x"
  by (subst base_part_def, subst rev_append, subst takeWhile_append2) (auto simp: base_part_def)

lemma base_part_slash: "CHR ''/'' \<notin> set w \<Longrightarrow> base_part (a @ CHR ''/'' # w) = w"
  using base_part_append [of w "a @ ''/''"] by (simp add: base_part_def)

lemma base_part_word: "CHR ''/'' \<notin> set w \<Longrightarrow> base_part w = w"
  using base_part_append [of w "[]"] by (simp add: base_part_def)

lemma path_of_dir_plain:
  assumes "d = [] \<or> (\<exists>d'. d = d' @ ''/'')" and "plain w"
  shows "path_of (d @ w) = path_of d @ [w]"
  using assms(1)
proof
  assume "d = []"
  then show ?thesis using assms(2) by (simp add: path_of_plain)
next
  assume "\<exists>d'. d = d' @ ''/''"
  then obtain d' where d: "d = d' @ ''/''" ..
  have w: "split_slash w = [w]" using assms(2) by (simp add: split_slash_word plain_def)
  have r: "rooted (d @ w) = rooted d" unfolding d by (cases d') (simp_all add: rooted_def)
  have "split_slash d = split_slash d' @ [[]]"
    using split_slash_append [of d' "[]"] d by simp
  moreover have "split_slash (d @ w) = split_slash d' @ [w]"
    using split_slash_append [of d' w] w d by simp
  ultimately have "clean_comps (d @ w) = clean_comps d @ [w]"
    using assms(2) by (simp add: clean_comps_def r clean_step_def plain_def)
  then show ?thesis by (simp add: path_of_def r)
qed

lemma path_of_dir_base:
  "plain (base_part s) \<Longrightarrow> path_of s = path_of (dir_part s) @ [base_part s]"
  using path_of_dir_plain [OF dir_part_end] dir_base [of s] by metis

lemma path_of_Dir: "plain (base_part s) \<Longrightarrow> path_of (Dir s) = butlast (path_of s)"
  by (simp add: Dir_def path_of_dir_base [of s])

text \<open>A suffix without a slash, such as \<open>.tmp\<close> or \<open>.staging\<close>, names a sibling.\<close>

lemma path_of_suffix:
  assumes "plain (base_part s)" and "CHR ''/'' \<notin> set x" and "plain (base_part s @ x)"
  shows "path_of (s @ x) = butlast (path_of s) @ [base_part s @ x]"
  using path_of_dir_base [of "s @ x"] path_of_dir_base [of s] assms
  by (simp add: base_part_append dir_part_append)

text \<open>After a trailing slash the same suffix names a child.\<close>

lemma path_of_slash_suffix:
  "plain x \<Longrightarrow> path_of ((s @ ''/'') @ x) = path_of (s @ ''/'') @ [x]"
  by (rule path_of_dir_plain) auto

lemma join_slash_snoc: "ws \<noteq> [] \<Longrightarrow> join_slash (ws @ [w]) = join_slash ws @ ''/'' @ w"
  by (induction ws rule: join_slash.induct) auto

lemma base_part_Clean:
  assumes "clean_comps s = ws @ [w]"
  shows "base_part (Clean s) = w"
proof -
  have w: "CHR ''/'' \<notin> set w" using clean_comps_no_slash [of w s] assms by simp
  show ?thesis
  proof (cases "ws = []")
    case True
    then show ?thesis
      using assms w base_part_slash [OF w, of "[]"] by (simp add: Clean_def base_part_word)
  next
    case False
    then have "Clean s = ((if rooted s then ''/'' else []) @ join_slash ws) @ CHR ''/'' # w"
      using assms by (simp add: Clean_def join_slash_snoc)
    then show ?thesis using base_part_slash [OF w] by metis
  qed
qed

lemma base_part_Join [path_simps, simp]: "plain w \<Longrightarrow> base_part (Join a w) = w"
proof -
  assume w: "plain w"
  have "clean_comps (if a = [] then w else a @ CHR ''/'' # w) = (if a = [] then [] else clean_comps a) @ [w]"
    using w clean_comps_snoc [of a w] path_of_plain [OF w] by (simp add: path_of_def)
  then have "base_part (Clean (if a = [] then w else a @ CHR ''/'' # w)) = w" by (rule base_part_Clean)
  moreover have "Join a w = Clean (if a = [] then w else a @ CHR ''/'' # w)"
    using w by (auto simp: Join_def plain_def)
  ultimately show ?thesis by simp
qed

lemma Join_nonempty [simp]: "plain w \<Longrightarrow> Join a w \<noteq> []"
  using base_part_Join [of w a] by (auto simp: base_part_def plain_def)

text \<open>Two components joined at once.\<close>

lemma Join_two:
  assumes "plain v" and "plain w"
  shows "path_of (Join a (v @ ''/'' @ w)) = path_of a @ [v, w]"
    and "base_part (Join a (v @ ''/'' @ w)) = w"
proof -
  let ?s = "if a = [] then v else a @ CHR ''/'' # v"
  have v: "v \<noteq> []" "?s \<noteq> []" using assms(1) by (auto simp: plain_def)
  have J: "Join a (v @ ''/'' @ w) = Clean (?s @ CHR ''/'' # w)"
    using v by (auto simp: Join_def)
  have "path_of ?s = path_of a @ [v]" using assms(1) by (simp add: path_of_plain path_of_snoc)
  then show "path_of (Join a (v @ ''/'' @ w)) = path_of a @ [v, w]"
    by (simp only: J path_of_Clean path_of_snoc [OF v(2) assms(2)]) simp
  show "base_part (Join a (v @ ''/'' @ w)) = w"
    unfolding J by (rule base_part_Clean [OF clean_comps_snoc [OF v(2) assms(2)]])
qed

lemma plain_suffix:
  "plain w \<Longrightarrow> CHR ''/'' \<notin> set x \<Longrightarrow> 2 < length x \<Longrightarrow> plain (w @ x)"
  by (auto simp: plain_def append_eq_Cons_conv)

end
