(* ===== verification/Go_Os.thy ===== *)
theory Go_Os
  imports Go_Path Go_Error
begin

text \<open>
  The operating system as the program sees it through Go's \<open>os\<close> package: a tree of
  files, directories and sockets, modification times, a clock and an environment. Nodes
  live in an association list under the keys of theory \<open>Go_Path\<close>; the two keys of
  length one, the root and the working directory, always exist. Every call that changes
  the tree first takes an entry of the list \<open>faults\<close>: the call may pass, fail without
  effect, or (a write) store a prefix of its data and then fail, so that what the program
  does when the disk fails is part of the model. An empty list means no more faults.
  Reads fail exactly when the tree has no suitable node at the path. Symbolic links,
  permissions and concurrent processes are not modelled, and the path an error names is
  the one the call was given.
\<close>

section \<open>State\<close>

datatype node = FileN bytes | DirN | SockN

datatype fault = Pass | Fail | Short nat

record os_state =
  nodes :: "(path \<times> node) list"
  mtimes :: "path \<Rightarrow> int"
  clock :: int
  faults :: "fault list"
  env :: "(string \<times> string) list"

definition node_at :: "'x os_state_scheme \<Rightarrow> path \<Rightarrow> node option" where
  "node_at s p = (if length p \<le> 1 then Some DirN else map_of (nodes s) p)"

definition missing_errno :: "'x os_state_scheme \<Rightarrow> path \<Rightarrow> errno" where
  "missing_errno s p =
     (if list_ex (\<lambda>q. q \<noteq> p \<and> node_at s q \<noteq> None \<and> node_at s q \<noteq> Some DirN) (prefixes p)
      then ENOTDIR else ENOENT)"

definition put_node :: "path \<Rightarrow> node \<Rightarrow> 'x os_state_scheme \<Rightarrow> 'x os_state_scheme" where
  "put_node p n s = s\<lparr>nodes := AList.update p n (nodes s)\<rparr>"

definition touch :: "path \<Rightarrow> 'x os_state_scheme \<Rightarrow> 'x os_state_scheme" where
  "touch p s = s\<lparr>mtimes := (mtimes s)(p := clock s)\<rparr>"

definition pop_fault :: "'x os_state_scheme \<Rightarrow> 'x os_state_scheme" where
  "pop_fault s = s\<lparr>faults := tl (faults s)\<rparr>"

definition next_fault :: "'x os_state_scheme \<Rightarrow> fault" where
  "next_fault s = (case faults s of [] \<Rightarrow> Pass | f # _ \<Rightarrow> f)"

section \<open>Reads\<close>

definition Getenv :: "string \<Rightarrow> 'x os_state_scheme \<Rightarrow> string" where
  "Getenv k s = (case map_of (env s) k of None \<Rightarrow> [] | Some v \<Rightarrow> v)"

definition os_Stat :: "string \<Rightarrow> ('x os_state_scheme, node) act" where
  "os_Stat name = readA (\<lambda>s. case node_at s (path_of name) of
       None \<Rightarrow> Err (PathError ''stat'' name (missing_errno s (path_of name)))
     | Some n \<Rightarrow> Ret n)"

definition os_Open :: "string \<Rightarrow> ('x os_state_scheme, node) act" where
  "os_Open name = readA (\<lambda>s. case node_at s (path_of name) of
       None \<Rightarrow> Err (PathError ''open'' name (missing_errno s (path_of name)))
     | Some SockN \<Rightarrow> Err (PathError ''open'' name ENXIO)
     | Some n \<Rightarrow> Ret n)"

text \<open>What reading from an open file yields: its bytes, or an error for a directory.\<close>

fun file_bytes :: "string \<Rightarrow> node \<Rightarrow> bytes outcome" where
  "file_bytes name (FileN b) = Ret b"
| "file_bytes name DirN = Err (PathError ''read'' name EISDIR)"
| "file_bytes name SockN = Err (PathError ''read'' name ENXIO)"

definition os_ReadFile :: "string \<Rightarrow> ('x os_state_scheme, bytes) act" where
  "os_ReadFile name = bindA (os_Open name) (\<lambda>n. liftA (file_bytes name n))"

text \<open>\<open>f.ReadAt(buf, off)\<close> with a buffer of \<open>n\<close> bytes, requiring all of them.\<close>

definition file_ReadAt :: "string \<Rightarrow> node \<Rightarrow> int \<Rightarrow> nat \<Rightarrow> bytes outcome" where
  "file_ReadAt name f off n =
     (if off < 0 then Err (PathError ''readat'' name NegOffset)
      else if n = 0 then Ret []
      else bindO (file_bytes name f) (\<lambda>b.
        if nat off + n \<le> length b then Ret (chunk b (nat off) n) else Err EOF))"

definition children :: "'x os_state_scheme \<Rightarrow> path \<Rightarrow> string list" where
  "children s p =
     sort (remdups (map last (filter (\<lambda>k. k \<noteq> [] \<and> butlast k = p) (map fst (nodes s)))))"

definition os_ReadDir :: "string \<Rightarrow> ('x os_state_scheme, (string \<times> node) list) act" where
  "os_ReadDir name = readA (\<lambda>s. case node_at s (path_of name) of
       None \<Rightarrow> Err (PathError ''open'' name (missing_errno s (path_of name)))
     | Some DirN \<Rightarrow> Ret (map (\<lambda>w. (w, the (node_at s (path_of name @ [w])))) (children s (path_of name)))
     | Some _ \<Rightarrow> Err (PathError ''readdirent'' name ENOTDIR))"

section \<open>Writes\<close>

text \<open>
  Opening for writing (created if absent) and writing \<open>b\<close>: \<open>keep\<close> says whether the
  old contents stay in front of it (\<open>O_APPEND\<close>) or are dropped (\<open>O_TRUNC\<close>).
\<close>

definition store_file :: "path \<Rightarrow> bytes \<Rightarrow> 'x os_state_scheme \<Rightarrow> 'x os_state_scheme" where
  "store_file p b s =
     put_node p (FileN b) (touch p (if node_at s p = None then touch (butlast p) s else s))"

definition open_for_write :: "string \<Rightarrow> 'x os_state_scheme \<Rightarrow> bytes outcome" where
  "open_for_write name s =
     (let p = path_of name in case node_at s p of
       Some (FileN old) \<Rightarrow> Ret old
     | Some DirN \<Rightarrow> Err (PathError ''open'' name EISDIR)
     | Some SockN \<Rightarrow> Err (PathError ''open'' name ENXIO)
     | None \<Rightarrow> if node_at s (butlast p) = Some DirN then Ret []
               else Err (PathError ''open'' name (missing_errno s p)))"

definition os_write :: "bool \<Rightarrow> string \<Rightarrow> bytes \<Rightarrow> ('x os_state_scheme, unit) act" where
  "os_write keep name b s =
     (let s1 = pop_fault s; p = path_of name in
      if next_fault s = Fail then (Err (PathError ''open'' name EIO), s1)
      else case open_for_write name s1 of
        Ret old \<Rightarrow>
          (let base = (if keep then old else []) in
           case next_fault s of
             Short n \<Rightarrow> (Err (PathError ''write'' name EIO), store_file p (base @ take n b) s1)
           | _ \<Rightarrow> (Ret (), store_file p (base @ b) s1))
      | Err e \<Rightarrow> (Err e, s1)
      | Panic m \<Rightarrow> (Panic m, s1)
      | Diverge \<Rightarrow> (Diverge, s1))"

abbreviation os_WriteFile :: "string \<Rightarrow> bytes \<Rightarrow> ('x os_state_scheme, unit) act" where
  "os_WriteFile \<equiv> os_write False"

abbreviation os_AppendFile :: "string \<Rightarrow> bytes \<Rightarrow> ('x os_state_scheme, unit) act" where
  "os_AppendFile \<equiv> os_write True"

definition mkdir_step :: "'x os_state_scheme \<Rightarrow> path \<Rightarrow> 'x os_state_scheme" where
  "mkdir_step s q =
     (if node_at s q = None then put_node q DirN (touch q (touch (butlast q) s)) else s)"

definition make_dirs :: "path \<Rightarrow> 'x os_state_scheme \<Rightarrow> 'x os_state_scheme" where
  "make_dirs p s = foldl mkdir_step s (prefixes p)"

definition os_MkdirAll :: "string \<Rightarrow> ('x os_state_scheme, unit) act" where
  "os_MkdirAll name s =
     (let s1 = pop_fault s; p = path_of name in
      if next_fault s \<noteq> Pass then (Err (PathError ''mkdir'' name EIO), s1)
      else if list_ex (\<lambda>q. node_at s1 q \<noteq> None \<and> node_at s1 q \<noteq> Some DirN) (prefixes p)
        then (Err (PathError ''mkdir'' name ENOTDIR), s1)
      else (Ret (), make_dirs p s1))"

definition remove_tree :: "path \<Rightarrow> 'x os_state_scheme \<Rightarrow> 'x os_state_scheme" where
  "remove_tree p s =
     (let s1 = s\<lparr>nodes := filter (\<lambda>kv. \<not> prefix p (fst kv)) (nodes s)\<rparr>
      in if node_at s p = None then s1 else touch (butlast p) s1)"

definition os_RemoveAll :: "string \<Rightarrow> ('x os_state_scheme, unit) act" where
  "os_RemoveAll name s =
     (let s1 = pop_fault s; p = path_of name in
      if name = [] then (Ret (), s)
      else if next_fault s \<noteq> Pass then (Err (PathError ''unlinkat'' name EIO), s1)
      else if length p \<le> 1 \<or> HasSuffix name ''/.'' then (Err (PathError ''RemoveAll'' name EINVAL), s1)
      else if node_at s1 p = None \<and> missing_errno s1 p = ENOTDIR
        then (Err (PathError ''unlinkat'' name ENOTDIR), s1)
      else (Ret (), remove_tree p s1))"

text \<open>\<open>os.Remove\<close> of a file or an empty directory.\<close>

definition os_Remove :: "string \<Rightarrow> ('x os_state_scheme, unit) act" where
  "os_Remove name s =
     (let s1 = pop_fault s; p = path_of name in
      if next_fault s \<noteq> Pass then (Err (PathError ''remove'' name EIO), s1)
      else if node_at s1 p = None then (Err (PathError ''remove'' name (missing_errno s1 p)), s1)
      else if length p \<le> 1 \<or> (node_at s1 p = Some DirN \<and> children s1 p \<noteq> [])
        then (Err (PathError ''remove'' name EEXIST), s1)
      else (Ret (), remove_tree p s1))"

definition rekey :: "path \<Rightarrow> path \<Rightarrow> path \<Rightarrow> path" where
  "rekey p q k = (if prefix p k then q @ drop (length p) k else k)"

definition move_tree :: "path \<Rightarrow> path \<Rightarrow> 'x os_state_scheme \<Rightarrow> 'x os_state_scheme" where
  "move_tree p q s =
     touch (butlast q) (touch (butlast p) (s\<lparr>
       nodes := map (\<lambda>kv. (rekey p q (fst kv), snd kv))
                  (filter (\<lambda>kv. \<not> prefix q (fst kv)) (nodes s)),
       mtimes := (\<lambda>k. if prefix q k then mtimes s (p @ drop (length q) k) else mtimes s k)\<rparr>))"

definition os_Rename :: "string \<Rightarrow> string \<Rightarrow> ('x os_state_scheme, unit) act" where
  "os_Rename old new s =
     (let s1 = pop_fault s; p = path_of old; q = path_of new in
      if next_fault s \<noteq> Pass then (Err (LinkError ''rename'' old new EIO), s1)
      else if node_at s1 p = None then (Err (LinkError ''rename'' old new (missing_errno s1 p)), s1)
      else if node_at s1 q = Some DirN then (Err (LinkError ''rename'' old new EEXIST), s1)
      else if length p \<le> 1 \<or> prefix p q \<and> p \<noteq> q then (Err (LinkError ''rename'' old new EINVAL), s1)
      else if node_at s1 (butlast q) \<noteq> Some DirN
        then (Err (LinkError ''rename'' old new (missing_errno s1 q)), s1)
      else if node_at s1 p = Some DirN \<and> node_at s1 q \<noteq> None
        then (Err (LinkError ''rename'' old new ENOTDIR), s1)
      else if p = q then (Ret (), s1)
      else (Ret (), move_tree p q s1))"

end
