(* ===== verification/Go_Os_Laws.thy ===== *)
theory Go_Os_Laws
  imports Go_Os
begin

text \<open>
  What the operations of theory \<open>Go_Os\<close> do, in terms of the node at each path: one
  equation per change of the tree (collected in \<open>fs_simps\<close>), an inversion rule per
  call that returned, a success rule per call on a state with no pending fault, and the
  well-formedness of the tree (every node hangs in a directory), which every call keeps.
\<close>

section \<open>Fields the changes leave alone\<close>

lemma os_frame [simp]:
  "faults (put_node p n s) = faults s" "env (put_node p n s) = env s"
  "mtimes (put_node p n s) = mtimes s" "clock (put_node p n s) = clock s"
  "faults (touch p s) = faults s" "env (touch p s) = env s"
  "nodes (touch p s) = nodes s" "clock (touch p s) = clock s"
  "nodes (pop_fault s) = nodes s" "env (pop_fault s) = env s"
  "mtimes (pop_fault s) = mtimes s" "clock (pop_fault s) = clock s"
  "faults (pop_fault s) = tl (faults s)"
  by (simp_all add: put_node_def touch_def pop_fault_def)

lemma os_frame_store [simp]:
  "faults (store_file p b s) = faults s" "env (store_file p b s) = env s"
  "clock (store_file p b s) = clock s"
  by (simp_all add: store_file_def)

lemma os_frame_mkdir_step [simp]:
  "faults (mkdir_step s q) = faults s" "env (mkdir_step s q) = env s"
  "clock (mkdir_step s q) = clock s"
  by (simp_all add: mkdir_step_def)

lemma os_frame_foldl_mkdir [simp]:
  "faults (foldl mkdir_step s ps) = faults s" "env (foldl mkdir_step s ps) = env s"
  "clock (foldl mkdir_step s ps) = clock s"
  by (induction ps arbitrary: s) simp_all

lemma os_frame_trees [simp]:
  "faults (make_dirs p s) = faults s" "env (make_dirs p s) = env s" "clock (make_dirs p s) = clock s"
  "faults (remove_tree p s) = faults s" "env (remove_tree p s) = env s"
  "clock (remove_tree p s) = clock s"
  "faults (move_tree p q s) = faults s" "env (move_tree p q s) = env s"
  "clock (move_tree p q s) = clock s"
  by (simp_all add: make_dirs_def remove_tree_def move_tree_def Let_def touch_def)

lemma pop_fault_none [simp]: "faults s = [] \<Longrightarrow> pop_fault s = s"
  by (simp add: pop_fault_def)

lemma next_fault_none [simp]: "faults s = [] \<Longrightarrow> next_fault s = Pass"
  by (simp add: next_fault_def)

section \<open>The node at each path\<close>

lemma node_at_root [simp]: "length p \<le> 1 \<Longrightarrow> node_at s p = Some DirN"
  by (simp add: node_at_def)

lemma node_at_touch [simp, fs_simps]: "node_at (touch p s) q = node_at s q"
  by (simp add: node_at_def)

lemma node_at_pop_fault [simp, fs_simps]: "node_at (pop_fault s) q = node_at s q"
  by (simp add: node_at_def)

lemma node_at_put_node [fs_simps]:
  "Suc 0 < length p \<Longrightarrow> node_at (put_node p n s) q = (if q = p then Some n else node_at s q)"
  by (auto simp: node_at_def put_node_def update_conv)

lemma node_at_store_file [fs_simps]:
  "Suc 0 < length p \<Longrightarrow> node_at (store_file p b s) q = (if q = p then Some (FileN b) else node_at s q)"
  by (simp add: store_file_def node_at_put_node)

lemma node_at_mkdir_step:
  "node_at (mkdir_step s p) q = (if q = p \<and> node_at s q = None then Some DirN else node_at s q)"
proof (cases "Suc 0 < length p")
  case True
  then show ?thesis by (auto simp: mkdir_step_def node_at_put_node)
next
  case False
  then show ?thesis by (auto simp: mkdir_step_def)
qed

lemma node_at_foldl_mkdir:
  "node_at (foldl mkdir_step s ps) q =
     (if q \<in> set ps \<and> node_at s q = None then Some DirN else node_at s q)"
  by (induction ps arbitrary: s) (auto simp: node_at_mkdir_step)

lemma node_at_make_dirs [fs_simps]:
  "node_at (make_dirs p s) q =
     (if prefix q p \<and> node_at s q = None then Some DirN else node_at s q)"
  by (simp add: make_dirs_def node_at_foldl_mkdir)

lemma node_at_remove_tree [fs_simps]:
  assumes "Suc 0 < length p"
  shows "node_at (remove_tree p s) q = (if prefix p q then None else node_at s q)"
proof -
  have "\<not> prefix p q" if "length q \<le> 1" using that assms by (auto dest: prefix_length_le)
  moreover have "node_at (remove_tree p s) q = (if length q \<le> 1 then Some DirN
      else if prefix p q then None else map_of (nodes s) q)"
    by (simp add: remove_tree_def Let_def node_at_def touch_def
        map_of_filter_key [where P = "\<lambda>k. \<not> prefix p k"])
  ultimately show ?thesis by (simp add: node_at_def)
qed

lemma rekey_inj_on:
  assumes "\<forall>k \<in> A. \<not> prefix q k"
  shows "inj_on (rekey p q) A"
proof (rule inj_onI)
  fix x y assume A: "x \<in> A" "y \<in> A" and eq: "rekey p q x = rekey p q y"
  show "x = y"
  proof (cases "prefix p x"; cases "prefix p y")
    assume "prefix p x" "prefix p y"
    then show ?thesis using eq by (auto simp: rekey_def elim!: prefixE)
  next
    assume "prefix p x" "\<not> prefix p y"
    then have "prefix q y" using eq by (auto simp: rekey_def)
    with A assms show ?thesis by blast
  next
    assume "\<not> prefix p x" "prefix p y"
    then have "prefix q x" using eq by (auto simp: rekey_def)
    with A assms show ?thesis by blast
  next
    assume "\<not> prefix p x" "\<not> prefix p y"
    then show ?thesis using eq by (simp add: rekey_def)
  qed
qed

lemma map_of_rekey:
  assumes "\<not> prefix p q" and "\<not> prefix q p"
  shows "map_of (map (\<lambda>kv. (rekey p q (fst kv), snd kv))
           (filter (\<lambda>kv. \<not> prefix q (fst kv)) al)) k =
         (if prefix q k then map_of al (p @ drop (length q) k)
          else if prefix p k then None else map_of al k)"
proof -
  let ?al = "filter (\<lambda>kv. \<not> prefix q (fst kv)) al"
  have par: "\<not> prefix q (p @ r)" for r
    using assms by (auto simp: prefix_append)
  have lookup: "map_of (map (\<lambda>kv. (rekey p q (fst kv), snd kv)) ?al) (rekey p q j) = map_of ?al j"
    if "\<not> prefix q j" for j
    by (rule map_of_map_key, rule rekey_inj_on) (use that in auto)
  have keys: "fst ` set (map (\<lambda>kv. (rekey p q (fst kv), snd kv)) ?al) \<subseteq> {x. \<not> prefix p x} \<union> {x. prefix q x}"
    by (auto simp: rekey_def split: if_split_asm)
  consider "prefix q k" | "\<not> prefix q k" "prefix p k" | "\<not> prefix q k" "\<not> prefix p k" by blast
  then show ?thesis
  proof cases
    case 1
    let ?j = "p @ drop (length q) k"
    have "rekey p q ?j = k" using 1 by (auto simp: rekey_def elim: prefixE)
    with lookup [OF par, of "drop (length q) k"] 1 show ?thesis
      using map_of_filter_key [of "\<lambda>k. \<not> prefix q k" al ?j] par [of "drop (length q) k"] by simp
  next
    case 2
    then have "k \<notin> fst ` set (map (\<lambda>kv. (rekey p q (fst kv), snd kv)) ?al)" using keys by blast
    then have "map_of (map (\<lambda>kv. (rekey p q (fst kv), snd kv)) ?al) k = None"
      by (simp only: map_of_eq_None_iff not_False_eq_True)
    with 2 show ?thesis by simp
  next
    case 3
    then have "rekey p q k = k" by (simp add: rekey_def)
    with lookup [OF 3(1)] 3 show ?thesis
      using map_of_filter_key [of "\<lambda>k. \<not> prefix q k" al k] by simp
  qed
qed

lemma node_at_move_tree [fs_simps]:
  assumes "Suc 0 < length p" "Suc 0 < length q" and "\<not> prefix p q" and "\<not> prefix q p"
  shows "node_at (move_tree p q s) k =
     (if prefix q k then node_at s (p @ drop (length q) k)
      else if prefix p k then None else node_at s k)"
proof (cases "length k \<le> 1")
  case True
  then have "\<not> prefix q k" "\<not> prefix p k" using assms by (auto dest: prefix_length_le)
  with True show ?thesis by simp
next
  case False
  have "\<not> length (p @ drop (length q) k) \<le> 1" using assms by simp
  with False show ?thesis
    by (simp add: node_at_def move_tree_def touch_def map_of_rekey [OF assms(3,4)])
qed

section \<open>Calls that return\<close>

lemma os_Stat_Ret_iff: "os_Stat name s = (Ret n, t) \<longleftrightarrow> t = s \<and> node_at s (path_of name) = Some n"
  by (auto simp: os_Stat_def split: option.splits)

lemma os_Stat_cases: "os_Stat name s =
    (case node_at s (path_of name) of
       None \<Rightarrow> Err (PathError ''stat'' name (missing_errno s (path_of name))) | Some n \<Rightarrow> Ret n, s)"
  by (simp add: os_Stat_def)

lemma os_ReadFile_Ret_iff:
  "os_ReadFile name s = (Ret b, t) \<longleftrightarrow> t = s \<and> node_at s (path_of name) = Some (FileN b)"
  by (auto simp: os_ReadFile_def os_Open_def bindA_readA split: option.splits node.splits)

lemma os_ReadFile_file [outcome_simps]:
  "node_at s (path_of name) = Some (FileN b) \<Longrightarrow> os_ReadFile name s = (Ret b, s)"
  by (simp add: os_ReadFile_Ret_iff)

lemma os_ReadFile_pure: "snd (os_ReadFile name s) = s"
  by (auto simp: os_ReadFile_def os_Open_def bindA_readA split: option.splits node.splits)

lemma os_write_RetE:
  assumes "os_write keep name b s = (Ret u, t)"
  obtains old where "open_for_write name (pop_fault s) = Ret old" and "next_fault s = Pass"
    and "t = store_file (path_of name) ((if keep then old else []) @ b) (pop_fault s)"
  using assms by (auto simp: os_write_def Let_def split: if_splits outcome.splits fault.splits)

lemma open_for_write_Ret:
  "open_for_write name s = Ret old \<longleftrightarrow>
     node_at s (path_of name) = Some (FileN old) \<or>
     node_at s (path_of name) = None \<and> node_at s (butlast (path_of name)) = Some DirN \<and> old = []"
  by (auto simp: open_for_write_def Let_def split: option.splits node.splits)

lemma open_for_write_length: "open_for_write name s = Ret old \<Longrightarrow> Suc 0 < length (path_of name)"
  by (cases "length (path_of name) \<le> 1") (auto simp: open_for_write_Ret)

text \<open>What a finished write leaves at each path, and that a failed one touches only its file.\<close>

lemma os_WriteFile_node_at:
  assumes "os_WriteFile name b s = (Ret u, t)"
  shows "node_at t q = (if q = path_of name then Some (FileN b) else node_at s q)"
  using assms
  by (auto elim!: os_write_RetE dest: open_for_write_length simp: node_at_store_file)

lemma os_write_other:
  assumes "os_write keep name b s = (r, t)" and "q \<noteq> path_of name"
  shows "node_at t q = node_at s q"
proof -
  have "node_at (store_file (path_of name) c (pop_fault s)) q = node_at s q"
    if "open_for_write name (pop_fault s) = Ret old" for c old
    using assms(2) by (simp add: node_at_store_file open_for_write_length [OF that])
  then show ?thesis
    using assms by (auto simp: os_write_def Let_def split: if_splits outcome.splits fault.splits)
qed

text \<open>A path that can be written: a file is there, or nothing but the directory for it.\<close>

definition can_write :: "'x os_state_scheme \<Rightarrow> path \<Rightarrow> bool" where
  "can_write s p \<longleftrightarrow> (\<exists>b. node_at s p = Some (FileN b)) \<or>
     node_at s p = None \<and> node_at s (butlast p) = Some DirN"

lemma can_write_length: "can_write s p \<Longrightarrow> Suc 0 < length p"
  by (cases "length p \<le> 1") (auto simp: can_write_def)

lemma os_WriteFile_ok [outcome_simps]:
  assumes "faults s = []" and "can_write s (path_of name)"
  shows "os_WriteFile name b s = (Ret (), store_file (path_of name) b s)"
proof -
  obtain old where "open_for_write name s = Ret old"
    using assms(2) by (auto simp: can_write_def open_for_write_Ret)
  then show ?thesis using assms(1) by (simp add: os_write_def Let_def)
qed

lemma can_write_store_file [fs_simps]:
  assumes "can_write s p"
  shows "can_write (store_file p b s) q \<longleftrightarrow> q = p \<or> can_write s q"
  using assms by (auto simp: can_write_def node_at_store_file [OF can_write_length [OF assms]])

text \<open>Directories, removal and renaming.\<close>

lemma os_MkdirAll_Ret:
  assumes "os_MkdirAll name s = (Ret u, t)"
  shows "t = make_dirs (path_of name) (pop_fault s)"
    and "prefix q (path_of name) \<Longrightarrow> node_at s q = None \<or> node_at s q = Some DirN"
  using assms by (auto simp: os_MkdirAll_def Let_def list_ex_iff split: if_splits)

lemma os_MkdirAll_node_at:
  assumes "os_MkdirAll name s = (Ret u, t)"
  shows "node_at t q = (if prefix q (path_of name) then Some DirN else node_at s q)"
  using os_MkdirAll_Ret(1) [OF assms] os_MkdirAll_Ret(2) [OF assms, of q]
  by (auto simp: node_at_make_dirs)

lemma os_MkdirAll_Err:
  "os_MkdirAll name s = (Err e, t) \<Longrightarrow> t = pop_fault s"
  by (auto simp: os_MkdirAll_def Let_def split: if_splits)

lemma os_MkdirAll_ok [outcome_simps]:
  assumes "faults s = []"
    and "\<And>q. prefix q (path_of name) \<Longrightarrow> node_at s q = None \<or> node_at s q = Some DirN"
  shows "os_MkdirAll name s = (Ret (), make_dirs (path_of name) s)"
  using assms by (fastforce simp: os_MkdirAll_def Let_def list_ex_iff)

definition removable :: "string \<Rightarrow> bool" where
  "removable name \<longleftrightarrow> name \<noteq> [] \<and> Suc 0 < length (path_of name) \<and> \<not> HasSuffix name ''/.''"

lemma os_RemoveAll_node_at:
  assumes "os_RemoveAll name s = (Ret u, t)" and "name \<noteq> []"
  shows "node_at t q = (if prefix (path_of name) q then None else node_at s q)"
  using assms by (auto simp: os_RemoveAll_def Let_def node_at_remove_tree split: if_splits)

lemma os_RemoveAll_Err:
  "os_RemoveAll name s = (Err e, t) \<Longrightarrow> t = pop_fault s"
  by (auto simp: os_RemoveAll_def Let_def split: if_splits)

lemma os_RemoveAll_ok [outcome_simps]:
  assumes "faults s = []" and "removable name"
    and "node_at s (path_of name) = None \<Longrightarrow> missing_errno s (path_of name) = ENOENT"
  shows "os_RemoveAll name s = (Ret (), remove_tree (path_of name) s)"
  using assms by (auto simp: os_RemoveAll_def Let_def removable_def)

lemma os_Rename_RetE:
  assumes "os_Rename old new s = (Ret u, t)"
  obtains "path_of old = path_of new" and "t = pop_fault s"
  | "t = move_tree (path_of old) (path_of new) (pop_fault s)"
    and "path_of old \<noteq> path_of new" and "\<not> prefix (path_of old) (path_of new)"
    and "Suc 0 < length (path_of old)" and "node_at s (path_of old) \<noteq> None"
    and "node_at s (path_of new) \<noteq> Some DirN" and "node_at s (butlast (path_of new)) = Some DirN"
  using assms by (auto simp: os_Rename_def Let_def split: if_splits)

lemma os_Rename_Err: "os_Rename old new s = (Err e, t) \<Longrightarrow> t = pop_fault s"
  by (auto simp: os_Rename_def Let_def split: if_splits)

lemma os_Rename_ok [outcome_simps]:
  assumes "faults s = []" and "node_at s (path_of old) \<noteq> None" and "node_at s (path_of new) = None"
    and "node_at s (butlast (path_of new)) = Some DirN"
    and "Suc 0 < length (path_of old)" and "\<not> prefix (path_of old) (path_of new)"
  shows "os_Rename old new s = (Ret (), move_tree (path_of old) (path_of new) s)"
  using assms by (auto simp: os_Rename_def Let_def)

section \<open>Well-formed trees\<close>

definition wf_os :: "'x os_state_scheme \<Rightarrow> bool" where
  "wf_os s \<longleftrightarrow> (\<forall>p. Suc 0 < length p \<longrightarrow> node_at s p \<noteq> None \<longrightarrow> node_at s (butlast p) = Some DirN)"

lemma wf_osD: "wf_os s \<Longrightarrow> node_at s p \<noteq> None \<Longrightarrow> node_at s (butlast p) = Some DirN"
  by (cases "Suc 0 < length p") (auto simp: wf_os_def)

lemma wf_os_ancestor:
  assumes "wf_os s" and "node_at s (p @ r) \<noteq> None" and "r \<noteq> []"
  shows "node_at s p = Some DirN"
  using assms(2,3)
proof (induction r rule: rev_induct)
  case (snoc x r)
  from snoc.prems(1) have "node_at s (butlast (p @ r @ [x])) = Some DirN"
    by (intro wf_osD [OF assms(1)]) simp
  then have "node_at s (p @ r) = Some DirN" by (simp add: butlast_append)
  with snoc.IH show ?case by (cases "r = []") auto
qed simp

lemma wf_os_below:
  assumes "wf_os s" and "node_at s p \<noteq> Some DirN" and "prefix p q" and "p \<noteq> q"
  shows "node_at s q = None"
proof (rule ccontr)
  from assms(3,4) obtain r where "q = p @ r" "r \<noteq> []" by (auto elim: prefixE)
  moreover assume "node_at s q \<noteq> None"
  ultimately show False using wf_os_ancestor [OF assms(1)] assms(2) by auto
qed

lemma missing_errno_parent:
  assumes "wf_os s" and "node_at s (butlast p) = Some DirN"
  shows "missing_errno s p = ENOENT"
proof -
  have "node_at s q = Some DirN" if "prefix q p" "q \<noteq> p" for q
  proof -
    from that obtain r x where p: "p = q @ r @ [x]"
      by (metis append_Nil2 prefix_def rev_exhaust)
    then have "node_at s (q @ r) \<noteq> None" using assms(2) by (simp add: butlast_append)
    with assms p show ?thesis
      using wf_os_ancestor [OF assms(1), of q r] by (cases "r = []") (auto simp: butlast_append)
  qed
  then show ?thesis by (auto simp: missing_errno_def list_ex_iff)
qed

lemma missing_errno_ENOTDIR:
  "missing_errno s p = ENOTDIR \<Longrightarrow> \<exists>q. prefix q p \<and> node_at s q \<noteq> None \<and> node_at s q \<noteq> Some DirN"
  unfolding missing_errno_def list_ex_iff by (auto split: if_split_asm)

lemma set_children:
  "p \<noteq> [] \<Longrightarrow> w \<in> set (children s p) \<longleftrightarrow> node_at s (p @ [w]) \<noteq> None"
proof -
  assume p: "p \<noteq> []"
  have snoc: "k \<noteq> [] \<and> butlast k = p \<and> last k = w \<longleftrightarrow> k = p @ [w]" for k :: path
    by (cases k rule: rev_cases) auto
  have "w \<in> set (children s p) \<longleftrightarrow> (\<exists>k \<in> fst ` set (nodes s). k \<noteq> [] \<and> butlast k = p \<and> last k = w)"
    unfolding children_def by force
  also have "\<dots> \<longleftrightarrow> p @ [w] \<in> fst ` set (nodes s)" by (simp only: snoc bex_triv_one_point1)
  finally have "w \<in> set (children s p) \<longleftrightarrow> p @ [w] \<in> fst ` set (nodes s)" .
  with p show ?thesis by (auto simp: node_at_def map_of_eq_None_iff)
qed

lemma sorted_children [simp]: "sorted (children s p)" "distinct (children s p)"
  by (simp_all add: children_def)

lemma wf_os_pop_fault [simp]: "wf_os (pop_fault s) = wf_os s"
  by (simp add: wf_os_def)

lemma wf_os_store_file:
  assumes "wf_os s" and "can_write s p"
  shows "wf_os (store_file p b s)"
proof -
  have "Suc 0 < length p" using assms(2) by (rule can_write_length)
  moreover have "node_at s (butlast p) = Some DirN"
    using assms by (auto simp: can_write_def dest: wf_osD)
  moreover have "node_at s p \<noteq> Some DirN" using assms(2) by (auto simp: can_write_def)
  ultimately show ?thesis
    using assms(1) by (auto simp: wf_os_def node_at_store_file)
qed

lemma open_can_write: "open_for_write name s = Ret old \<Longrightarrow> can_write s (path_of name)"
  by (auto simp: open_for_write_Ret can_write_def)

lemma keeps_wf_os_write: "keeps wf_os (os_write keep name b)"
  by (rule keepsI)
    (auto simp: os_write_def Let_def intro!: wf_os_store_file open_can_write
      split: outcome.splits fault.splits)

lemma wf_os_make_dirs:
  assumes "wf_os s" and ok: "\<And>q. prefix q p \<Longrightarrow> node_at s q = None \<or> node_at s q = Some DirN"
  shows "wf_os (make_dirs p s)"
proof -
  have "node_at (make_dirs p s) (butlast k) = Some DirN"
    if "Suc 0 < length k" "node_at (make_dirs p s) k \<noteq> None" for k
  proof (cases "prefix k p")
    case True
    then have "prefix (butlast k) p" using prefix_order.trans prefixeq_butlast by blast
    then show ?thesis using ok [of "butlast k"] by (auto simp: node_at_make_dirs)
  next
    case False
    then have "node_at s k \<noteq> None" using that(2) by (simp add: node_at_make_dirs)
    then have "node_at s (butlast k) = Some DirN" by (rule wf_osD [OF assms(1)])
    then show ?thesis by (simp add: node_at_make_dirs)
  qed
  then show ?thesis by (simp add: wf_os_def)
qed

lemma keeps_wf_os_MkdirAll: "keeps wf_os (os_MkdirAll name)"
proof (rule keepsI)
  fix s :: "'a os_state_scheme" assume wf: "wf_os s"
  show "wf_os (snd (os_MkdirAll name s))"
  proof (cases "os_MkdirAll name s")
    case (Pair r t)
    show ?thesis
    proof (cases r)
      case (Ret u)
      with Pair have t: "t = make_dirs (path_of name) (pop_fault s)"
        and ok: "\<And>q. prefix q (path_of name) \<Longrightarrow> node_at s q = None \<or> node_at s q = Some DirN"
        using os_MkdirAll_Ret by blast+
      have "wf_os (make_dirs (path_of name) (pop_fault s))"
        by (rule wf_os_make_dirs) (use wf ok in auto)
      with Pair t show ?thesis by simp
    qed (use Pair wf in \<open>auto simp: os_MkdirAll_def Let_def split: if_splits\<close>)
  qed
qed

lemma wf_os_remove_tree:
  assumes "wf_os s" and p: "Suc 0 < length p"
  shows "wf_os (remove_tree p s)"
proof -
  have "node_at (remove_tree p s) (butlast k) = Some DirN"
    if "node_at (remove_tree p s) k \<noteq> None" for k
  proof -
    from that have "\<not> prefix p k" and "node_at s k \<noteq> None"
      by (auto simp: node_at_remove_tree [OF p] split: if_splits)
    then have "\<not> prefix p (butlast k)" and "node_at s (butlast k) = Some DirN"
      using wf_osD [OF assms(1)] prefix_butlast_trans by blast+
    then show ?thesis by (simp add: node_at_remove_tree [OF p])
  qed
  then show ?thesis by (simp add: wf_os_def)
qed

lemma keeps_wf_os_RemoveAll: "keeps wf_os (os_RemoveAll name)"
  by (rule keepsI) (auto simp: os_RemoveAll_def Let_def intro!: wf_os_remove_tree)

lemma keeps_wf_os_Remove: "keeps wf_os (os_Remove name)"
  by (rule keepsI) (auto simp: os_Remove_def Let_def intro!: wf_os_remove_tree)

lemma wf_os_move_tree:
  assumes wf: "wf_os s" and len: "Suc 0 < length p" "Suc 0 < length q"
    and par: "\<not> prefix p q" "\<not> prefix q p" and dir: "node_at s (butlast q) = Some DirN"
  shows "wf_os (move_tree p q s)"
proof -
  have "node_at (move_tree p q s) (butlast k) = Some DirN"
    if k: "node_at (move_tree p q s) k \<noteq> None" for k
  proof -
    have bq: "\<not> prefix q (butlast q)"
      using len(2) by (auto dest: prefix_length_le)
    consider "k = q" | r x where "k = q @ r @ [x]" | "\<not> prefix q k"
      by (metis append_Nil2 prefix_def rev_exhaust)
    then show ?thesis
    proof cases
      case 1
      have "\<not> prefix p (butlast q)" using par(1) prefix_butlast_trans by blast
      with 1 bq dir show ?thesis by (simp add: node_at_move_tree [OF len par])
    next
      case (2 r x)
      then have "node_at s (p @ r @ [x]) \<noteq> None"
        using k by (simp add: node_at_move_tree [OF len par])
      then have "node_at s (p @ r) = Some DirN"
        using wf_osD [OF wf, of "p @ r @ [x]"] by (simp add: butlast_append)
      with 2 show ?thesis by (simp add: node_at_move_tree [OF len par] butlast_append)
    next
      case 3
      then have "\<not> prefix p k" "node_at s k \<noteq> None"
        using k by (auto simp: node_at_move_tree [OF len par] split: if_splits)
      then have "\<not> prefix q (butlast k)" "\<not> prefix p (butlast k)" "node_at s (butlast k) = Some DirN"
        using 3 wf_osD [OF wf] prefix_butlast_trans by blast+
      then show ?thesis by (simp add: node_at_move_tree [OF len par])
    qed
  qed
  then show ?thesis by (simp add: wf_os_def)
qed

text \<open>In a well-formed tree the target of a rename that succeeds is not above its source.\<close>

lemma os_Rename_parallel:
  assumes "wf_os s" and "node_at s p \<noteq> None" and "node_at s q \<noteq> Some DirN" and "p \<noteq> q"
  shows "\<not> prefix q p"
  using wf_os_below [OF assms(1), of q p] assms(2-) by blast

lemma os_Rename_target_length: "node_at s q \<noteq> Some DirN \<Longrightarrow> Suc 0 < length q"
  by (cases "length q \<le> 1") auto

lemma os_Rename_node_at:
  assumes "os_Rename old new s = (Ret u, t)" and "wf_os s" and "path_of old \<noteq> path_of new"
  shows "node_at t k =
     (if prefix (path_of new) k then node_at s (path_of old @ drop (length (path_of new)) k)
      else if prefix (path_of old) k then None else node_at s k)"
  using assms(1)
proof (cases rule: os_Rename_RetE)
  case 2
  then have "\<not> prefix (path_of new) (path_of old)"
    using os_Rename_parallel [OF assms(2)] by blast
  with 2 show ?thesis by (simp add: node_at_move_tree os_Rename_target_length)
qed (use assms(3) in simp)

lemma keeps_wf_os_Rename: "keeps wf_os (os_Rename old new)"
proof (rule keepsI)
  fix s :: "'a os_state_scheme" assume wf: "wf_os s"
  show "wf_os (snd (os_Rename old new s))"
  proof (cases "fst (os_Rename old new s)")
    case (Ret u)
    then have "os_Rename old new s = (Ret u, snd (os_Rename old new s))"
      by (metis prod.collapse)
    then show ?thesis
    proof (cases rule: os_Rename_RetE)
      case 2
      have "\<not> prefix (path_of new) (path_of old)"
        using os_Rename_parallel [OF wf 2(5,6) 2(2)] .
      with 2 show ?thesis
        by (simp only: 2(1)) (rule wf_os_move_tree, simp_all add: wf os_Rename_target_length)
    qed (use wf in simp)
  qed (use wf in \<open>auto simp: os_Rename_def Let_def split: if_splits\<close>)
qed

lemma keeps_wf_os_reads:
  "keeps P (os_Stat name)" "keeps P (os_Open name)" "keeps P (os_ReadFile name)"
  "keeps P (os_ReadDir name)"
  by (simp_all add: os_Stat_def os_Open_def os_ReadFile_def os_ReadDir_def keeps_rules)

lemmas keeps_wf_os = keeps_rules keeps_wf_os_reads keeps_wf_os_write keeps_wf_os_MkdirAll
  keeps_wf_os_RemoveAll keeps_wf_os_Remove keeps_wf_os_Rename

lemma wf_os_prefix:
  assumes "wf_os s" and "node_at s p = Some DirN" and "prefix k p"
  shows "node_at s k = Some DirN"
proof -
  from assms(3) obtain r where "p = k @ r" by (auto elim: prefixE)
  then show ?thesis using wf_os_ancestor [OF assms(1), of k r] assms(2) by (cases "r = []") auto
qed

lemma os_MkdirAll_child:
  assumes "wf_os s" and "faults s = []" and "node_at s (butlast (path_of name)) = Some DirN"
    and "node_at s (path_of name) = None \<or> node_at s (path_of name) = Some DirN"
  shows "os_MkdirAll name s = (Ret (), make_dirs (path_of name) s)"
proof (rule os_MkdirAll_ok [OF assms(2)])
  fix q assume q: "prefix q (path_of name)"
  show "node_at s q = None \<or> node_at s q = Some DirN"
  proof (cases "q = path_of name")
    case False
    then have "prefix q (butlast (path_of name))"
      using q by (metis append_butlast_last_id path_of_nonempty prefix_snoc)
    with wf_os_prefix [OF assms(1,3)] show ?thesis by blast
  qed (use assms(4) in simp)
qed

section \<open>Paths an action leaves alone\<close>

text \<open>\<open>sits q x s\<close>: the tree is well-formed and the node at \<open>q\<close> is \<open>x\<close>. Every call
  that works elsewhere keeps it, whatever it returns.\<close>

definition sits :: "path \<Rightarrow> node option \<Rightarrow> 'x os_state_scheme \<Rightarrow> bool" where
  "sits q x s \<longleftrightarrow> wf_os s \<and> node_at s q = x"

lemma keeps_sitsI:
  assumes "keeps wf_os m" and "\<And>s. wf_os s \<Longrightarrow> node_at (snd (m s)) q = node_at s q"
  shows "keeps (sits q x) m"
  using assms by (simp add: keeps_def sits_def)

lemma keeps_sits_write: "q \<noteq> path_of name \<Longrightarrow> keeps (sits q x) (os_write keep name b)"
  by (rule keeps_sitsI [OF keeps_wf_os_write]) (metis os_write_other prod.collapse)

lemma keeps_sits_MkdirAll: "\<not> prefix q (path_of name) \<Longrightarrow> keeps (sits q x) (os_MkdirAll name)"
  by (rule keeps_sitsI [OF keeps_wf_os_MkdirAll]) (simp add: os_MkdirAll_def Let_def node_at_make_dirs)

lemma keeps_sits_RemoveAll: "\<not> prefix (path_of name) q \<Longrightarrow> keeps (sits q x) (os_RemoveAll name)"
  by (rule keeps_sitsI [OF keeps_wf_os_RemoveAll]) (simp add: os_RemoveAll_def Let_def node_at_remove_tree)

lemma keeps_sits_Remove: "\<not> prefix (path_of name) q \<Longrightarrow> keeps (sits q x) (os_Remove name)"
  by (rule keeps_sitsI [OF keeps_wf_os_Remove]) (simp add: os_Remove_def Let_def node_at_remove_tree)

lemma os_Rename_fst: "fst (os_Rename old new s) = Ret () \<or> (\<exists>e. fst (os_Rename old new s) = Err e)"
  by (simp add: os_Rename_def Let_def)

lemma keeps_sits_Rename:
  assumes "\<not> prefix (path_of old) q" and "\<not> prefix (path_of new) q"
  shows "keeps (sits q x) (os_Rename old new)"
proof (rule keeps_sitsI [OF keeps_wf_os_Rename])
  fix s :: "'a os_state_scheme" assume wf: "wf_os s"
  obtain r t where run: "os_Rename old new s = (r, t)" by fastforce
  consider u where "r = Ret u" | e where "r = Err e" using os_Rename_fst [of old new s] run by auto
  then have "node_at t q = node_at s q"
  proof cases
    case 1
    have "t = pop_fault s" if "path_of old = path_of new"
      using run 1 that by (auto simp: os_Rename_def Let_def split: if_splits)
    then show ?thesis
      using os_Rename_node_at [of old new s u t q] run 1 wf assms
      by (cases "path_of old = path_of new") simp_all
  next
    case 2
    then show ?thesis using os_Rename_Err [of old new s e t] run by simp
  qed
  then show "node_at (snd (os_Rename old new s)) q = node_at s q" by (simp add: run)
qed

lemma sitsD: "keeps (sits q (node_at s q)) m \<Longrightarrow> wf_os s \<Longrightarrow> m s = (r, t) \<Longrightarrow> node_at t q = node_at s q"
  by (metis keepsD sits_def)

lemmas keeps_sits = keeps_rules keeps_wf_os_reads keeps_sits_write keeps_sits_MkdirAll
  keeps_sits_RemoveAll keeps_sits_Remove keeps_sits_Rename

end
