(* ===== verification/Image_Format.thy ===== *)
theory Image_Format
  imports Crc32c Go_Os_Laws
begin

text \<open>
  \<open>pkg/image/format.go\<close> and \<open>pkg/image/flags.go\<close>: the manifest of an image, a
  20-byte header followed by one entry per device allocation, in version 1 (32 bytes per
  entry) or version 2 (64 bytes, with the content hash). The 32-byte content hash is
  modelled as a 256-bit word, stored most significant byte first.
\<close>

section \<open>flags.go\<close>

definition VersionV1 :: u16 where "VersionV1 = 1"
definition VersionV2 :: u16 where "VersionV2 = 2"

definition FlagNone :: u16 where "FlagNone = 0"
definition FlagCompressed :: u16 where "FlagCompressed = 1"
definition FlagSparse :: u16 where "FlagSparse = 2"
definition FlagDedup :: u16 where "FlagDedup = 4"
definition FlagDelta :: u16 where "FlagDelta = 8"

definition HasFlag :: "u16 \<Rightarrow> u16 \<Rightarrow> bool" where
  "HasFlag flags b \<longleftrightarrow> flags AND b \<noteq> 0"

lemmas flag_defs = FlagNone_def FlagCompressed_def FlagSparse_def FlagDedup_def FlagDelta_def

section \<open>format.go\<close>

definition Magic :: u32 where "Magic = 0x434B5054"

record Header =
  h_Magic :: u32
  h_Version :: u16
  h_Flags :: u16
  h_Count :: u32
  h_TotalBytes :: u64

record Entry =
  e_Ptr :: u64
  e_Size :: u64
  e_Offset :: u64
  e_CRC32C :: u32
  e_Seq :: u32
  e_ContentHash :: hash32

definition entryV1Size :: nat where "entryV1Size = 40"
definition entryV2Size :: nat where "entryV2Size = 72"

definition EntrySize :: "u16 \<Rightarrow> nat" where
  "EntrySize version = (if VersionV2 \<le> version then entryV2Size else entryV1Size)"

definition headerSize :: nat where "headerSize = 20"

definition putHeader :: "Header \<Rightarrow> bytes" where
  "putHeader h = le_put 4 (h_Magic h) @ le_put 2 (h_Version h) @ le_put 2 (h_Flags h)
     @ le_put 4 (h_Count h) @ le_put 8 (h_TotalBytes h)"

definition getHeader :: "bytes \<Rightarrow> Header" where
  "getHeader b = \<lparr>h_Magic = le_get (chunk b 0 4), h_Version = le_get (chunk b 4 2),
     h_Flags = le_get (chunk b 6 2), h_Count = le_get (chunk b 8 4),
     h_TotalBytes = le_get (chunk b 12 8)\<rparr>"

definition writeEntry :: "Entry \<Rightarrow> u16 \<Rightarrow> bytes" where
  "writeEntry e version =
     le_put 8 (e_Ptr e) @ le_put 8 (e_Size e) @ le_put 8 (e_Offset e)
     @ le_put 4 (e_CRC32C e) @ le_put 4 (e_Seq e)
     @ (if VersionV2 \<le> version then be_put 32 (e_ContentHash e) else [])"

definition readEntry :: "u16 \<Rightarrow> Entry decoder" where
  "readEntry version =
     bindD (dec_le 8) (\<lambda>ptr. bindD (dec_le 8) (\<lambda>sz. bindD (dec_le 8) (\<lambda>off.
     bindD (dec_le 4) (\<lambda>crc. bindD (dec_le 4) (\<lambda>seq.
     bindD (if VersionV2 \<le> version then dec_be 32 else retD 0) (\<lambda>hash.
       retD \<lparr>e_Ptr = ptr, e_Size = sz, e_Offset = off, e_CRC32C = crc, e_Seq = seq,
         e_ContentHash = hash\<rparr>))))))"

text \<open>The running total is a \<open>uint64\<close>: it wraps.\<close>

definition totalBytes :: "Entry list \<Rightarrow> u64" where
  "totalBytes entries = foldl (\<lambda>total e. total + e_Size e) 0 entries"

definition manifestHeader :: "Entry list \<Rightarrow> u16 \<Rightarrow> u16 \<Rightarrow> Header" where
  "manifestHeader entries flags version =
     \<lparr>h_Magic = Magic, h_Version = version, h_Flags = flags,
      h_Count = word_of_nat (length entries), h_TotalBytes = totalBytes entries\<rparr>"

definition manifestBytes :: "Entry list \<Rightarrow> u16 \<Rightarrow> u16 \<Rightarrow> bytes" where
  "manifestBytes entries flags version =
     putHeader (manifestHeader entries flags version)
     @ concat (map (\<lambda>e. writeEntry e version) entries)"

definition WriteManifestFlags ::
  "string \<Rightarrow> Entry list \<Rightarrow> u16 \<Rightarrow> u16 \<Rightarrow> ('x os_state_scheme, unit) act" where
  "WriteManifestFlags path entries flags version =
     os_WriteFile path (manifestBytes entries flags version)"

definition WriteManifest :: "string \<Rightarrow> Entry list \<Rightarrow> ('x os_state_scheme, unit) act" where
  "WriteManifest path entries = WriteManifestFlags path entries FlagNone VersionV2"

definition parseHeader :: "Header decoder" where
  "parseHeader bs =
     (case dec_struct headerSize getHeader bs of
        Inl e \<Rightarrow> Inl e
      | Inr (h, r) \<Rightarrow> if h_Magic h \<noteq> Magic then Inl ErrInvalid else Inr (h, r))"

definition parseManifest :: "bytes \<Rightarrow> goerr + Entry list \<times> Header" where
  "parseManifest bs =
     (case parseHeader bs of
        Inl e \<Rightarrow> Inl e
      | Inr (h, r) \<Rightarrow>
          (case dec_list (readEntry (h_Version h)) (unat (h_Count h)) r of
             Inl e \<Rightarrow> Inl e
           | Inr (entries, _) \<Rightarrow> Inr (entries, h)))"

definition ReadManifest :: "string \<Rightarrow> ('x os_state_scheme, Entry list \<times> Header) act" where
  "ReadManifest path = bindA (os_ReadFile path) (\<lambda>b. liftA (outcome_of (parseManifest b)))"

text \<open>\<open>make([]byte, n)\<close>: a negative length, or one beyond the address space of a
  64-bit Linux process, panics.\<close>

definition makeslice_ok :: "int \<Rightarrow> bool" where
  "makeslice_ok n \<longleftrightarrow> 0 \<le> n \<and> n \<le> 2 ^ 48"

definition makeslice_panic :: string where
  "makeslice_panic = ''makeslice: len out of range''"

definition VerifyChunk :: "string \<Rightarrow> node \<Rightarrow> int \<Rightarrow> int \<Rightarrow> u32 \<Rightarrow> bool outcome" where
  "VerifyChunk name r off sz want =
     (if \<not> makeslice_ok sz then Panic makeslice_panic
      else bindO (file_ReadAt name r off (nat sz)) (\<lambda>buf. Ret (CRC32C buf = want)))"

section \<open>Header and entry codecs\<close>

lemma length_putHeader [simp]: "length (putHeader h) = headerSize"
  by (simp add: putHeader_def headerSize_def)

lemma getHeader_putHeader [simp]: "getHeader (putHeader h) = h"
  by (cases h) (simp add: getHeader_def putHeader_def chunk_def le_get_put_full)

interpretation header: codec headerSize putHeader "dec_struct headerSize getHeader" "\<lambda>h. h"
  by (rule codec_struct) simp_all

definition entryWidth :: "u16 \<Rightarrow> nat" where
  "entryWidth version = (if VersionV2 \<le> version then 64 else 32)"

definition entryNorm :: "u16 \<Rightarrow> Entry \<Rightarrow> Entry" where
  "entryNorm version e = (if VersionV2 \<le> version then e else e\<lparr>e_ContentHash := 0\<rparr>)"

lemma entryNorm_v2: "VersionV2 \<le> version \<Longrightarrow> entryNorm version = (\<lambda>e. e)"
  by (rule ext) (simp add: entryNorm_def)

lemma length_writeEntry: "length (writeEntry e version) = entryWidth version"
  by (simp add: writeEntry_def entryWidth_def)

lemma readEntry_writeEntry:
  "readEntry version (writeEntry e version @ r) = Inr (entryNorm version e, r)"
  by (cases e)
    (simp add: readEntry_def writeEntry_def entryNorm_def le64.dec_enc le32.dec_enc be256.dec_enc)

lemma reads_readEntry: "reads (entryWidth version) (readEntry version)"
proof -
  have "reads (8 + (8 + (8 + (4 + (4 + ((if VersionV2 \<le> version then 32 else 0) + 0))))))
      (readEntry version)"
    unfolding readEntry_def
    by (intro reads_bindD reads_struct reads_retD) (simp add: reads_struct reads_retD)
  then show ?thesis by (simp add: entryWidth_def split: if_splits)
qed

interpretation entry: codec "entryWidth v" "\<lambda>e. writeEntry e v" "readEntry v" "entryNorm v" for v
  by (rule codecI) (rule length_writeEntry, rule readEntry_writeEntry, rule reads_readEntry)

section \<open>Manifests\<close>

lemma parseHeader_putHeader:
  "h_Magic h = Magic \<Longrightarrow> parseHeader (putHeader h @ r) = Inr (h, r)"
  using header.dec_enc [of h r] by (simp add: parseHeader_def)

lemma parseHeader_magic: "parseHeader bs = Inr (h, r) \<Longrightarrow> h_Magic h = Magic"
  by (auto simp: parseHeader_def split: sum.splits if_splits)

lemma parseHeader_length: "parseHeader bs = Inr (h, r) \<Longrightarrow> length bs = headerSize + length r"
  by (auto simp: parseHeader_def dec_struct_def read_full_Inr_iff elim!: bindD_InrE
      split: sum.splits if_splits)

lemma parseHeader_short: "length bs < headerSize \<Longrightarrow> is_short (parseHeader bs)"
  using header.dec_short [of bs] by (auto simp: parseHeader_def is_short_def)

lemma manifestHeader_simps [simp]:
  "h_Magic (manifestHeader es f v) = Magic" "h_Version (manifestHeader es f v) = v"
  "h_Flags (manifestHeader es f v) = f"
  by (simp_all add: manifestHeader_def)

lemma manifestHeader_count:
  "length es < 2 ^ 32 \<Longrightarrow> unat (h_Count (manifestHeader es f v)) = length es"
  by (simp add: manifestHeader_def unat_of_nat)

lemma length_manifestBytes:
  "length (manifestBytes es f v) = headerSize + entryWidth v * length es"
  by (simp add: manifestBytes_def entry.length_encs)

lemma parseManifest_manifestBytes:
  assumes "length es < 2 ^ 32"
  shows "parseManifest (manifestBytes es f v @ r) = Inr (map (entryNorm v) es, manifestHeader es f v)"
proof -
  have "parseHeader (manifestBytes es f v @ r) =
      Inr (manifestHeader es f v, concat (map (\<lambda>e. writeEntry e v) es) @ r)"
    by (simp add: manifestBytes_def parseHeader_putHeader)
  then show ?thesis
    using manifestHeader_count [OF assms, of f v] entry.dec_list_encs [of v es r]
    by (simp add: parseManifest_def)
qed

lemma parseManifest_truncated:
  assumes "length es < 2 ^ 32" and "n < length (manifestBytes es f v)"
  shows "is_short (parseManifest (take n (manifestBytes es f v)))"
proof (cases "n < headerSize")
  case True
  then have "is_short (parseHeader (take n (manifestBytes es f v)))"
    by (intro parseHeader_short) simp
  then show ?thesis by (auto simp: parseManifest_def is_short_def)
next
  case False
  let ?b = "take (n - headerSize) (concat (map (\<lambda>e. writeEntry e v) es))"
  have "parseHeader (take n (manifestBytes es f v)) = Inr (manifestHeader es f v, ?b)"
    using False by (simp add: manifestBytes_def parseHeader_putHeader)
  moreover have "length ?b < entryWidth v * length es"
    using assms(2) False by (simp add: length_manifestBytes entry.length_encs)
  then have "is_short (dec_list (readEntry v) (length es) ?b)" by (rule entry.dec_list_short)
  ultimately show ?thesis
    using manifestHeader_count [OF assms(1), of f v] by (auto simp: parseManifest_def is_short_def)
qed

lemma parseManifest_Inr:
  assumes "parseManifest bs = Inr (es, h)"
  shows "h_Magic h = Magic" and "length es = unat (h_Count h)" and "length es < 2 ^ 32"
    and "headerSize + entryWidth (h_Version h) * length es \<le> length bs"
proof -
  from assms obtain r r' where hd: "parseHeader bs = Inr (h, r)"
    and es: "dec_list (readEntry (h_Version h)) (unat (h_Count h)) r = Inr (es, r')"
    by (auto simp: parseManifest_def split: sum.splits)
  show "h_Magic h = Magic" using hd by (rule parseHeader_magic)
  show len: "length es = unat (h_Count h)" using entry.dec_list_length(1) [OF es] .
  have "unat (h_Count h) < 2 ^ LENGTH(32)" by (rule unsigned_less)
  with len show "length es < 2 ^ 32" by simp
  show "headerSize + entryWidth (h_Version h) * length es \<le> length bs"
    using parseHeader_length [OF hd] entry.dec_list_length(2) [OF es] len by simp
qed

text \<open>Reading a manifest and writing it back under other flags keeps its entries.\<close>

lemma readEntry_norm:
  "readEntry v bs = Inr (e, r) \<Longrightarrow> entryNorm v e = e"
  by (auto simp: readEntry_def entryNorm_def elim!: bindD_InrE split: if_splits)

lemma dec_list_entry_norm:
  "dec_list (readEntry v) n bs = Inr (es, r) \<Longrightarrow> map (entryNorm v) es = es"
proof (induction n arbitrary: bs es)
  case (Suc n)
  from Suc.prems obtain e es' r' where e: "readEntry v bs = Inr (e, r')"
    and "dec_list (readEntry v) n r' = Inr (es', r)" and "es = e # es'"
    by (auto elim!: bindD_InrE)
  with Suc.IH readEntry_norm [OF e] show ?case by simp
qed simp

lemma parseManifest_norm:
  assumes "parseManifest bs = Inr (es, h)"
  shows "map (entryNorm (h_Version h)) es = es"
  using assms by (auto simp: parseManifest_def dest: dec_list_entry_norm split: sum.splits)

lemma parseManifest_rewrite:
  assumes "parseManifest bs = Inr (es, h)"
  shows "parseManifest (manifestBytes es f (h_Version h)) = Inr (es, manifestHeader es f (h_Version h))"
  using parseManifest_manifestBytes [OF parseManifest_Inr(3) [OF assms], of f "h_Version h" "[]"]
    parseManifest_norm [OF assms] by simp

lemma ReadManifest_Ret_iff:
  "ReadManifest path s = (Ret (es, h), t) \<longleftrightarrow> t = s \<and>
     (\<exists>b. node_at s (path_of path) = Some (FileN b) \<and> parseManifest b = Inr (es, h))"
proof
  assume "ReadManifest path s = (Ret (es, h), t)"
  then obtain b s' where "os_ReadFile path s = (Ret b, s')"
    and "liftA (outcome_of (parseManifest b)) s' = (Ret (es, h), t)"
    unfolding ReadManifest_def by (rule bindA_RetE)
  then show "t = s \<and> (\<exists>b. node_at s (path_of path) = Some (FileN b) \<and> parseManifest b = Inr (es, h))"
    by (auto simp: os_ReadFile_Ret_iff)
next
  assume "t = s \<and> (\<exists>b. node_at s (path_of path) = Some (FileN b) \<and> parseManifest b = Inr (es, h))"
  then show "ReadManifest path s = (Ret (es, h), t)"
    by (auto simp: ReadManifest_def bindA_step os_ReadFile_file)
qed

lemma ReadManifest_pure: "snd (ReadManifest path s) = s"
  using os_ReadFile_pure [of path s]
  by (auto simp: ReadManifest_def bindA_def split: prod.splits outcome.splits)

lemma keeps_ReadManifest: "keeps P (ReadManifest path)"
  by (simp add: keeps_def ReadManifest_pure)

lemma HasFlag_simps [simp]:
  "HasFlag (f OR FlagDelta) FlagDelta" "HasFlag (f OR FlagCompressed) FlagCompressed"
  "HasFlag (f OR FlagDelta) FlagCompressed = HasFlag f FlagCompressed"
  "HasFlag (f OR FlagCompressed) FlagDelta = HasFlag f FlagDelta"
  "\<not> HasFlag (f AND NOT FlagCompressed) FlagCompressed"
  "HasFlag (f AND NOT FlagCompressed) FlagDelta = HasFlag f FlagDelta"
proof -
  have absorb: "(f OR b) AND b = b" for b by (simp add: bit.conj_disj_distrib2 bit.disj_conj_distrib2)
  show "HasFlag (f OR FlagDelta) FlagDelta" "HasFlag (f OR FlagCompressed) FlagCompressed"
    by (simp_all only: HasFlag_def absorb) (simp_all add: flag_defs)
  have "FlagDelta AND FlagCompressed = 0" "FlagCompressed AND FlagDelta = 0" by (simp_all add: flag_defs)
  then show "HasFlag (f OR FlagDelta) FlagCompressed = HasFlag f FlagCompressed"
    "HasFlag (f OR FlagCompressed) FlagDelta = HasFlag f FlagDelta"
    by (simp_all add: HasFlag_def bit.conj_disj_distrib2)
  show "\<not> HasFlag (f AND NOT FlagCompressed) FlagCompressed" by (simp add: HasFlag_def and.assoc)
  have "NOT FlagCompressed AND FlagDelta = FlagDelta" by (simp add: flag_defs)
  then show "HasFlag (f AND NOT FlagCompressed) FlagDelta = HasFlag f FlagDelta"
    by (simp add: HasFlag_def and.assoc)
qed

end
