(* ===== verification/Image_Materialize.thy ===== *)
theory Image_Materialize
  imports Image_Format
begin

text \<open>
  \<open>pkg/image/compress.go\<close> and \<open>pkg/image/delta.go\<close>: compressed and delta images,
  and how \<open>device.bin\<close> is rebuilt from them. The zstd library is a parameter, a record of
  its two entry points. \<open>EnsureDeviceMaterialized\<close> and \<open>ApplyDelta\<close> call each other
  along the chain of parent images; the chain is read from files and need not end, so the
  recursion takes fuel and running out of it is the outcome \<open>Diverge\<close>.

  Slices keep their capacity: Go checks the upper bound of \<open>b[lo:hi]\<close> against the
  capacity of \<open>b\<close>, not its length, and \<open>os.ReadFile\<close> returns a slice whose capacity is
  one more than the file's size and at least 512. The bytes past the length are zero.
\<close>

section \<open>Definitions\<close>

record zstd =
  z_Encode :: "bytes \<Rightarrow> goerr + bytes"
  z_Decode :: "bytes \<Rightarrow> goerr + bytes"

definition deviceZst :: string where "deviceZst = ''device.zst''"

definition CompressDevice :: "zstd \<Rightarrow> string \<Rightarrow> ('x os_state_scheme, unit) act" where
  "CompressDevice z dir =
     bindA (os_ReadFile (Join dir ''device.bin'')) (\<lambda>data.
     bindA (liftA (outcome_of (z_Encode z data))) (\<lambda>compressed.
     bindA (os_WriteFile (Join dir deviceZst) compressed) (\<lambda>_.
     bindA (ReadManifest (Join dir ''manifest.bin'')) (\<lambda>(entries, hdr).
       WriteManifestFlags (Join dir ''manifest.bin'') entries
         (h_Flags hdr OR FlagCompressed) (h_Version hdr)))))"

definition DecompressDevice :: "zstd \<Rightarrow> string \<Rightarrow> ('x os_state_scheme, unit) act" where
  "DecompressDevice z dir =
     bindA (ReadManifest (Join dir ''manifest.bin'')) (\<lambda>(entries, hdr).
       if \<not> HasFlag (h_Flags hdr) FlagCompressed then retA ()
       else
         bindA (os_ReadFile (Join dir deviceZst)) (\<lambda>f.
         bindA (liftA (outcome_of (z_Decode z f))) (\<lambda>out.
         bindA (os_WriteFile (Join dir ''device.bin'') out) (\<lambda>_.
           WriteManifestFlags (Join dir ''manifest.bin'') entries
             (h_Flags hdr AND NOT FlagCompressed) (h_Version hdr)))))"

definition readManifestHeader :: "string \<Rightarrow> ('x os_state_scheme, Header) act" where
  "readManifestHeader path =
     bindA (os_ReadFile path) (\<lambda>b. bindA (liftA (outcome_of (parseHeader b))) (\<lambda>(h, _). retA h))"

subsection \<open>Delta files\<close>

definition deltaMagic :: u32 where "deltaMagic = 0x44454C54"

record DeltaRecord =
  d_Ptr :: u64
  d_Size :: u64
  d_DeviceOff :: u64
  d_PatchOffset :: u64

definition putDelta :: "DeltaRecord \<Rightarrow> bytes" where
  "putDelta d = le_put 8 (d_Ptr d) @ le_put 8 (d_Size d) @ le_put 8 (d_DeviceOff d)
     @ le_put 8 (d_PatchOffset d)"

definition getDelta :: "bytes \<Rightarrow> DeltaRecord" where
  "getDelta b = \<lparr>d_Ptr = le_get (chunk b 0 8), d_Size = le_get (chunk b 8 8),
     d_DeviceOff = le_get (chunk b 16 8), d_PatchOffset = le_get (chunk b 24 8)\<rparr>"

definition bounds_panic :: string where
  "bounds_panic = ''slice bounds out of range''"

text \<open>The backing array of what \<open>os.ReadFile\<close> returns.\<close>

definition readfile_backing :: "bytes \<Rightarrow> bytes" where
  "readfile_backing b = b @ replicate (max 512 (length b + 1) - length b) 0"

text \<open>\<open>b[lo:lo+n]\<close> of a slice with backing array \<open>a\<close>, indices in \<open>uint64\<close>.\<close>

definition reslice :: "bytes \<Rightarrow> u64 \<Rightarrow> u64 \<Rightarrow> bytes outcome" where
  "reslice a lo n =
     (if unat lo \<le> unat (lo + n) \<and> unat (lo + n) \<le> length a
      then Ret (chunk a (unat lo) (unat (lo + n) - unat lo)) else Panic bounds_panic)"

definition unchanged :: "(u64 \<Rightarrow> Entry option) \<Rightarrow> Entry \<Rightarrow> bool" where
  "unchanged parentByPtr e =
     (case parentByPtr (e_Ptr e) of
        None \<Rightarrow> False
      | Some pe \<Rightarrow> e_Size pe = e_Size e \<and> e_CRC32C pe = e_CRC32C e)"

fun deltaLoop :: "(u64 \<Rightarrow> Entry option) \<Rightarrow> bytes \<Rightarrow> Entry list \<Rightarrow> DeltaRecord list \<Rightarrow> bytes
    \<Rightarrow> (DeltaRecord list \<times> bytes) outcome" where
  "deltaLoop parentByPtr curDev [] delta patch = Ret (delta, patch)"
| "deltaLoop parentByPtr curDev (e # es) delta patch =
     (if unchanged parentByPtr e then deltaLoop parentByPtr curDev es delta patch
      else bindO (reslice curDev (e_Offset e) (e_Size e)) (\<lambda>b.
        deltaLoop parentByPtr curDev es
          (delta @ [\<lparr>d_Ptr = e_Ptr e, d_Size = e_Size e, d_DeviceOff = e_Offset e,
                     d_PatchOffset = word_of_nat (length patch)\<rparr>])
          (patch @ b)))"

text \<open>Later entries of the parent's manifest replace earlier ones with the same pointer.\<close>

definition byPtr :: "Entry list \<Rightarrow> u64 \<Rightarrow> Entry option" where
  "byPtr es = map_of (rev (map (\<lambda>e. (e_Ptr e, e)) es))"

definition deltaBytes :: "string \<Rightarrow> DeltaRecord list \<Rightarrow> bytes" where
  "deltaBytes parentDir delta =
     le_put 4 deltaMagic @ le_put 4 (word_of_nat (length delta) :: u32)
     @ le_put 4 (word_of_nat (length parentDir) :: u32) @ bytes_of parentDir
     @ concat (map putDelta delta)"

text \<open>\<open>f.Read(buf)\<close> with a buffer of \<open>n\<close> zero bytes: at least one byte or \<open>EOF\<close>.\<close>

definition read_some :: "nat \<Rightarrow> bytes decoder" where
  "read_some n bs =
     (if n = 0 then Inr ([], bs) else if bs = [] then Inl EOF
      else Inr (take n bs @ replicate (n - length bs) 0, drop n bs))"

definition parseDelta :: "(u32 \<times> string) decoder" where
  "parseDelta =
     bindD (dec_le 4) (\<lambda>magic.
       if magic \<noteq> deltaMagic then (\<lambda>_. Inl ErrInvalid)
       else bindD (dec_le 4) (\<lambda>count. bindD (dec_le 4) (\<lambda>plen :: u32.
         bindD (read_some (unat plen)) (\<lambda>parent. retD (count, string_of parent)))))"

definition deltaTotal :: "Entry list \<Rightarrow> u64" where
  "deltaTotal entries =
     foldl (\<lambda>tot e. let end' = e_Offset e + e_Size e in if tot < end' then end' else tot) 0 entries"

text \<open>The base device grown or cut to \<open>total\<close> bytes: its backing array and its length.\<close>

definition deltaBase :: "bytes \<Rightarrow> u64 \<Rightarrow> (bytes \<times> nat) outcome" where
  "deltaBase base tot =
     (if length base < unat tot then
        (if \<not> makeslice_ok (uint tot) then Panic makeslice_panic
         else Ret (base @ replicate (unat tot - length base) 0, unat tot))
      else Ret (readfile_backing base, unat tot))"

fun patchLoop :: "nat \<Rightarrow> bytes \<Rightarrow> bytes \<Rightarrow> bytes \<Rightarrow> bytes outcome" where
  "patchLoop 0 f patch base = Ret base"
| "patchLoop (Suc n) f patch base =
     (case dec_struct 32 getDelta f of
        Inl e \<Rightarrow> Err e
      | Inr (rec, f') \<Rightarrow>
          bindO (reslice base (d_DeviceOff rec) (d_Size rec)) (\<lambda>_.
          bindO (reslice patch (d_PatchOffset rec) (d_Size rec)) (\<lambda>src.
            patchLoop n f' patch (overwrite base (unat (d_DeviceOff rec)) src))))"

definition ApplyDelta_with ::
  "(string \<Rightarrow> ('x os_state_scheme, unit) act) \<Rightarrow> string \<Rightarrow> ('x os_state_scheme, unit) act" where
  "ApplyDelta_with ensure dir =
     (let path = Join dir ''delta.bin'' in
      bindA (tryA (os_Open path)) (\<lambda>f. case f of
        Inl err \<Rightarrow> if IsNotExist err then retA () else errA err
      | Inr n \<Rightarrow>
          bindA (liftA (file_bytes path n)) (\<lambda>b.
          bindA (liftA (outcome_of (parseDelta b))) (\<lambda>((count, parentDir), f').
          bindA (ensure parentDir) (\<lambda>_.
          bindA (os_ReadFile (Join parentDir ''device.bin'')) (\<lambda>base.
          bindA (ReadManifest (Join dir ''manifest.bin'')) (\<lambda>(entries, _).
          bindA (liftA (deltaBase base (deltaTotal entries))) (\<lambda>(buf, len).
          bindA (os_ReadFile (Join dir ''device.patch'')) (\<lambda>patch.
          bindA (liftA (patchLoop (unat count) f' (readfile_backing patch) buf)) (\<lambda>buf'.
            os_WriteFile (Join dir ''device.bin'') (take len buf')))))))))))"

primrec EnsureDeviceMaterialized ::
  "nat \<Rightarrow> zstd \<Rightarrow> string \<Rightarrow> ('x os_state_scheme, unit) act" where
  "EnsureDeviceMaterialized 0 z dir = liftA Diverge"
| "EnsureDeviceMaterialized (Suc n) z dir =
     bindA (readManifestHeader (Join dir ''manifest.bin'')) (\<lambda>hdr.
     bindA (if HasFlag (h_Flags hdr) FlagDelta
            then ApplyDelta_with (\<lambda>d. EnsureDeviceMaterialized n z d) dir else retA ()) (\<lambda>_.
       if HasFlag (h_Flags hdr) FlagCompressed then DecompressDevice z dir
       else bindA (tryA (os_Stat (Join dir ''device.bin''))) (\<lambda>st. case st of
         Inl err \<Rightarrow> if IsNotExist err then errA err else retA ()
       | Inr _ \<Rightarrow> retA ())))"

definition ApplyDelta :: "nat \<Rightarrow> zstd \<Rightarrow> string \<Rightarrow> ('x os_state_scheme, unit) act" where
  "ApplyDelta n z dir = ApplyDelta_with (\<lambda>d. EnsureDeviceMaterialized n z d) dir"

definition WriteDelta :: "nat \<Rightarrow> zstd \<Rightarrow> string \<Rightarrow> string \<Rightarrow> ('x os_state_scheme, unit) act" where
  "WriteDelta n z dir parentDir =
     bindA (EnsureDeviceMaterialized n z parentDir) (\<lambda>_.
     bindA (EnsureDeviceMaterialized n z dir) (\<lambda>_.
     bindA (ReadManifest (Join dir ''manifest.bin'')) (\<lambda>(entries, hdr).
     bindA (ReadManifest (Join parentDir ''manifest.bin'')) (\<lambda>(parentEntries, _).
     bindA (os_ReadFile (Join dir ''device.bin'')) (\<lambda>curDev.
     bindA (liftA (deltaLoop (byPtr parentEntries) (readfile_backing curDev) entries [] [])) (\<lambda>(delta, patch).
       if delta = [] then retA ()
       else
         bindA (os_WriteFile (Join dir ''device.patch'') patch) (\<lambda>_.
         bindA (os_WriteFile (Join dir ''delta.bin'') (deltaBytes parentDir delta)) (\<lambda>_.
           WriteManifestFlags (Join dir ''manifest.bin'') entries
             (h_Flags hdr OR FlagDelta) (h_Version hdr)))))))))"

end
