(* ===== verification/Image_Delta_Laws.thy ===== *)
theory Image_Delta_Laws
  imports Image_Materialize
begin

text \<open>
  What the delta format preserves. First the pure part: what \<open>deltaLoop\<close> records and
  what \<open>patchLoop\<close> makes of it; then the runs of \<open>WriteDelta\<close> and
  \<open>EnsureDeviceMaterialized\<close> on images that lie in the file system; last the properties.
\<close>

section \<open>Record codec\<close>

lemma getDelta_putDelta [simp]: "getDelta (putDelta d) = d"
  by (cases d) (simp add: getDelta_def putDelta_def chunk_def le_get_put_full)

lemma length_putDelta [simp]: "length (putDelta d) = 32"
  by (simp add: putDelta_def)

interpretation delta: codec 32 putDelta "dec_struct 32 getDelta" "\<lambda>d. d"
  by (rule codec_struct) simp_all

section \<open>Slices within bounds\<close>

definition e_lo :: "Entry \<Rightarrow> nat" where "e_lo e = unat (e_Offset e)"
definition e_len :: "Entry \<Rightarrow> nat" where "e_len e = unat (e_Size e)"

definition fits :: "nat \<Rightarrow> Entry \<Rightarrow> bool" where
  "fits n e \<longleftrightarrow> e_lo e + e_len e \<le> n"

text \<open>A device whose entries lie inside it, of a size an address space can hold.\<close>

definition layout_ok :: "bytes \<Rightarrow> Entry list \<Rightarrow> bool" where
  "layout_ok dev es \<longleftrightarrow> length dev \<le> 2 ^ 48 \<and> (\<forall>e \<in> set es. fits (length dev) e)
     \<and> sum_list (map e_len es) < 2 ^ 63"

lemma unat_add_small:
  fixes a b :: u64
  shows "unat a + unat b < 2 ^ 64 \<Longrightarrow> unat (a + b) = unat a + unat b"
  by (simp add: unat_word_ariths)

lemma reslice_ok:
  assumes "unat lo + unat n \<le> length a" and "unat lo + unat n < 2 ^ 64"
  shows "reslice a lo n = Ret (chunk a (unat lo) (unat n))"
  using assms by (simp add: reslice_def unat_add_small)

lemma length_readfile_backing: "length b < length (readfile_backing b)"
  by (simp add: readfile_backing_def)

lemma chunk_readfile_backing:
  "lo + n \<le> length b \<Longrightarrow> chunk (readfile_backing b) lo n = chunk b lo n"
  by (simp add: readfile_backing_def chunk_append1)

lemma reslice_readfile:
  assumes "unat lo + unat n \<le> length b" and "length b \<le> 2 ^ 63"
  shows "reslice (readfile_backing b) lo n = Ret (chunk b (unat lo) (unat n))"
  using assms length_readfile_backing [of b] by (simp add: reslice_ok chunk_readfile_backing)

section \<open>What is recorded\<close>

fun deltaRecs :: "nat \<Rightarrow> Entry list \<Rightarrow> DeltaRecord list" where
  "deltaRecs k [] = []"
| "deltaRecs k (e # es) =
     \<lparr>d_Ptr = e_Ptr e, d_Size = e_Size e, d_DeviceOff = e_Offset e, d_PatchOffset = word_of_nat k\<rparr>
     # deltaRecs (k + e_len e) es"

definition e_chunk :: "bytes \<Rightarrow> Entry \<Rightarrow> bytes" where
  "e_chunk dev e = chunk dev (e_lo e) (e_len e)"

definition changed :: "(u64 \<Rightarrow> Entry option) \<Rightarrow> Entry list \<Rightarrow> Entry list" where
  "changed m es = filter (\<lambda>e. \<not> unchanged m e) es"

lemma length_deltaRecs [simp]: "length (deltaRecs k es) = length es"
  by (induction k es rule: deltaRecs.induct) simp_all

lemma length_e_chunk [simp]: "fits (length dev) e \<Longrightarrow> length (e_chunk dev e) = e_len e"
  by (simp add: e_chunk_def fits_def)

lemma deltaLoop_eq:
  assumes "\<forall>e \<in> set es. fits (length dev) e" and "length dev \<le> 2 ^ 48"
  shows "deltaLoop m (readfile_backing dev) es recs patch =
    Ret (recs @ deltaRecs (length patch) (changed m es),
         patch @ concat (map (e_chunk dev) (changed m es)))"
  using assms(1)
proof (induction es arbitrary: recs patch)
  case Nil
  then show ?case by (simp add: changed_def)
next
  case (Cons e es)
  show ?case
  proof (cases "unchanged m e")
    case True
    with Cons show ?thesis by (simp add: changed_def)
  next
    case False
    have "reslice (readfile_backing dev) (e_Offset e) (e_Size e) = Ret (e_chunk dev e)"
      using Cons.prems assms(2) by (simp add: reslice_readfile e_chunk_def fits_def e_lo_def e_len_def)
    with False Cons show ?thesis by (simp add: changed_def)
  qed
qed

section \<open>What applying the records does\<close>

fun applyRecs :: "DeltaRecord list \<Rightarrow> bytes \<Rightarrow> bytes \<Rightarrow> bytes outcome" where
  "applyRecs [] patch base = Ret base"
| "applyRecs (r # rs) patch base =
     bindO (reslice base (d_DeviceOff r) (d_Size r)) (\<lambda>_.
     bindO (reslice patch (d_PatchOffset r) (d_Size r)) (\<lambda>src.
       applyRecs rs patch (overwrite base (unat (d_DeviceOff r)) src)))"

lemma patchLoop_recs:
  "patchLoop (length rs) (concat (map putDelta rs) @ f) patch base = applyRecs rs patch base"
proof (induction rs arbitrary: base)
  case (Cons r rs)
  have "dec_struct 32 getDelta (putDelta r @ concat (map putDelta rs) @ f) =
      Inr (r, concat (map putDelta rs) @ f)"
    by (rule delta.dec_enc)
  with Cons show ?case by (simp add: bindO_def split: outcome.splits)
qed simp

definition covered :: "Entry list \<Rightarrow> nat \<Rightarrow> bool" where
  "covered es i \<longleftrightarrow> (\<exists>e \<in> set es. e_lo e \<le> i \<and> i < e_lo e + e_len e)"

text \<open>Every byte inside a recorded entry becomes the byte of the device it was taken from;
  every other byte of the base stays.\<close>

lemma applyRecs_deltaRecs:
  assumes "\<forall>e \<in> set es. fits (length dev) e" and "\<forall>e \<in> set es. fits (length base) e"
    and "length base \<le> 2 ^ 63" and "length patch < 2 ^ 63"
    and "drop k patch = concat (map (e_chunk dev) es)" and "k \<le> length patch"
  shows "\<exists>base'. applyRecs (deltaRecs k es) (readfile_backing patch) base = Ret base' \<and>
    length base' = length base \<and>
    (\<forall>i < length base. base' ! i = (if covered es i then dev ! i else base ! i))"
  using assms
proof (induction es arbitrary: k base)
  case Nil
  then show ?case by (simp add: covered_def)
next
  case (Cons e es)
  let ?c = "e_chunk dev e"
  have lenc: "length ?c = e_len e" using Cons.prems(1) by simp
  have patch: "drop k patch = ?c @ concat (map (e_chunk dev) es)" using Cons.prems(5) by simp
  then have room: "k + e_len e \<le> length patch"
    using lenc Cons.prems(6) by (metis add_le_cancel_left append_take_drop_id length_append
        length_take le_add1 min.absorb2)
  have k: "unat (word_of_nat k :: u64) = k"
    using Cons.prems(4,6) by (simp add: unat_of_nat)
  have src: "reslice (readfile_backing patch) (word_of_nat k) (e_Size e) = Ret ?c"
  proof -
    have "chunk patch k (e_len e) = ?c" using patch lenc by (simp add: chunk_def)
    then show ?thesis
      using reslice_readfile [of "word_of_nat k" "e_Size e" patch] k room Cons.prems(4)
      by (simp add: e_len_def)
  qed
  have fit: "e_lo e + e_len e \<le> length base" using Cons.prems(2) by (simp add: fits_def)
  have dst: "reslice base (e_Offset e) (e_Size e) = Ret (chunk base (e_lo e) (e_len e))"
    using fit Cons.prems(3) by (simp add: reslice_ok e_lo_def e_len_def)
  let ?b = "overwrite base (e_lo e) ?c"
  have len: "length ?b = length base" using fit lenc by simp
  have "drop (k + e_len e) patch = concat (map (e_chunk dev) es)"
    using patch lenc by (metis add.commute append_eq_conv_conj drop_drop)
  then obtain base' where base': "applyRecs (deltaRecs (k + e_len e) es) (readfile_backing patch) ?b = Ret base'"
    and "length base' = length base"
    and at: "\<forall>i < length base. base' ! i = (if covered es i then dev ! i else ?b ! i)"
    using Cons.IH [of ?b "k + e_len e"] Cons.prems(1-4) room len by auto
  moreover have "?b ! i = (if e_lo e \<le> i \<and> i < e_lo e + e_len e then dev ! i else base ! i)"
    if "i < length base" for i
    using that fit lenc Cons.prems(1)
    by (auto simp: nth_overwrite e_chunk_def nth_chunk fits_def)
  ultimately show ?case
    using src dst by (auto simp: e_lo_def [symmetric] covered_def)
qed

section \<open>Delta files\<close>

lemma read_some_full: "length b = n \<Longrightarrow> 0 < n \<Longrightarrow> read_some n (b @ r) = Inr (b, r)"
  by (auto simp: read_some_def)

lemma parseDelta_deltaBytes:
  assumes "length par < 2 ^ 32" and "par \<noteq> []"
  shows "parseDelta (deltaBytes par recs) =
    Inr ((word_of_nat (length recs), par), concat (map putDelta recs))"
proof -
  have "unat (word_of_nat (length par) :: u32) = length par"
    using assms(1) by (simp add: unat_of_nat)
  then show ?thesis
    using assms(2) read_some_full [of "bytes_of par" "length par" "concat (map putDelta recs)"]
    by (simp add: parseDelta_def deltaBytes_def le32.dec_enc)
qed

section \<open>The size of the rebuilt device\<close>

lemma unat_end:
  "fits n e \<Longrightarrow> n \<le> 2 ^ 48 \<Longrightarrow> unat (e_Offset e + e_Size e) = e_lo e + e_len e"
  by (simp add: fits_def e_lo_def e_len_def unat_add_small)

lemma foldl_total:
  assumes "\<forall>e \<in> set es. fits n e" and "n \<le> 2 ^ 48" and "unat acc \<le> n"
  defines "t \<equiv> foldl (\<lambda>tot e. let end' = e_Offset e + e_Size e in if tot < end' then end' else tot) acc es"
  shows "unat acc \<le> unat t \<and> unat t \<le> n \<and> (\<forall>e \<in> set es. e_lo e + e_len e \<le> unat t)"
  using assms(1,3) unfolding t_def
proof (induction es arbitrary: acc)
  case (Cons e es)
  let ?acc = "if acc < e_Offset e + e_Size e then e_Offset e + e_Size e else acc"
  have u: "unat (e_Offset e + e_Size e) = e_lo e + e_len e"
    using Cons.prems(1) assms(2) unat_end [of n e] by simp
  have acc: "unat acc \<le> unat ?acc" "e_lo e + e_len e \<le> unat ?acc" "unat ?acc \<le> n"
    using u Cons.prems by (auto simp: word_less_nat_alt fits_def)
  with Cons.IH [of ?acc] Cons.prems show ?case by (auto simp: Let_def)
qed simp

lemma deltaTotal_bounds:
  assumes "\<forall>e \<in> set es. fits n e" and "n \<le> 2 ^ 48"
  shows "unat (deltaTotal es) \<le> n" and "e \<in> set es \<Longrightarrow> fits (unat (deltaTotal es)) e"
  using foldl_total [OF assms, of 0] by (auto simp: deltaTotal_def fits_def)

text \<open>The base grown or cut: its first bytes are the parent's, up to the parent's length.\<close>

lemma deltaBase_ok:
  assumes "unat tot \<le> 2 ^ 48"
  obtains buf where "deltaBase base tot = Ret (buf, unat tot)" and "unat tot \<le> length buf"
    and "length buf \<le> 2 ^ 48 + length base + 512"
    and "length base \<le> length buf" and "\<And>i. i < length base \<Longrightarrow> buf ! i = base ! i"
proof -
  let ?buf = "if length base < unat tot then base @ replicate (unat tot - length base) 0
              else readfile_backing base"
  have "int (unat tot) \<le> int (2 ^ 48)" using assms by (simp only: of_nat_le_iff)
  then have "uint tot \<le> 2 ^ 48" by simp
  then have "deltaBase base tot = Ret (?buf, unat tot)"
    by (simp add: deltaBase_def makeslice_ok_def)
  moreover have "unat tot \<le> length ?buf" "length ?buf \<le> 2 ^ 48 + length base + 512"
      "length base \<le> length ?buf"
    using assms length_readfile_backing [of base] by (simp_all add: readfile_backing_def)
  moreover have "?buf ! i = base ! i" if "i < length base" for i
    using that by (simp add: readfile_backing_def nth_append)
  ultimately show ?thesis by (rule that)
qed

section \<open>Images in the file system\<close>

text \<open>
  \<open>image_at s dir es h dev\<close>: the directory \<open>dir\<close> holds a readable manifest with
  entries \<open>es\<close> and header \<open>h\<close>, and the device contents \<open>dev\<close>.
\<close>

definition has_manifest :: "'x os_state_scheme \<Rightarrow> string \<Rightarrow> Entry list \<Rightarrow> Header \<Rightarrow> bool" where
  "has_manifest s dir es h \<longleftrightarrow>
     (case node_at s (path_of dir @ [''manifest.bin'']) of
        Some (FileN b) \<Rightarrow> parseManifest b = Inr (es, h) | _ \<Rightarrow> False)"

definition has_file :: "'x os_state_scheme \<Rightarrow> string \<Rightarrow> string \<Rightarrow> bytes \<Rightarrow> bool" where
  "has_file s dir f b \<longleftrightarrow> node_at s (path_of dir @ [f]) = Some (FileN b)"

definition image_at :: "'x os_state_scheme \<Rightarrow> string \<Rightarrow> Entry list \<Rightarrow> Header \<Rightarrow> bytes \<Rightarrow> bool" where
  "image_at s dir es h dev \<longleftrightarrow> has_manifest s dir es h \<and> has_file s dir ''device.bin'' dev"

definition plain_flags :: "Header \<Rightarrow> bool" where
  "plain_flags h \<longleftrightarrow> \<not> HasFlag (h_Flags h) FlagDelta \<and> \<not> HasFlag (h_Flags h) FlagCompressed"

lemma plain_names [simp]:
  "plain ''manifest.bin''" "plain ''device.bin''" "plain ''device.patch''" "plain ''delta.bin''"
  "plain ''device.zst''" "plain ''sparse.bin''" "plain ''device.map''" "plain ''cas''"
  "plain ''COMPLETE''" "plain ''meta.bin''" "plain ''dev.bin''"
  by (simp_all add: plain_def)

lemma has_manifest_read:
  "has_manifest s dir es h \<Longrightarrow> ReadManifest (Join dir ''manifest.bin'') s = (Ret (es, h), s)"
  by (auto simp: has_manifest_def ReadManifest_Ret_iff split: option.splits node.splits)

lemma has_file_read:
  "has_file s dir f b \<Longrightarrow> plain f \<Longrightarrow> os_ReadFile (Join dir f) s = (Ret b, s)"
  by (simp add: has_file_def os_ReadFile_Ret_iff)

lemma parseManifest_header:
  "parseManifest b = Inr (es, h) \<Longrightarrow> \<exists>r. parseHeader b = Inr (h, r)"
  by (auto simp: parseManifest_def split: sum.splits)

lemma has_manifest_header:
  assumes "has_manifest s dir es h"
  shows "readManifestHeader (Join dir ''manifest.bin'') s = (Ret h, s)"
proof -
  from assms obtain b where "node_at s (path_of dir @ [''manifest.bin'']) = Some (FileN b)"
    and "parseManifest b = Inr (es, h)"
    by (auto simp: has_manifest_def split: option.splits node.splits)
  then show ?thesis
    using parseManifest_header [of b es h]
    by (auto simp: readManifestHeader_def bindA_step os_ReadFile_file)
qed

text \<open>An image without delta and compression flags is left as it is.\<close>

lemma Ensure_plain:
  assumes "image_at s dir es h dev" and "plain_flags h"
  shows "EnsureDeviceMaterialized (Suc n) z dir s = (Ret (), s)"
  using assms
  by (auto simp: image_at_def plain_flags_def bindA_step has_manifest_header has_file_def
      tryA_step os_Stat_Ret_iff)

section \<open>Writing a delta\<close>

lemma path_snoc_eq [simp]: "path_of a @ [f] = path_of b @ [g] \<longleftrightarrow> path_of a = path_of b \<and> f = g"
  by simp

text \<open>What the files of an image become when one file of a directory is stored.\<close>

lemma node_at_store_in:
  "node_at (store_file (path_of dir @ [f]) b s) q =
     (if q = path_of dir @ [f] then Some (FileN b) else node_at s q)"
  by (simp add: node_at_store_file)

lemma has_file_store:
  "has_file (store_file (path_of d @ [g]) c s) dir f b \<longleftrightarrow>
     (if path_of dir = path_of d \<and> f = g then b = c else has_file s dir f b)"
  by (auto simp: has_file_def node_at_store_in)

lemma has_manifest_store_other:
  "\<not> (path_of dir = path_of d \<and> g = ''manifest.bin'') \<Longrightarrow>
   has_manifest (store_file (path_of d @ [g]) c s) dir es h = has_manifest s dir es h"
  by (auto simp: has_manifest_def node_at_store_in)

lemma has_manifest_store_same:
  "path_of dir = path_of d \<Longrightarrow>
   has_manifest (store_file (path_of d @ [''manifest.bin'']) c s) dir es h \<longleftrightarrow> parseManifest c = Inr (es, h)"
  by (simp add: has_manifest_def node_at_store_in)

lemma can_write_store_in:
  "can_write s (path_of d @ [g]) \<Longrightarrow>
   can_write (store_file (path_of d @ [g]) c s) q \<longleftrightarrow> q = path_of d @ [g] \<or> can_write s q"
  by (rule can_write_store_file)

lemma has_manifest_can_write: "has_manifest s dir es h \<Longrightarrow> can_write s (path_of dir @ [''manifest.bin''])"
  by (auto simp: has_manifest_def can_write_def split: option.splits node.splits)

lemma has_file_can_write: "has_file s dir f b \<Longrightarrow> can_write s (path_of dir @ [f])"
  by (auto simp: has_file_def can_write_def)

lemmas image_store = has_file_store has_manifest_store_other has_manifest_store_same can_write_store_in

lemma has_manifest_count: "has_manifest s dir es h \<Longrightarrow> length es < 2 ^ 32"
  by (auto simp: has_manifest_def dest: parseManifest_Inr(3) split: option.splits node.splits)

lemma has_manifest_rewrite:
  "has_manifest s dir es h \<Longrightarrow>
   parseManifest (manifestBytes es f (h_Version h)) = Inr (es, manifestHeader es f (h_Version h))"
  by (auto simp: has_manifest_def dest: parseManifest_rewrite split: option.splits node.splits)

definition delta_state ::
  "string \<Rightarrow> string \<Rightarrow> Entry list \<Rightarrow> Header \<Rightarrow> Entry list \<Rightarrow> bytes \<Rightarrow> 'x os_state_scheme \<Rightarrow> 'x os_state_scheme" where
  "delta_state dir par es h ces dev s =
     store_file (path_of dir @ [''manifest.bin'']) (manifestBytes es (h_Flags h OR FlagDelta) (h_Version h))
      (store_file (path_of dir @ [''delta.bin'']) (deltaBytes par (deltaRecs 0 ces))
       (store_file (path_of dir @ [''device.patch'']) (concat (map (e_chunk dev) ces)) s))"

lemma WriteDelta_run:
  assumes img: "image_at s dir es h dev" "plain_flags h"
    and par: "image_at s par pes ph pdev" "plain_flags ph"
    and ok: "layout_ok dev es" and no_faults: "faults s = []"
    and room: "can_write s (path_of dir @ [''device.patch''])" "can_write s (path_of dir @ [''delta.bin''])"
    and ces: "ces = changed (byPtr pes) es" "ces \<noteq> []"
  shows "WriteDelta (Suc n) z dir par s = (Ret (), delta_state dir par es h ces dev s)"
proof -
  have man: "has_manifest s dir es h" "has_manifest s par pes ph" and dfile: "has_file s dir ''device.bin'' dev"
    using img(1) par(1) by (simp_all add: image_at_def)
  have loop: "deltaLoop (byPtr pes) (readfile_backing dev) es [] [] =
      Ret (deltaRecs 0 ces, concat (map (e_chunk dev) ces))"
    using deltaLoop_eq [of es dev "byPtr pes" "[]" "[]"] ok ces by (simp add: layout_ok_def)
  have ne: "deltaRecs 0 ces \<noteq> []" using ces(2) by (metis length_0_conv length_deltaRecs)
  have w: "can_write s (path_of dir @ [''manifest.bin''])" using man(1) by (rule has_manifest_can_write)
  show ?thesis
    unfolding WriteDelta_def
    using Ensure_plain [OF img] Ensure_plain [OF par] man dfile loop ne no_faults room w
    by (simp add: bindA_step has_manifest_read has_file_read WriteManifestFlags_def
        os_WriteFile_ok can_write_store_in delta_state_def)
qed

section \<open>Rebuilding a device\<close>

lemma nth_e_chunk: "fits (length d) e \<Longrightarrow> i < e_len e \<Longrightarrow> e_chunk d e ! i = d ! (e_lo e + i)"
  by (simp add: e_chunk_def nth_chunk fits_def)

lemma e_chunk_eq_iff:
  assumes "fits (length a) e" and "fits (length b) e"
  shows "e_chunk a e = e_chunk b e \<longleftrightarrow> (\<forall>i < e_len e. a ! (e_lo e + i) = b ! (e_lo e + i))"
  using assms by (auto simp: list_eq_iff_nth_eq nth_e_chunk)

text \<open>
  The files of a delta image, wherever they came from: the manifest with its flag, the
  records and the patch taken from a device \<open>dev\<close>.
\<close>

definition delta_image :: "'x os_state_scheme \<Rightarrow> string \<Rightarrow> string \<Rightarrow> Entry list \<Rightarrow> Header \<Rightarrow> Entry list \<Rightarrow> bytes \<Rightarrow> bool" where
  "delta_image s dir par es h ces dev \<longleftrightarrow>
     has_manifest s dir es h \<and> HasFlag (h_Flags h) FlagDelta \<and> \<not> HasFlag (h_Flags h) FlagCompressed \<and>
     has_file s dir ''delta.bin'' (deltaBytes par (deltaRecs 0 ces)) \<and>
     has_file s dir ''device.patch'' (concat (map (e_chunk dev) ces))"

lemma sum_list_filter_le: "sum_list (map f (filter P xs)) \<le> (sum_list (map f xs) :: nat)"
  by (induction xs) auto

lemma length_patch:
  assumes "layout_ok dev es" and "set ces \<subseteq> set es"
  shows "length (concat (map (e_chunk dev) ces)) = sum_list (map e_len ces)"
proof -
  have "map (length \<circ> e_chunk dev) ces = map e_len ces"
    using assms by (auto simp: layout_ok_def)
  then show ?thesis by (simp only: length_concat map_map)
qed

lemma Ensure_delta_run:
  assumes dimg: "delta_image s dir par es h ces dev"
    and pimg: "image_at s par pes ph pdev" "plain_flags ph"
    and ok: "layout_ok dev es" and plen: "length pdev \<le> 2 ^ 48"
    and name: "par \<noteq> []" "length par < 2 ^ 32" and no_faults: "faults s = []"
    and room: "can_write s (path_of dir @ [''device.bin''])"
    and ces: "ces = filter P es"
  shows "\<exists>dev'. EnsureDeviceMaterialized (Suc (Suc n)) z dir s =
      (Ret (), store_file (path_of dir @ [''device.bin'']) dev' s) \<and>
      (\<forall>e \<in> set es. fits (length dev') e) \<and>
      (\<forall>i < length dev'. i < length pdev \<or> covered ces i \<longrightarrow>
         dev' ! i = (if covered ces i then dev ! i else pdev ! i))"
proof -
  have fit: "\<forall>e \<in> set es. fits (length dev) e" "length dev \<le> 2 ^ 48" "set ces \<subseteq> set es"
    using ok ces by (auto simp: layout_ok_def)
  let ?tot = "deltaTotal es" and ?patch = "concat (map (e_chunk dev) ces)"
  note tot = deltaTotal_bounds [OF fit(1,2)]
  obtain buf where base: "deltaBase pdev ?tot = Ret (buf, unat ?tot)" and buf: "unat ?tot \<le> length buf"
      "length buf \<le> 2 ^ 48 + length pdev + 512" "length pdev \<le> length buf"
    and buf_nth: "\<And>i. i < length pdev \<Longrightarrow> buf ! i = pdev ! i"
    using deltaBase_ok [of ?tot pdev] tot(1) fit(2) by auto
  have plen': "length ?patch < 2 ^ 63"
    using length_patch [OF ok fit(3)] sum_list_filter_le [of e_len P es] ok ces
    by (simp add: layout_ok_def)
  have "\<forall>e \<in> set ces. fits (length buf) e"
    using tot(2) buf(1) fit(3) by (force simp: fits_def)
  then obtain buf' where run: "applyRecs (deltaRecs 0 ces) (readfile_backing ?patch) buf = Ret buf'"
    and len': "length buf' = length buf"
    and at: "\<forall>i < length buf. buf' ! i = (if covered ces i then dev ! i else buf ! i)"
    using applyRecs_deltaRecs [of ces dev buf ?patch 0] fit buf plen plen' by auto
  have "length ces \<le> length es" using ces by simp
  then have "length ces < 2 ^ 32" using dimg has_manifest_count by (fastforce simp: delta_image_def)
  then have "unat (word_of_nat (length ces) :: u32) = length ces" by (simp add: unat_of_nat)
  then have loop: "patchLoop (unat (word_of_nat (length (deltaRecs 0 ces)) :: u32))
      (concat (map putDelta (deltaRecs 0 ces))) (readfile_backing ?patch) buf = Ret buf'"
    using patchLoop_recs [of "deltaRecs 0 ces" "[]"] run by simp
  let ?dev' = "take (unat ?tot) buf'"
  let ?t = "store_file (path_of dir @ [''device.bin'']) ?dev' s"
  have files: "has_manifest s dir es h" "has_file s dir ''delta.bin'' (deltaBytes par (deltaRecs 0 ces))"
      "has_file s dir ''device.patch'' ?patch" "has_file s par ''device.bin'' pdev"
    using dimg pimg(1) by (simp_all add: delta_image_def image_at_def)
  have "os_Open (Join dir ''delta.bin'') s = (Ret (FileN (deltaBytes par (deltaRecs 0 ces))), s)"
    using files(2) by (simp add: has_file_def os_Open_def)
  then have "ApplyDelta_with (\<lambda>d. EnsureDeviceMaterialized (Suc n) z d) dir s = (Ret (), ?t)"
    unfolding ApplyDelta_with_def Let_def
    using files name no_faults room base loop Ensure_plain [OF pimg, of n z]
    by (simp add: bindA_step tryA_step parseDelta_deltaBytes
        has_file_read has_manifest_read os_WriteFile_ok del: EnsureDeviceMaterialized.simps(2))
  then have "EnsureDeviceMaterialized (Suc (Suc n)) z dir s = (Ret (), ?t)"
    using dimg has_manifest_header [of s dir es h]
    by (simp add: delta_image_def bindA_step tryA_step os_Stat_Ret_iff node_at_store_in
        EnsureDeviceMaterialized.simps(2) [of "Suc n"] del: EnsureDeviceMaterialized.simps(2))
  moreover have "fits (length ?dev') e" if "e \<in> set es" for e
    using tot(2) [OF that] buf(1) len' by simp
  moreover have "?dev' ! i = (if covered ces i then dev ! i else pdev ! i)"
    if "i < length ?dev'" "i < length pdev \<or> covered ces i" for i
    using that at buf buf_nth len' by auto
  ultimately show ?thesis by blast
qed

end
