(* ===== verification/Image_Sparse.thy ===== *)
theory Image_Sparse
  imports Image_Format
begin

text \<open>
  \<open>pkg/image/sparse.go\<close>: the index of all-zero allocations. \<open>ApplySparse\<close> scans the
  entries of at least \<open>minZeroRun\<close> bytes, writes the zero ones to \<open>sparse.bin\<close> and
  flags the manifest; \<open>ReadSparse\<close> reads the index back.
\<close>

section \<open>Definitions\<close>

definition sparseMagic :: u32 where "sparseMagic = 0x53505253"
definition minZeroRun :: u64 where "minZeroRun = 4096"

record SparseEntry =
  s_Offset :: u64
  s_Size :: u64

definition isZero :: "bytes \<Rightarrow> bool" where
  "isZero buf = list_all (\<lambda>b. b = 0) buf"

text \<open>\<open>make([]byte, e.Size)\<close> filled by \<open>f.ReadAt(buf, int64(e.Offset))\<close>.\<close>

definition readEntryData :: "string \<Rightarrow> node \<Rightarrow> Entry \<Rightarrow> bytes outcome" where
  "readEntryData name f e =
     (if \<not> makeslice_ok (uint (e_Size e)) then Panic makeslice_panic
      else file_ReadAt name f (sint (e_Offset e)) (unat (e_Size e)))"

fun sparseLoop :: "string \<Rightarrow> node \<Rightarrow> Entry list \<Rightarrow> SparseEntry list \<Rightarrow> SparseEntry list outcome" where
  "sparseLoop name f [] sparse = Ret sparse"
| "sparseLoop name f (e # es) sparse =
     (if e_Size e < minZeroRun then sparseLoop name f es sparse
      else bindO (readEntryData name f e) (\<lambda>buf.
        sparseLoop name f es
          (if isZero buf then sparse @ [\<lparr>s_Offset = e_Offset e, s_Size = e_Size e\<rparr>] else sparse)))"

definition putSparse :: "SparseEntry \<Rightarrow> bytes" where
  "putSparse r = le_put 8 (s_Offset r) @ le_put 8 (s_Size r)"

definition getSparse :: "bytes \<Rightarrow> SparseEntry" where
  "getSparse b = \<lparr>s_Offset = le_get (chunk b 0 8), s_Size = le_get (chunk b 8 8)\<rparr>"

definition sparseBytes :: "SparseEntry list \<Rightarrow> bytes" where
  "sparseBytes sparse =
     le_put 4 sparseMagic @ le_put 4 (word_of_nat (length sparse) :: u32)
     @ concat (map putSparse sparse)"

definition ApplySparse :: "string \<Rightarrow> ('x os_state_scheme, unit) act" where
  "ApplySparse dir =
     (let manifestPath = Join dir ''manifest.bin''; devicePath = Join dir ''device.bin'' in
      bindA (ReadManifest manifestPath) (\<lambda>(entries, hdr).
      bindA (os_Open devicePath) (\<lambda>f.
      bindA (liftA (sparseLoop devicePath f entries [])) (\<lambda>sparse.
        if sparse = [] then retA ()
        else
          bindA (os_WriteFile (Join dir ''sparse.bin'') (sparseBytes sparse)) (\<lambda>_.
            WriteManifestFlags manifestPath entries (h_Flags hdr OR FlagSparse) (h_Version hdr))))))"

definition parseSparse :: "bytes \<Rightarrow> goerr + SparseEntry list" where
  "parseSparse b =
     (case bindD (dec_le 4) (\<lambda>magic.
        if magic \<noteq> sparseMagic then (\<lambda>_. Inl ErrInvalid)
        else bindD (dec_le 4) (\<lambda>count :: u32. dec_list (dec_struct 16 getSparse) (unat count))) b of
        Inl e \<Rightarrow> Inl e
      | Inr (out, _) \<Rightarrow> Inr out)"

definition ReadSparse :: "string \<Rightarrow> ('x os_state_scheme, SparseEntry list) act" where
  "ReadSparse path =
     bindA (tryA (os_Open path)) (\<lambda>f. case f of
       Inl err \<Rightarrow> if IsNotExist err then retA [] else errA err
     | Inr n \<Rightarrow> bindA (liftA (file_bytes path n)) (\<lambda>b. liftA (outcome_of (parseSparse b))))"

section \<open>The index format\<close>

lemma getSparse_putSparse [simp]: "getSparse (putSparse r) = r"
  by (cases r) (simp add: getSparse_def putSparse_def chunk_def le_get_put_full)

lemma length_putSparse [simp]: "length (putSparse r) = 16"
  by (simp add: putSparse_def)

interpretation sparse: codec 16 putSparse "dec_struct 16 getSparse" "\<lambda>r. r"
  by (rule codec_struct) simp_all

lemma parseSparse_sparseBytes:
  assumes "length rs < 2 ^ 32"
  shows "parseSparse (sparseBytes rs @ r) = Inr rs"
proof -
  have "unat (word_of_nat (length rs) :: u32) = length rs" using assms by (simp add: unat_of_nat)
  then show ?thesis
    using sparse.dec_list_encs [of rs r]
    by (simp add: parseSparse_def sparseBytes_def le32.dec_enc)
qed

lemma length_sparseBytes: "length (sparseBytes rs) = 8 + 16 * length rs"
  by (simp add: sparseBytes_def sparse.length_encs)

text \<open>A cut index never reads back as a shorter one.\<close>

lemma parseSparse_truncated:
  assumes "length rs < 2 ^ 32" and "n < length (sparseBytes rs)"
  shows "is_short (parseSparse (take n (sparseBytes rs)))"
proof -
  let ?body = "\<lambda>magic :: u32. if magic \<noteq> sparseMagic then (\<lambda>_. Inl ErrInvalid)
      else bindD (dec_le 4) (\<lambda>count :: u32. dec_list (dec_struct 16 getSparse) (unat count))"
  have short: "is_short (bindD (dec_le 4) ?body (take n (sparseBytes rs)))"
  proof -
    consider "n < 4" | "4 \<le> n" "n < 8" | "8 \<le> n" by linarith
    then show ?thesis
    proof cases
      case 1
      then show ?thesis by (intro bindD_short le32.dec_short) simp
    next
      case 2
      have "take n (sparseBytes rs) = le_put 4 sparseMagic @ take (n - 4) (drop 4 (sparseBytes rs))"
        using 2 by (simp add: sparseBytes_def)
      moreover have "is_short (bindD (dec_le 4) (\<lambda>count :: u32. dec_list (dec_struct 16 getSparse) (unat count))
          (take (n - 4) (drop 4 (sparseBytes rs))))"
        using 2 by (intro bindD_short le32.dec_short) simp
      ultimately show ?thesis by (simp add: le32.dec_enc)
    next
      case 3
      have "unat (word_of_nat (length rs) :: u32) = length rs" using assms(1) by (simp add: unat_of_nat)
      moreover have "take n (sparseBytes rs) = le_put 4 sparseMagic
          @ le_put 4 (word_of_nat (length rs) :: u32) @ take (n - 8) (concat (map putSparse rs))"
        using 3 by (simp add: sparseBytes_def)
      moreover have "is_short (dec_list (dec_struct 16 getSparse) (length rs)
          (take (n - 8) (concat (map putSparse rs))))"
        using assms(2) 3 by (intro sparse.dec_list_short) (simp add: sparse.length_encs length_sparseBytes)
      ultimately show ?thesis by (simp add: le32.dec_enc)
    qed
  qed
  show ?thesis
  proof (cases "bindD (dec_le 4) ?body (take n (sparseBytes rs))")
    case (Inl e)
    then show ?thesis using short by (auto simp: parseSparse_def is_short_def)
  qed (use short in \<open>auto simp: is_short_def\<close>)
qed

section \<open>What the scan finds\<close>

text \<open>The entries the scan keeps, as a comprehension over what it read.\<close>

definition zeroEntry :: "bytes \<Rightarrow> Entry \<Rightarrow> bool" where
  "zeroEntry dev e \<longleftrightarrow> minZeroRun \<le> e_Size e \<and>
     isZero (chunk dev (unat (e_Offset e)) (unat (e_Size e)))"

definition sparseOf :: "Entry \<Rightarrow> SparseEntry" where
  "sparseOf e = \<lparr>s_Offset = e_Offset e, s_Size = e_Size e\<rparr>"

lemma sint_nonneg_unat: "0 \<le> sint (w :: u64) \<Longrightarrow> nat (sint w) = unat w"
proof -
  assume "0 \<le> sint w"
  moreover have lt: "uint w < 2 ^ 64" using uint_lt2p [of w] by simp
  moreover have "sint w = uint w - 2 ^ 64 * of_bool (bit (uint w) 63)"
    using signed_take_bit_eq_take_bit_minus [of 63 "uint w"] lt
    by (simp add: sint_uint take_bit_int_eq_self)
  ultimately have "sint w = uint w" by (cases "bit (uint w) 63") simp_all
  then show ?thesis by simp
qed

lemma readEntryData_Ret:
  assumes "readEntryData name (FileN dev) e = Ret buf"
  shows "buf = chunk dev (unat (e_Offset e)) (unat (e_Size e))"
    and "length buf = unat (e_Size e)"
  using assms
  by (auto simp: readEntryData_def file_ReadAt_def sint_nonneg_unat split: if_splits)

lemma sparseLoop_Ret:
  assumes "sparseLoop name (FileN dev) es acc = Ret out"
  shows "out = acc @ map sparseOf (filter (zeroEntry dev) es)"
  using assms
proof (induction es arbitrary: acc)
  case (Cons e es)
  show ?case
  proof (cases "e_Size e < minZeroRun")
    case True
    then have "\<not> zeroEntry dev e" by (simp add: zeroEntry_def not_le)
    with True Cons show ?thesis by simp
  next
    case False
    with Cons.prems obtain buf where buf: "readEntryData name (FileN dev) e = Ret buf"
      and "sparseLoop name (FileN dev) es (if isZero buf then acc @ [sparseOf e] else acc) = Ret out"
      unfolding sparseOf_def by (auto elim!: bindO_RetE)
    moreover have "zeroEntry dev e \<longleftrightarrow> isZero buf"
      using False readEntryData_Ret(1) [OF buf] by (simp add: zeroEntry_def not_less)
    ultimately show ?thesis using Cons.IH [of "if isZero buf then acc @ [sparseOf e] else acc"] by simp
  qed
qed simp

end
