(* ===== verification/Storage.thy ===== *)
theory Storage
  imports Sha256 Go_Os_Laws
begin

text \<open>
  \<open>pkg/storage\<close>: the content-addressed store of \<open>cas.go\<close> and the directory tier of
  \<open>tier.go\<close>. The locale \<open>content_store\<close> is what the deduplication of an image relies
  on; the store on the file system is its interpretation.
\<close>

section \<open>cas.go\<close>

record CAS =
  cas_Root :: string

definition NewCAS :: "string \<Rightarrow> ('x os_state_scheme, CAS) act" where
  "NewCAS root =
     bindA (os_MkdirAll (Join root ''cas'')) (\<lambda>_. retA \<lparr>cas_Root = Join root ''cas''\<rparr>)"

definition HashString :: "hash32 \<Rightarrow> string" where
  "HashString h = hex_encode (be_put 32 h)"

definition cas_path :: "CAS \<Rightarrow> hash32 \<Rightarrow> string" where
  "cas_path c h = Join (cas_Root c) (take 2 (HashString h) @ ''/'' @ drop 2 (HashString h))"

definition cas_Put :: "CAS \<Rightarrow> bytes \<Rightarrow> ('x os_state_scheme, hash32) act" where
  "cas_Put c data =
     (let sum = Sum256 data; path = cas_path c sum; tmp = path @ ''.tmp'' in
      bindA (tryA (os_Stat path)) (\<lambda>st. case st of
        Inr _ \<Rightarrow> retA sum
      | Inl _ \<Rightarrow>
          bindA (os_MkdirAll (Dir path)) (\<lambda>_.
          bindA (os_WriteFile tmp data) (\<lambda>_.
          bindA (tryA (os_Rename tmp path)) (\<lambda>rn. case rn of
            Inr _ \<Rightarrow> retA sum
          | Inl err \<Rightarrow> bindA (tryA (os_Remove tmp)) (\<lambda>_. errA err))))))"

definition cas_Get :: "CAS \<Rightarrow> hash32 \<Rightarrow> ('x os_state_scheme, bytes) act" where
  "cas_Get c h = os_ReadFile (cas_path c h)"

definition cas_Has :: "CAS \<Rightarrow> hash32 \<Rightarrow> ('x os_state_scheme, bool) act" where
  "cas_Has c h = bindA (tryA (os_Stat (cas_path c h))) (\<lambda>st. retA (\<not> isl st))"

definition ParseHash :: "string \<Rightarrow> goerr + hash32" where
  "ParseHash s =
     (case hex_decode s of
        None \<Rightarrow> Inl (FmtError ''hash: encoding/hex: invalid byte or odd length'')
      | Some b \<Rightarrow> if length b \<noteq> 32 then Inl (FmtError (''hash length '' @ nat_dec (length b)))
                  else Inr (be_get b))"

section \<open>tier.go\<close>

record Tier =
  t_Dir :: string

definition Tier_New :: "string \<Rightarrow> ('x os_state_scheme, Tier) act" where
  "Tier_New dir = bindA (os_MkdirAll dir) (\<lambda>_. retA \<lparr>t_Dir = dir\<rparr>)"

definition Spill :: "Tier \<Rightarrow> string \<Rightarrow> bytes \<Rightarrow> ('x os_state_scheme, nat) act" where
  "Spill t name data = bindA (os_WriteFile (Join (t_Dir t) name) data) (\<lambda>_. retA (length data))"

text \<open>The mapping of a non-empty file is copied out and unmapped: its bytes. An empty file
  yields \<open>nil\<close>.\<close>

definition MmapRead :: "Tier \<Rightarrow> string \<Rightarrow> ('x os_state_scheme, bytes) act" where
  "MmapRead t name =
     bindA (os_Open (Join (t_Dir t) name)) (\<lambda>f.
       liftA (bindO (file_bytes (Join (t_Dir t) name) f) (\<lambda>b. Ret (if length b = 0 then [] else b))))"

definition DevicePath :: "Tier \<Rightarrow> string" where
  "DevicePath t = Join (t_Dir t) ''device.bin''"

definition ManifestPath :: "Tier \<Rightarrow> string" where
  "ManifestPath t = Join (t_Dir t) ''manifest.bin''"

section \<open>Object names\<close>

lemma length_HashString [simp]: "length (HashString h) = 64"
  by (simp add: HashString_def)

lemma ParseHash_HashString: "ParseHash (HashString h) = Inr h"
  by (simp add: ParseHash_def HashString_def be_get_put_full)

lemma HashString_inject [simp]: "HashString a = HashString b \<longleftrightarrow> a = b"
  by (metis ParseHash_HashString sum.inject(2))

lemma hex_digit_plain: "n < 16 \<Longrightarrow> hex_digit n \<noteq> CHR ''/'' \<and> hex_digit n \<noteq> CHR ''.''"
  by (auto simp: hex_digit_def dest!: arg_cong [where f = "of_char :: char \<Rightarrow> nat"])

lemma set_hex_encode: "c \<in> set (hex_encode b) \<Longrightarrow> c \<noteq> CHR ''/'' \<and> c \<noteq> CHR ''.''"
proof (induction b)
  case (Cons x b)
  have "unat x < 2 ^ LENGTH(8)" by (rule unsigned_less)
  then have "unat x div 16 < 16" "unat x mod 16 < 16" by simp_all
  then show ?case using Cons hex_digit_plain by auto
qed simp

lemma plain_hash_part:
  assumes "set w \<subseteq> set (HashString h)" and "w \<noteq> []"
  shows "plain w"
proof -
  have "CHR ''.'' \<notin> set w" "CHR ''/'' \<notin> set w"
    using assms(1) set_hex_encode [of _ "be_put 32 h"] by (auto simp: HashString_def)
  then show ?thesis using assms(2) by (auto simp: plain_def)
qed

lemma plain_take_hash [simp]: "plain (take 2 (HashString h))"
  by (rule plain_hash_part [of _ h]) (auto dest: in_set_takeD simp flip: length_0_conv)

lemma plain_drop_hash [simp]: "plain (drop 2 (HashString h))"
  by (rule plain_hash_part [of _ h]) (auto dest: in_set_dropD simp flip: length_0_conv)

definition obj_path :: "CAS \<Rightarrow> hash32 \<Rightarrow> path" where
  "obj_path c h = path_of (cas_Root c) @ [take 2 (HashString h), drop 2 (HashString h)]"

lemma path_of_cas_path: "path_of (cas_path c h) = obj_path c h"
  by (simp only: cas_path_def obj_path_def Join_two(1) [OF plain_take_hash plain_drop_hash])

lemma base_part_cas_path: "base_part (cas_path c h) = drop 2 (HashString h)"
  by (simp only: cas_path_def Join_two(2) [OF plain_take_hash plain_drop_hash])

lemma obj_path_inject: "obj_path c a = obj_path c b \<longleftrightarrow> a = b"
  by (auto simp: obj_path_def) (metis HashString_inject append_take_drop_id)

lemma obj_path_length: "Suc 0 < length (obj_path c h)"
  by (simp add: obj_path_def)

lemma path_of_cas_tmp:
  "path_of (cas_path c h @ ''.tmp'') = butlast (obj_path c h) @ [drop 2 (HashString h) @ ''.tmp'']"
proof -
  have "plain (drop 2 (HashString h) @ ''.tmp'')" by (rule plain_suffix) simp_all
  then show ?thesis
    using path_of_suffix [of "cas_path c h" "''.tmp''"]
    by (simp add: base_part_cas_path path_of_cas_path)
qed

lemma cas_tmp_not_obj: "path_of (cas_path c h @ ''.tmp'') \<noteq> obj_path c k"
proof
  assume "path_of (cas_path c h @ ''.tmp'') = obj_path c k"
  then have "length (drop 2 (HashString h) @ ''.tmp'') = length (drop 2 (HashString k))"
    unfolding path_of_cas_tmp by (metis obj_path_def append_butlast_last_id last_snoc
        append_is_Nil_conv last_appendR last_ConsR list.discI last_ConsL)
  then show False by simp
qed

section \<open>The content store interface\<close>

locale content_store =
  fixes hashf :: "bytes \<Rightarrow> hash32"
    and put :: "bytes \<Rightarrow> ('s, hash32) act"
    and get :: "hash32 \<Rightarrow> ('s, bytes) act"
    and inv :: "'s \<Rightarrow> bool"
  assumes put_inv: "keeps inv (put d)"
    and put_hash: "put d s = (Ret h, t) \<Longrightarrow> h = hashf d"
    and put_get: "inv s \<Longrightarrow> put d s = (Ret h, t) \<Longrightarrow> \<exists>d'. get h t = (Ret d', t) \<and> hashf d' = h"
    and put_frame: "inv s \<Longrightarrow> put d s = (r, t) \<Longrightarrow> get k s = (Ret d', s) \<Longrightarrow> get k t = (Ret d', t)"
begin

fun put_all :: "bytes list \<Rightarrow> ('s, hash32 list) act" where
  "put_all [] = retA []"
| "put_all (d # ds) = bindA (put d) (\<lambda>h. bindA (put_all ds) (\<lambda>hs. retA (h # hs)))"

lemma put_all_inv: "keeps inv (put_all ds)"
  by (induction ds) (simp_all only: put_all.simps keeps_rules put_inv)

lemma put_all_frame:
  "inv s \<Longrightarrow> put_all ds s = (r, t) \<Longrightarrow> get k s = (Ret d', s) \<Longrightarrow> get k t = (Ret d', t)"
proof (induction ds arbitrary: s r)
  case (Cons d ds)
  obtain o1 s1 where p: "put d s = (o1, s1)" by fastforce
  have i1: "inv s1" using keepsD [OF put_inv Cons.prems(1) p] .
  have g1: "get k s1 = (Ret d', s1)" using put_frame [OF Cons.prems(1) p Cons.prems(3)] .
  show ?case
  proof (cases o1)
    case (Ret h)
    obtain o2 s2 where q: "put_all ds s1 = (o2, s2)" by fastforce
    have "t = s2" using Cons.prems(2) p q Ret by (cases o2) (simp_all add: bindA_def)
    with Cons.IH [OF i1 _ g1] q show ?thesis by simp
  qed (use Cons.prems(2) p g1 in \<open>simp_all add: bindA_def\<close>)
qed simp

text \<open>After storing a list of contents, every one of them can be read back by its hash,
  up to a collision of the hash.\<close>

lemma put_all_get:
  assumes "inv s" and "put_all ds s = (Ret hs, t)"
  shows "hs = map hashf ds" and "h \<in> set hs \<Longrightarrow> \<exists>d'. get h t = (Ret d', t) \<and> hashf d' = h"
  using assms
proof (induction ds arbitrary: s hs)
  case (Cons d ds)
  {
    case 1
    then obtain h' s1 hs' where "put d s = (Ret h', s1)" "put_all ds s1 = (Ret hs', t)" "hs = h' # hs'"
      by (auto elim!: bindA_RetE)
    with 1 Cons.IH(1) [of s1 hs'] put_hash keepsD [OF put_inv] show ?case by force
  next
    case 2
    then obtain h' s1 hs' where p: "put d s = (Ret h', s1)" and q: "put_all ds s1 = (Ret hs', t)"
      and hs: "hs = h' # hs'"
      by (auto elim!: bindA_RetE)
    have i1: "inv s1" using keepsD [OF put_inv 2(2) p] .
    show ?case
    proof (cases "h = h'")
      case True
      then show ?thesis using put_get [OF 2(2) p] put_all_frame [OF i1 q] by blast
    next
      case False
      then show ?thesis using Cons.IH(2) [OF _ i1 q] 2(1) hs by simp
    qed
  }
qed simp_all

end

section \<open>The store on the file system\<close>

definition cas_inv :: "CAS \<Rightarrow> 'x os_state_scheme \<Rightarrow> bool" where
  "cas_inv c s \<longleftrightarrow> wf_os s \<and>
     (\<forall>h n. node_at s (obj_path c h) = Some n \<longrightarrow> (\<exists>b. n = FileN b \<and> Sum256 b = h))"

definition same_objs :: "CAS \<Rightarrow> 'x os_state_scheme \<Rightarrow> 'x os_state_scheme \<Rightarrow> bool" where
  "same_objs c s t \<longleftrightarrow> (\<forall>k. node_at t (obj_path c k) = node_at s (obj_path c k))"

lemma prefix_same_length: "length p = length q \<Longrightarrow> prefix p q \<longleftrightarrow> p = q"
  by (auto simp: prefix_def)

lemma prefix_obj_obj: "prefix (obj_path c h) (obj_path c k) \<longleftrightarrow> h = k"
  by (subst prefix_same_length) (auto simp: obj_path_inject, simp add: obj_path_def)

lemma prefix_tmp_obj: "\<not> prefix (path_of (cas_path c h @ ''.tmp'')) (obj_path c k)"
  by (subst prefix_same_length) (simp add: path_of_cas_tmp, simp add: obj_path_def, rule cas_tmp_not_obj)

lemma same_objs_MkdirAll:
  assumes "os_MkdirAll (Dir (cas_path c h)) s = (r, t)"
  shows "same_objs c s t"
proof -
  have "\<not> prefix (obj_path c k) (path_of (Dir (cas_path c h)))" for k
    using path_of_Dir [of "cas_path c h"]
    by (auto simp: base_part_cas_path path_of_cas_path obj_path_def dest: prefix_length_le)
  then show ?thesis
    using assms by (auto simp: same_objs_def os_MkdirAll_def Let_def node_at_make_dirs split: if_splits)
qed

lemma same_objs_write_tmp:
  "os_write keep (cas_path c h @ ''.tmp'') d s = (r, t) \<Longrightarrow> same_objs c s t"
  unfolding same_objs_def using os_write_other cas_tmp_not_obj by metis

lemma same_objs_remove_tmp:
  assumes "os_Remove (cas_path c h @ ''.tmp'') s = (r, t)"
  shows "same_objs c s t"
proof -
  have "Suc 0 < length (path_of (cas_path c h @ ''.tmp''))" by (simp add: path_of_cas_tmp obj_path_def)
  then show ?thesis
    using assms prefix_tmp_obj [of c h]
    by (auto simp: same_objs_def os_Remove_def Let_def node_at_remove_tree split: if_splits)
qed

lemma rename_tmp_objs:
  assumes "os_Rename (cas_path c h @ ''.tmp'') (cas_path c h) s = (Ret u, t)" and "wf_os s"
  shows "node_at t (obj_path c k) =
    (if k = h then node_at s (path_of (cas_path c h @ ''.tmp'')) else node_at s (obj_path c k))"
  using os_Rename_node_at [OF assms] cas_tmp_not_obj [of c h h] prefix_tmp_obj [of c h]
  by (auto simp: path_of_cas_path prefix_obj_obj)

text \<open>All that \<open>Put\<close> can do to the objects of the store.\<close>

lemma cas_Put_effect:
  assumes put: "cas_Put c d s = (r, t)" and wf: "wf_os s"
  shows "same_objs c s t \<and> (\<forall>h. r = Ret h \<longrightarrow> h = Sum256 d \<and> node_at s (obj_path c h) \<noteq> None) \<or>
    node_at s (obj_path c (Sum256 d)) = None \<and> r = Ret (Sum256 d) \<and>
    (\<forall>k. node_at t (obj_path c k) = (if k = Sum256 d then Some (FileN d) else node_at s (obj_path c k)))"
proof (cases "node_at s (obj_path c (Sum256 d))")
  case (Some n)
  then have "cas_Put c d s = (Ret (Sum256 d), s)"
    by (simp add: cas_Put_def Let_def bindA_def tryA_def os_Stat_cases path_of_cas_path)
  with put Some show ?thesis by (auto simp: same_objs_def)
next
  case None
  let ?p = "cas_path c (Sum256 d)"
  obtain r1 s1 where mk: "os_MkdirAll (Dir ?p) s = (r1, s1)" by fastforce
  obtain r2 s2 where wr: "os_WriteFile (?p @ ''.tmp'') d s1 = (r2, s2)" by fastforce
  obtain r3 s3 where rn: "os_Rename (?p @ ''.tmp'') ?p s2 = (r3, s3)" by fastforce
  obtain r4 s4 where rm: "os_Remove (?p @ ''.tmp'') s3 = (r4, s4)" by fastforce
  have w1: "wf_os s1" using keepsD [OF keeps_wf_os_MkdirAll wf mk] .
  have w2: "wf_os s2" using keepsD [OF keeps_wf_os_write w1 wr] .
  have o1: "same_objs c s s1" using same_objs_MkdirAll [OF mk] .
  have o2: "same_objs c s s2" using same_objs_write_tmp [OF wr] o1 by (simp add: same_objs_def)
  note run = None cas_Put_def Let_def bindA_def tryA_def os_Stat_cases path_of_cas_path mk
  show ?thesis
  proof (cases r1)
    case r1: (Ret u1)
    show ?thesis
    proof (cases r2)
      case r2: (Ret u2)
      show ?thesis
      proof (cases r3)
        case r3: (Ret u3)
        have "node_at s2 (path_of (?p @ ''.tmp'')) = Some (FileN d)"
          using os_WriteFile_node_at [of "?p @ ''.tmp''" d s1 u2 s2] wr r2 by simp
        with put r1 r2 r3 wr rn o2 show ?thesis
          using rename_tmp_objs [of c "Sum256 d" s2 u3 s3] w2 None
          by (simp add: run same_objs_def)
      next
        case r3: (Err e)
        have "s3 = pop_fault s2" using os_Rename_Err rn r3 by blast
        then have "same_objs c s s4"
          using same_objs_remove_tmp [OF rm] o2 by (simp add: same_objs_def)
        moreover have "\<not> (\<exists>h. r = Ret h) \<and> t = s4"
          using put r1 r2 r3 wr rn rm by (cases r4) (auto simp: run)
        ultimately show ?thesis by auto
      qed (use rn in \<open>auto simp: os_Rename_def Let_def split: if_splits\<close>)
    qed (use put r1 wr o2 in \<open>auto simp: run\<close>)
  qed (use put o1 in \<open>auto simp: run\<close>)
qed

lemma keeps_wf_cas_Put: "keeps wf_os (cas_Put c d)"
  unfolding cas_Put_def Let_def
  by (intro keeps_wf_os allI) (auto intro!: keeps_wf_os split: sum.split)

lemma cas_Put_inv: "keeps (cas_inv c) (cas_Put c d)"
proof (rule keepsI)
  fix s :: "'x os_state_scheme" assume inv: "cas_inv c s"
  obtain r t where put: "cas_Put c d s = (r, t)" by fastforce
  have wf: "wf_os s" using inv by (simp add: cas_inv_def)
  have "\<exists>b. n = FileN b \<and> Sum256 b = h" if "node_at t (obj_path c h) = Some n" for h n
    using cas_Put_effect [OF put wf]
  proof (elim disjE conjE)
    assume "same_objs c s t"
    with that inv show ?thesis by (simp add: same_objs_def cas_inv_def)
  next
    assume "\<forall>k. node_at t (obj_path c k) =
      (if k = Sum256 d then Some (FileN d) else node_at s (obj_path c k))"
    with that inv show ?thesis by (cases "h = Sum256 d") (auto simp: cas_inv_def)
  qed
  then show "cas_inv c (snd (cas_Put c d s))"
    using keepsD [OF keeps_wf_cas_Put wf put] put by (simp add: cas_inv_def)
qed

lemma cas_Get_Ret_iff:
  "cas_Get c h s = (Ret b, t) \<longleftrightarrow> t = s \<and> node_at s (obj_path c h) = Some (FileN b)"
  by (simp add: cas_Get_def os_ReadFile_Ret_iff path_of_cas_path)

lemma cas_Put_hash: "cas_Put c d s = (Ret h, t) \<Longrightarrow> h = Sum256 d"
  by (auto simp: cas_Put_def Let_def elim!: bindA_RetE split: sum.splits)

lemma cas_Put_present:
  assumes "cas_inv c s" and "cas_Put c d s = (Ret h, t)"
  shows "\<exists>d'. cas_Get c h t = (Ret d', t) \<and> Sum256 d' = h"
proof -
  have "node_at t (obj_path c h) \<noteq> None"
    using cas_Put_effect [OF assms(2)] assms(1) by (auto simp: same_objs_def cas_inv_def)
  moreover have "cas_inv c t" using keepsD [OF cas_Put_inv assms] .
  ultimately show ?thesis by (auto simp: cas_inv_def cas_Get_Ret_iff)
qed

lemma cas_Put_frame:
  assumes "cas_inv c s" and "cas_Put c d s = (r, t)" and "cas_Get c k s = (Ret d', s)"
  shows "cas_Get c k t = (Ret d', t)"
  using cas_Put_effect [OF assms(2)] assms(1,3)
  by (auto simp: same_objs_def cas_inv_def cas_Get_Ret_iff)

interpretation cas: content_store Sum256 "cas_Put c" "cas_Get c" "cas_inv c" for c
  by unfold_locales (fact cas_Put_inv cas_Put_hash cas_Put_present cas_Put_frame)+

section \<open>What the store does not touch\<close>

lemma prefix_root_obj: "prefix (path_of (cas_Root c)) (obj_path c h)"
  by (simp add: obj_path_def)

lemma keeps_sits_cas_Put:
  assumes out: "\<not> prefix (path_of (cas_Root c)) q" and above: "\<not> prefix q (path_of (cas_Root c))"
  shows "keeps (sits q x) (cas_Put c d)"
proof -
  let ?p = "cas_path c (Sum256 d)"
  have root: "prefix (path_of (cas_Root c)) (path_of ?p)" by (simp add: path_of_cas_path prefix_root_obj)
  have tmp: "prefix (path_of (cas_Root c)) (path_of (?p @ ''.tmp''))"
    by (simp add: path_of_cas_tmp obj_path_def butlast_append)
  have dirp: "path_of (Dir ?p) = path_of (cas_Root c) @ [take 2 (HashString (Sum256 d))]"
    by (simp add: path_of_Dir base_part_cas_path path_of_cas_path obj_path_def butlast_append)
  have far: "\<not> prefix (path_of ?p) q" "\<not> prefix (path_of (?p @ ''.tmp'')) q"
    using out root tmp prefix_order.trans by blast+
  moreover have "q \<noteq> path_of (?p @ ''.tmp'')" using far by auto
  moreover have "\<not> prefix q (path_of (Dir ?p))"
    using out above unfolding dirp by (auto simp: prefix_snoc)
  ultimately show ?thesis
    unfolding cas_Put_def Let_def
    by (intro keeps_sits allI) (auto intro!: keeps_sits split: sum.split)
qed

section \<open>A first object\<close>

text \<open>On a disk without faults \<open>Put\<close> into an empty store succeeds.\<close>

lemma cas_Put_empty_store:
  assumes "faults s = []" and "wf_os s" and root: "node_at s (path_of (cas_Root c)) = Some DirN"
    and none: "\<And>r. r \<noteq> [] \<Longrightarrow> node_at s (path_of (cas_Root c) @ r) = None"
  shows "\<exists>t. cas_Put c d s = (Ret (Sum256 d), t) \<and> faults t = []"
proof -
  let ?p = "cas_path c (Sum256 d)" and ?a = "take 2 (HashString (Sum256 d))" and ?b = "drop 2 (HashString (Sum256 d))"
  let ?root = "path_of (cas_Root c)" and ?q = "path_of (cas_path c (Sum256 d))"
  have q: "?q = ?root @ [?a, ?b]" by (simp add: path_of_cas_path obj_path_def)
  have tmp: "path_of (?p @ ''.tmp'') = ?root @ [?a, ?b @ ''.tmp'']"
    by (simp add: path_of_cas_tmp obj_path_def butlast_append)
  have dirp: "path_of (Dir ?p) = ?root @ [?a]"
    using path_of_Dir [of ?p] by (simp add: base_part_cas_path q butlast_append)
  let ?s1 = "make_dirs (?root @ [?a]) s"
  let ?s2 = "store_file (?root @ [?a, ?b @ ''.tmp'']) d ?s1"
  note above = wf_os_prefix [OF assms(2) root]
  have at1: "node_at ?s1 k = (if k = ?root @ [?a] then Some DirN else node_at s k)" for k
    using none [of "[?a]"] above by (auto simp: node_at_make_dirs prefix_snoc)
  have mk: "os_MkdirAll (Dir ?p) s = (Ret (), ?s1)"
    using os_MkdirAll_child [OF assms(2,1), of "Dir ?p"] root none [of "[?a]"] by (simp add: dirp)
  have len: "Suc 0 < length (?root @ [?a, ?b @ ''.tmp''])" by simp
  have "can_write ?s1 (?root @ [?a, ?b @ ''.tmp''])"
    using none [of "[?a, ?b @ ''.tmp'']"] by (simp add: can_write_def at1 butlast_append)
  then have wr: "os_WriteFile (?p @ ''.tmp'') d ?s1 = (Ret (), ?s2)"
    using os_WriteFile_ok [of ?s1 "?p @ ''.tmp''" d] assms(1) by (simp add: tmp)
  have rn: "os_Rename (?p @ ''.tmp'') ?p ?s2 = (Ret (), move_tree (path_of (?p @ ''.tmp'')) ?q ?s2)"
    by (rule os_Rename_ok)
      (use assms(1) none [of "[?a, ?b]"] prefix_tmp_obj [of c "Sum256 d" "Sum256 d"] in
        \<open>simp_all add: node_at_store_file [OF len] at1 tmp q butlast_append obj_path_def\<close>)
  have "node_at s ?q = None" using none [of "[?a, ?b]"] by (simp add: q)
  then show ?thesis
    using mk wr rn assms(1)
    by (auto simp: cas_Put_def Let_def bindA_step tryA_step os_Stat_cases)
qed

end
