(* ===== verification/Image_Dedup.thy ===== *)
theory Image_Dedup
  imports Image_Sparse Storage
begin

text \<open>
  \<open>pkg/image/dedup.go\<close>: every entry's bytes go into a content-addressed store inside
  the image directory, the entry records their hash, and \<open>device.map\<close> lists hash, size
  and pointer. The set \<open>seen\<close> and the counter \<open>unique\<close> of the source are never read
  and have no counterpart.
\<close>

section \<open>Definitions\<close>

text \<open>\<open>itoa64\<close> fills a buffer from its end; the part filled so far is \<open>buf\<close>.\<close>

fun itoa64Loop :: "nat \<Rightarrow> string \<Rightarrow> string" where
  "itoa64Loop v buf = (if v = 0 then buf else itoa64Loop (v div 10) (digit (v mod 10) # buf))"

declare itoa64Loop.simps [simp del]

definition itoa64 :: "u64 \<Rightarrow> string" where
  "itoa64 v = (if v = 0 then ''0'' else itoa64Loop (unat v) [])"

fun dedupLoop :: "CAS \<Rightarrow> string \<Rightarrow> node \<Rightarrow> Entry list \<Rightarrow> ('x os_state_scheme, Entry list) act" where
  "dedupLoop cas name f [] = retA []"
| "dedupLoop cas name f (e # es) =
     bindA (liftA (readEntryData name f e)) (\<lambda>buf.
     bindA (cas_Put cas buf) (\<lambda>hash.
     bindA (dedupLoop cas name f es) (\<lambda>es'.
       retA (e\<lparr>e_ContentHash := hash\<rparr> # es'))))"

definition mapLine :: "Entry \<Rightarrow> string" where
  "mapLine e = HashString (e_ContentHash e) @ '' '' @ itoa64 (e_Size e) @ '' '' @ itoa64 (e_Ptr e)
     @ [CHR 0x0A]"

definition DedupDevice :: "string \<Rightarrow> ('x os_state_scheme, unit) act" where
  "DedupDevice dir =
     (let manifestPath = Join dir ''manifest.bin''; devicePath = Join dir ''device.bin'' in
      bindA (ReadManifest manifestPath) (\<lambda>(entries, hdr).
      bindA (os_Open devicePath) (\<lambda>f.
      bindA (NewCAS dir) (\<lambda>cas.
      bindA (dedupLoop cas devicePath f entries) (\<lambda>entries'.
      bindA (os_WriteFile (Join dir ''device.map'') (bytes_of (concat (map mapLine entries')))) (\<lambda>_.
        WriteManifestFlags manifestPath entries' (h_Flags hdr OR FlagDedup) (h_Version hdr)))))))"

section \<open>itoa64\<close>

lemma itoa64Loop_nat_dec: "0 < v \<Longrightarrow> itoa64Loop v buf = nat_dec v @ buf"
proof (induction v buf rule: itoa64Loop.induct)
  case (1 v buf)
  show ?case
  proof (cases "v < 10")
    case True
    then show ?thesis
      using 1(2) by (simp add: itoa64Loop.simps [of v] itoa64Loop.simps [of 0] nat_dec.simps [of v])
  next
    case False
    then have "0 < v div 10" by simp
    with 1 False show ?thesis by (simp add: itoa64Loop.simps [of v] nat_dec.simps [of v])
  qed
qed

lemma itoa64_eq: "itoa64 v = nat_dec (unat v)"
proof (cases "v = 0")
  case True
  have "digit 0 = CHR ''0''" by code_simp
  with True show ?thesis by (simp add: itoa64_def nat_dec.simps [of 0])
qed (simp add: itoa64_def itoa64Loop_nat_dec unat_gt_0)

lemma length_nat_dec: "v < 10 ^ Suc k \<Longrightarrow> length (nat_dec v) \<le> Suc k"
proof (induction k arbitrary: v)
  case (Suc k)
  show ?case
  proof (cases "v < 10")
    case False
    have "v div 10 < 10 ^ Suc k" using Suc.prems by (auto simp: less_mult_imp_div_less)
    then show ?thesis using Suc.IH [of "v div 10"] False by (simp add: nat_dec.simps [of v])
  qed (simp add: nat_dec.simps [of v])
qed (simp add: nat_dec.simps)

text \<open>The 32-byte buffer of the source is never overrun.\<close>

lemma length_itoa64: "length (itoa64 v) \<le> 20"
proof -
  have "unat v < 2 ^ LENGTH(64)" by (rule unsigned_less)
  then have "unat v < 10 ^ Suc 19" by simp
  then show ?thesis unfolding itoa64_eq by (drule_tac length_nat_dec) simp
qed

end
