(* ===== verification/Image_Pipeline.thy ===== *)
theory Image_Pipeline
  imports Image_Delta_Laws Image_Dedup
begin

text \<open>
  \<open>pkg/image/pipeline.go\<close> and \<open>pkg/image/finalize.go\<close>: the passes over a freshly
  written image and how it is moved from its staging directory to its place. The locale
  \<open>image_stage\<close> is the contract of the passes that only add to an image (sparse index,
  deduplication, compression); each of them is an interpretation.
\<close>

section \<open>finalize.go\<close>

definition completeName :: string where "completeName = ''COMPLETE''"

definition StageDir :: "string \<Rightarrow> string" where
  "StageDir dest = dest @ ''.staging''"

definition Finalize :: "string \<Rightarrow> string \<Rightarrow> ('x os_state_scheme, unit) act" where
  "Finalize staging dest =
     bindA (os_WriteFile (Join staging completeName) (bytes_of (''1'' @ [CHR 0x0A]))) (\<lambda>_.
     bindA (tryA (os_RemoveAll dest)) (\<lambda>r. case r of
       Inl err \<Rightarrow> if \<not> IsNotExist err then errA err else os_Rename staging dest
     | Inr _ \<Rightarrow> os_Rename staging dest))"

definition IsComplete :: "string \<Rightarrow> ('x os_state_scheme, bool) act" where
  "IsComplete dir = bindA (tryA (os_Stat (Join dir completeName))) (\<lambda>st. retA (\<not> isl st))"

definition WriteStaging ::
  "string \<Rightarrow> (string \<Rightarrow> ('x os_state_scheme, unit) act) \<Rightarrow> ('x os_state_scheme, unit) act" where
  "WriteStaging dir fn =
     (let staging = StageDir dir in
      bindA (tryA (os_RemoveAll staging)) (\<lambda>_.
      bindA (os_MkdirAll staging) (\<lambda>_.
      bindA (tryA (fn staging)) (\<lambda>r. case r of
        Inl err \<Rightarrow> bindA (tryA (os_RemoveAll staging)) (\<lambda>_. errA err)
      | Inr _ \<Rightarrow> Finalize staging dir))))"

section \<open>pipeline.go\<close>

record ProcessOpts =
  o_Compress :: bool
  o_Sparse :: bool
  o_Dedup :: bool
  o_Parent :: string

definition ProcessImage :: "nat \<Rightarrow> zstd \<Rightarrow> string \<Rightarrow> ProcessOpts \<Rightarrow> ('x os_state_scheme, unit) act" where
  "ProcessImage n z dir opts =
     bindA (if o_Sparse opts then ApplySparse dir else retA ()) (\<lambda>_.
     bindA (if o_Dedup opts then DedupDevice dir else retA ()) (\<lambda>_.
     bindA (if o_Compress opts then CompressDevice z dir else retA ()) (\<lambda>_.
     bindA (if o_Parent opts \<noteq> [] then WriteDelta n z dir (o_Parent opts) else retA ()) (\<lambda>_.
       retA ()))))"

definition ParentFromEnv :: "'x os_state_scheme \<Rightarrow> string" where
  "ParentFromEnv s = Getenv ''CUDACKPT_PARENT_IMAGE'' s"

definition OptsFromEnv :: "'x os_state_scheme \<Rightarrow> ProcessOpts" where
  "OptsFromEnv s =
     \<lparr>o_Compress = (Getenv ''CUDACKPT_COMPRESS'' s = ''1''),
      o_Sparse = (Getenv ''CUDACKPT_SPARSE'' s = ''1''),
      o_Dedup = (Getenv ''CUDACKPT_DEDUP'' s = ''1''),
      o_Parent = ParentFromEnv s\<rparr>"

definition StagingSnapshot ::
  "nat \<Rightarrow> zstd \<Rightarrow> string \<Rightarrow> (string \<Rightarrow> ('x os_state_scheme, unit) act) \<Rightarrow> ProcessOpts
    \<Rightarrow> ('x os_state_scheme, unit) act" where
  "StagingSnapshot n z dir snapshotFn opts =
     WriteStaging dir (\<lambda>staging. bindA (snapshotFn staging) (\<lambda>_. ProcessImage n z staging opts))"

definition imageDevicePath :: "string \<Rightarrow> string" where
  "imageDevicePath dir = Join dir ''device.bin''"

section \<open>The contract of a pass\<close>

text \<open>What of an entry no pass may change: everything but its content hash.\<close>

definition geom :: "Entry \<Rightarrow> Entry" where
  "geom e = e\<lparr>e_ContentHash := 0\<rparr>"

definition carries :: "string \<Rightarrow> Entry list \<Rightarrow> bytes \<Rightarrow> 'x os_state_scheme \<Rightarrow> bool" where
  "carries dir geo dev s \<longleftrightarrow> (\<exists>es h. image_at s dir es h dev \<and> map geom es = geo)"

definition raw :: "string \<Rightarrow> Entry list \<Rightarrow> bytes \<Rightarrow> 'x os_state_scheme \<Rightarrow> bool" where
  "raw dir geo dev s \<longleftrightarrow> wf_os s \<and>
     (\<exists>es h. image_at s dir es h dev \<and> map geom es = geo \<and> plain_flags h)"

text \<open>\<open>touched\<close> are the names in the image directory the pass may write.\<close>

locale image_stage =
  fixes stage :: "string \<Rightarrow> ('x os_state_scheme, unit) act"
    and flag :: u16
    and touched :: "string set"
  assumes stage_wf: "keeps wf_os (stage dir)"
    and stage_frame: "f \<notin> touched \<Longrightarrow> keeps (sits (path_of dir @ [f]) x) (stage dir)"
    and stage_outside: "\<not> prefix (path_of dir) q \<Longrightarrow> \<not> prefix q (path_of dir) \<Longrightarrow>
      keeps (sits q x) (stage dir)"
    and stage_device: "''device.bin'' \<notin> touched"
    and stage_manifest: "wf_os s \<Longrightarrow> has_manifest s dir es h \<Longrightarrow> stage dir s = (Ret u, t) \<Longrightarrow>
      \<exists>es' h'. has_manifest t dir es' h' \<and> map geom es' = map geom es \<and> h_Version h' = h_Version h \<and>
        (h_Flags h' = h_Flags h \<or> h_Flags h' = h_Flags h OR flag)"
begin

lemma stage_carries:
  assumes "wf_os s" and "carries dir geo dev s" and "stage dir s = (Ret u, t)"
  shows "wf_os t \<and> carries dir geo dev t"
proof -
  from assms(2) obtain es h where "has_manifest s dir es h" "has_file s dir ''device.bin'' dev"
    and "map geom es = geo"
    by (auto simp: carries_def image_at_def)
  moreover have "node_at t (path_of dir @ [''device.bin'']) = node_at s (path_of dir @ [''device.bin''])"
    using sitsD [OF stage_frame [OF stage_device] assms(1,3)] .
  ultimately show ?thesis
    using stage_manifest [OF assms(1) _ assms(3)] keepsD [OF stage_wf assms(1,3)]
    unfolding carries_def image_at_def has_file_def by metis
qed

text \<open>So is the property of being a plain image, for a pass with a harmless flag.\<close>

lemma stage_raw:
  assumes "flag AND FlagDelta = 0" and "flag AND FlagCompressed = 0"
    and "raw dir geo dev s" and "stage dir s = (Ret u, t)"
  shows "raw dir geo dev t"
proof -
  from assms(3) obtain es h where wf: "wf_os s" and man: "has_manifest s dir es h"
    and dfile: "has_file s dir ''device.bin'' dev" and "map geom es = geo" and pf: "plain_flags h"
    by (auto simp: raw_def image_at_def)
  moreover have "node_at t (path_of dir @ [''device.bin'']) = node_at s (path_of dir @ [''device.bin''])"
    using sitsD [OF stage_frame [OF stage_device] wf assms(4)] .
  moreover obtain es' h' where "has_manifest t dir es' h'" and "map geom es' = map geom es"
    and "h_Flags h' = h_Flags h \<or> h_Flags h' = h_Flags h OR flag"
    using stage_manifest [OF wf man assms(4)] by blast
  moreover from this pf assms(1,2) have "plain_flags h'"
    by (auto simp: plain_flags_def HasFlag_def bit.conj_disj_distrib2)
  ultimately show ?thesis
    using keepsD [OF stage_wf wf assms(4)]
    by (auto simp: raw_def image_at_def has_file_def)
qed

text \<open>A flag other than the pass's own is set afterwards exactly when it was before.\<close>

lemma stage_flags:
  assumes "wf_os s" and "has_manifest s dir es h" and "stage dir s = (Ret u, t)"
    and "flag AND b = 0"
  shows "\<exists>es' h'. has_manifest t dir es' h' \<and> HasFlag (h_Flags h') b = HasFlag (h_Flags h) b"
proof -
  have "HasFlag (h_Flags h OR flag) b = HasFlag (h_Flags h) b"
    using assms(4) by (simp add: HasFlag_def bit.conj_disj_distrib2)
  then show ?thesis using stage_manifest [OF assms(1-3)] by metis
qed

end

section \<open>The passes meet the contract\<close>

lemma geom_entryNorm [simp]: "geom (entryNorm v e) = geom e"
  by (simp add: geom_def entryNorm_def)

lemma WriteManifestFlags_has:
  assumes "WriteManifestFlags (Join dir ''manifest.bin'') es f v s = (Ret u, t)" and "length es < 2 ^ 32"
  shows "has_manifest t dir (map (entryNorm v) es) (manifestHeader es f v)"
  using os_WriteFile_node_at [of "Join dir ''manifest.bin''" "manifestBytes es f v" s u t]
    parseManifest_manifestBytes [OF assms(2), of f v "[]"] assms(1)
  by (simp add: WriteManifestFlags_def has_manifest_def)

lemma map_geom_norm: "map geom (map (entryNorm v) es) = map geom es"
  by simp

lemma has_manifest_fun:
  "has_manifest s dir es h \<Longrightarrow> has_manifest s dir es' h' \<Longrightarrow> es' = es \<and> h' = h"
  by (auto simp: has_manifest_def split: option.splits node.splits)

lemma ReadManifest_RetE:
  assumes "ReadManifest (Join dir ''manifest.bin'') s = (Ret r, t)" and "has_manifest s dir es h"
  shows "r = (es, h) \<and> t = s"
  using has_manifest_read [OF assms(2)] assms(1) by simp

lemmas stage_frames = keeps_sits keeps_ReadManifest

interpretation sparse_stage: image_stage ApplySparse FlagSparse "{''manifest.bin'', ''sparse.bin''}"
proof
  fix dir :: string and s t :: "'x os_state_scheme" and es h u
  show "keeps wf_os (ApplySparse dir :: ('x os_state_scheme, unit) act)"
    unfolding ApplySparse_def Let_def WriteManifestFlags_def
    by (intro keeps_wf_os keeps_ReadManifest allI) (auto intro!: keeps_wf_os keeps_ReadManifest split: prod.split)
  show "keeps (sits (path_of dir @ [f]) x) (ApplySparse dir :: ('x os_state_scheme, unit) act)"
    if "f \<notin> {''manifest.bin'', ''sparse.bin''}" for f x
    using that unfolding ApplySparse_def Let_def WriteManifestFlags_def
    by (intro stage_frames allI) (auto intro!: stage_frames split: prod.split)
  show "keeps (sits q x) (ApplySparse dir :: ('x os_state_scheme, unit) act)"
    if "\<not> prefix (path_of dir) q" for q x
    using that unfolding ApplySparse_def Let_def WriteManifestFlags_def
    by (intro stage_frames allI) (auto intro!: stage_frames split: prod.split)
  show "''device.bin'' \<notin> {''manifest.bin'', ''sparse.bin''}" by simp
  assume wf: "wf_os s" and man: "has_manifest s dir es h" and run: "ApplySparse dir s = (Ret u, t)"
  from run have "t = s \<or> (\<exists>s1. WriteManifestFlags (Join dir ''manifest.bin'') es
      (h_Flags h OR FlagSparse) (h_Version h) s1 = (Ret u, t))"
    unfolding ApplySparse_def Let_def
    by (auto elim!: bindA_RetE dest!: ReadManifest_RetE [OF _ man] simp: os_Open_def split: if_splits)
  then show "\<exists>es' h'. has_manifest t dir es' h' \<and> map geom es' = map geom es \<and>
      h_Version h' = h_Version h \<and> (h_Flags h' = h_Flags h \<or> h_Flags h' = h_Flags h OR FlagSparse)"
    using man WriteManifestFlags_has [OF _ has_manifest_count [OF man]] map_geom_norm
    by (metis manifestHeader_simps(2,3))
qed

interpretation compress_stage: image_stage "CompressDevice z" FlagCompressed
  "{''manifest.bin'', ''device.zst''}" for z
proof
  fix dir :: string and s t :: "'x os_state_scheme" and es h u
  show "keeps wf_os (CompressDevice z dir :: ('x os_state_scheme, unit) act)"
    unfolding CompressDevice_def WriteManifestFlags_def
    by (intro keeps_wf_os keeps_ReadManifest allI) (auto intro!: keeps_wf_os split: prod.split)
  show "keeps (sits (path_of dir @ [f]) x) (CompressDevice z dir :: ('x os_state_scheme, unit) act)"
    if "f \<notin> {''manifest.bin'', ''device.zst''}" for f x
    using that unfolding CompressDevice_def WriteManifestFlags_def deviceZst_def
    by (intro stage_frames allI) (auto intro!: stage_frames split: prod.split)
  show "keeps (sits q x) (CompressDevice z dir :: ('x os_state_scheme, unit) act)"
    if "\<not> prefix (path_of dir) q" for q x
    using that unfolding CompressDevice_def WriteManifestFlags_def deviceZst_def
    by (intro stage_frames allI) (auto intro!: stage_frames split: prod.split)
  show "''device.bin'' \<notin> {''manifest.bin'', ''device.zst''}" by simp
  assume wf: "wf_os s" and man: "has_manifest s dir es h" and run: "CompressDevice z dir s = (Ret u, t)"
  have kept: "has_manifest s1 dir es h" if "os_WriteFile (Join dir deviceZst) c s = (Ret v, s1)" for c v s1
    using os_WriteFile_node_at [OF that] man by (simp add: has_manifest_def deviceZst_def)
  from run obtain c v s1 es1 h1 s2 where wr: "os_WriteFile (Join dir deviceZst) c s = (Ret v, s1)"
    and rd: "ReadManifest (Join dir ''manifest.bin'') s1 = (Ret (es1, h1), s2)"
    and "WriteManifestFlags (Join dir ''manifest.bin'') es1 (h_Flags h1 OR FlagCompressed)
      (h_Version h1) s2 = (Ret u, t)"
    unfolding CompressDevice_def by (fastforce elim!: bindA_RetE simp: os_ReadFile_Ret_iff)
  moreover have "es1 = es" "h1 = h" using ReadManifest_RetE [OF rd kept [OF wr]] by simp_all
  ultimately show "\<exists>es' h'. has_manifest t dir es' h' \<and> map geom es' = map geom es \<and>
      h_Version h' = h_Version h \<and> (h_Flags h' = h_Flags h \<or> h_Flags h' = h_Flags h OR FlagCompressed)"
    using WriteManifestFlags_has [OF _ has_manifest_count [OF man]] map_geom_norm
    by (metis manifestHeader_simps(2,3))
qed

lemma dedupLoop_geom: "dedupLoop c name f es s = (Ret es', t) \<Longrightarrow> map geom es' = map geom es"
proof (induction es arbitrary: s es')
  case (Cons e es)
  from Cons.prems obtain s1 es1 where "dedupLoop c name f es s1 = (Ret es1, t)"
    and "map geom es' = geom e # map geom es1"
    by (auto elim!: bindA_RetE simp: geom_def)
  with Cons.IH show ?case by simp
qed simp

lemma keeps_dedupLoop: "(\<And>d. keeps P (cas_Put c d)) \<Longrightarrow> keeps P (dedupLoop c name f es)"
  by (induction es) (simp_all only: dedupLoop.simps keeps_rules)

interpretation dedup_stage: image_stage DedupDevice FlagDedup
  "{''manifest.bin'', ''device.map'', ''cas''}"
proof
  fix dir :: string and s t :: "'x os_state_scheme" and es h u
  show "keeps wf_os (DedupDevice dir :: ('x os_state_scheme, unit) act)"
    unfolding DedupDevice_def Let_def WriteManifestFlags_def NewCAS_def
    by (intro keeps_wf_os keeps_ReadManifest allI)
      (auto intro!: keeps_wf_os keeps_dedupLoop keeps_wf_cas_Put split: prod.split)
  show "keeps (sits (path_of dir @ [f]) x) (DedupDevice dir :: ('x os_state_scheme, unit) act)"
    if "f \<notin> {''manifest.bin'', ''device.map'', ''cas''}" for f x
  proof -
    have "keeps (sits (path_of dir @ [f]) x) (dedupLoop \<lparr>cas_Root = Join dir ''cas''\<rparr> name n es
        :: ('x os_state_scheme, _) act)" for name n es
      by (rule keeps_dedupLoop, rule keeps_sits_cas_Put) (use that in \<open>auto simp: prefix_snoc\<close>)
    then show ?thesis
      using that unfolding DedupDevice_def Let_def WriteManifestFlags_def NewCAS_def bindA_assoc bindA_retA
      by (auto intro!: stage_frames split: prod.split)
  qed
  show "keeps (sits q x) (DedupDevice dir :: ('x os_state_scheme, unit) act)"
    if far: "\<not> prefix (path_of dir) q" "\<not> prefix q (path_of dir)" for q x
  proof -
    have "keeps (sits q x) (dedupLoop \<lparr>cas_Root = Join dir ''cas''\<rparr> name n es
        :: ('x os_state_scheme, _) act)" for name n es
      by (rule keeps_dedupLoop, rule keeps_sits_cas_Put)
        (use far in \<open>auto simp: prefix_snoc dest: append_prefixD\<close>)
    moreover have "\<not> prefix q (path_of (Join dir ''cas''))" using far by (auto simp: prefix_snoc)
    ultimately show ?thesis
      using far unfolding DedupDevice_def Let_def WriteManifestFlags_def NewCAS_def bindA_assoc bindA_retA
      by (auto intro!: stage_frames split: prod.split)
  qed
  show "''device.bin'' \<notin> {''manifest.bin'', ''device.map'', ''cas''}" by simp
  assume wf: "wf_os s" and man: "has_manifest s dir es h" and run: "DedupDevice dir s = (Ret u, t)"
  from run obtain c name f es1 and s1 s2 s3 :: "'x os_state_scheme" where loop: "dedupLoop c name f es s1 = (Ret es1, s2)"
    and "WriteManifestFlags (Join dir ''manifest.bin'') es1 (h_Flags h OR FlagDedup)
      (h_Version h) s3 = (Ret u, t)"
    unfolding DedupDevice_def Let_def
    by (auto elim!: bindA_RetE dest!: ReadManifest_RetE [OF _ man])
  moreover have "map geom es1 = map geom es" using dedupLoop_geom [OF loop] .
  moreover have "length es1 < 2 ^ 32"
    using has_manifest_count [OF man] calculation(3) by (metis length_map)
  ultimately show "\<exists>es' h'. has_manifest t dir es' h' \<and> map geom es' = map geom es \<and>
      h_Version h' = h_Version h \<and> (h_Flags h' = h_Flags h \<or> h_Flags h' = h_Flags h OR FlagDedup)"
    using WriteManifestFlags_has map_geom_norm by (metis manifestHeader_simps(2,3))
qed

section \<open>Compression and deltas\<close>

text \<open>
  An image that has not been turned into a delta: \<open>device.bin\<close> is there, and when the
  manifest says compressed, \<open>device.zst\<close> decodes to the same bytes.
\<close>

definition intact :: "zstd \<Rightarrow> string \<Rightarrow> Entry list \<Rightarrow> bytes \<Rightarrow> 'x os_state_scheme \<Rightarrow> bool" where
  "intact z dir geo dev s \<longleftrightarrow> wf_os s \<and>
     (\<exists>es h. image_at s dir es h dev \<and> map geom es = geo \<and> \<not> HasFlag (h_Flags h) FlagDelta \<and>
        (HasFlag (h_Flags h) FlagCompressed \<longrightarrow>
           (\<exists>c. has_file s dir ''device.zst'' c \<and> z_Decode z c = Inr dev)))"

lemma raw_intact: "raw dir geo dev s \<Longrightarrow> intact z dir geo dev s"
  by (auto simp: raw_def intact_def plain_flags_def)

lemma keeps_intact:
  fixes m :: "('x os_state_scheme, 'a) act"
  assumes "\<And>f x. f \<in> {''manifest.bin'', ''device.bin'', ''device.zst''} \<Longrightarrow>
    keeps (sits (path_of dir @ [f]) x) m"
  shows "keeps (intact z dir geo dev) m"
proof (rule keepsI)
  fix s :: "'x os_state_scheme" assume i: "intact z dir geo dev s"
  obtain r t where run: "m s = (r, t)" by fastforce
  have wf: "wf_os s" using i by (simp add: intact_def)
  have same: "node_at t (path_of dir @ [f]) = node_at s (path_of dir @ [f])"
    if "f \<in> {''manifest.bin'', ''device.bin'', ''device.zst''}" for f
    using sitsD [OF assms [OF that] wf run] .
  have "wf_os t"
    using keepsD [OF assms [of "''manifest.bin''" "node_at s (path_of dir @ [''manifest.bin''])"] _ run] wf
    by (simp add: sits_def)
  with i same show "intact z dir geo dev (snd (m s))"
    by (simp add: intact_def image_at_def has_manifest_def has_file_def run)
qed

lemma keeps_sits_Decompress:
  "path_of d \<noteq> path_of dir \<Longrightarrow> keeps (sits (path_of dir @ [f]) x) (DecompressDevice z d)"
  unfolding DecompressDevice_def WriteManifestFlags_def
  by (auto intro!: stage_frames split: prod.split)

lemma keeps_readManifestHeader: "keeps P (readManifestHeader path)"
  unfolding readManifestHeader_def by (auto intro!: keeps_wf_os split: prod.split)

lemma keepsR_ApplyDelta_with:
  assumes "path_of d \<noteq> path_of dir" and "\<And>p. keepsR (intact z dir geo dev) (ensure p)"
  shows "keepsR (intact z dir geo dev) (ApplyDelta_with ensure d)"
proof -
  have "keeps (intact z dir geo dev) (os_write keep (Join d ''device.bin'') b)" for keep b
    using assms(1) by (intro keeps_intact keeps_sits) auto
  note steps = this keeps_pure keeps_tryA keeps_wf_os_reads keeps_ReadManifest
  note stepsR = steps [THEN keepsR_of_keeps]
  show ?thesis
    unfolding ApplyDelta_with_def Let_def
    by (intro keepsR_bindA stepsR steps)
      (auto intro!: keepsR_bindA stepsR steps assms(2) split: sum.split prod.split)
qed

text \<open>Decompression of the image itself writes the bytes that are already there.\<close>

lemma Decompress_intact:
  assumes "intact z dir geo dev s" and "DecompressDevice z d s = (Ret u, t)" and "path_of d = path_of dir"
  shows "intact z dir geo dev t"
proof -
  from assms(1) obtain es h where wf: "wf_os s" and man: "has_manifest s d es h"
    and dfile: "has_file s d ''device.bin'' dev" and geo: "map geom es = geo"
    and nd: "\<not> HasFlag (h_Flags h) FlagDelta"
    and zst: "HasFlag (h_Flags h) FlagCompressed \<Longrightarrow>
      \<exists>c. has_file s d ''device.zst'' c \<and> z_Decode z c = Inr dev"
    by (auto simp: intact_def image_at_def has_manifest_def has_file_def assms(3))
  show ?thesis
  proof (cases "HasFlag (h_Flags h) FlagCompressed")
    case False
    then have "t = s"
      using assms(2) has_manifest_read [OF man] by (simp add: DecompressDevice_def bindA_step)
    with assms(1) show ?thesis by simp
  next
    case True
    then obtain c where "has_file s d ''device.zst'' c" and "z_Decode z c = Inr dev" using zst by blast
    with assms(2) True has_manifest_read [OF man] obtain u' s1
      where wr: "os_WriteFile (Join d ''device.bin'') dev s = (Ret u', s1)"
        and wm: "WriteManifestFlags (Join d ''manifest.bin'') es
          (h_Flags h AND NOT FlagCompressed) (h_Version h) s1 = (Ret u, t)"
      by (auto simp: DecompressDevice_def bindA_step has_file_read deviceZst_def elim!: bindA_RetE)
    have "has_file t d ''device.bin'' dev"
      using os_WriteFile_node_at [OF wr] os_WriteFile_node_at [OF wm [unfolded WriteManifestFlags_def]]
      by (simp add: has_file_def)
    moreover have "wf_os t"
      using keepsD [OF keeps_wf_os_write keepsD [OF keeps_wf_os_write wf wr]
          wm [unfolded WriteManifestFlags_def]] .
    moreover have "has_manifest t d (map (entryNorm (h_Version h)) es)
        (manifestHeader es (h_Flags h AND NOT FlagCompressed) (h_Version h))"
      using WriteManifestFlags_has [OF wm has_manifest_count [OF man]] .
    ultimately show ?thesis
      using nd geo map_geom_norm unfolding intact_def image_at_def has_manifest_def has_file_def assms(3)
      by (metis HasFlag_simps(5,6) manifestHeader_simps(3))
  qed
qed

lemma Ensure_intact: "keepsR (intact z dir geo dev) (EnsureDeviceMaterialized n z d)"
proof (induction n arbitrary: d)
  case 0
  show ?case by (simp add: keepsR_def)
next
  case (Suc n)
  show ?case
  proof (cases "path_of d = path_of dir")
    case False
    have "keeps (intact z dir geo dev) (DecompressDevice z d)"
      using False by (intro keeps_intact keeps_sits_Decompress) auto
    note steps = this keeps_pure keeps_tryA keeps_wf_os_reads keeps_readManifestHeader
    note stepsR = steps [THEN keepsR_of_keeps] keepsR_ApplyDelta_with [OF False Suc.IH]
    show ?thesis
      unfolding EnsureDeviceMaterialized.simps
      by (intro keepsR_bindA stepsR steps) (auto intro!: stepsR steps keepsR_bindA split: sum.split)
  next
    case True
    show ?thesis
      unfolding keepsR_def
    proof (intro allI impI)
      fix s t :: "'a os_state_scheme" and u
      assume i: "intact z dir geo dev s" and run: "EnsureDeviceMaterialized (Suc n) z d s = (Ret u, t)"
      from i obtain es h where man: "has_manifest s d es h" and nd: "\<not> HasFlag (h_Flags h) FlagDelta"
        by (auto simp: intact_def image_at_def has_manifest_def True)
      from run nd has_manifest_header [OF man] have "t = s \<or> DecompressDevice z d s = (Ret u, t)"
        by (auto simp: bindA_step os_Stat_cases tryA_def bindA_def split: if_splits option.splits)
      with i Decompress_intact [OF i _ True] show "intact z dir geo dev t" by blast
    qed
  qed
qed

lemma Compress_intact:
  assumes "raw dir geo dev s" and "CompressDevice z dir s = (Ret u, t)"
    and law: "\<And>c. z_Encode z dev = Inr c \<Longrightarrow> z_Decode z c = Inr dev"
  shows "intact z dir geo dev t"
proof -
  from assms(1) obtain es h where wf: "wf_os s" and man: "has_manifest s dir es h"
    and dfile: "has_file s dir ''device.bin'' dev" and geo: "map geom es = geo" and pf: "plain_flags h"
    by (auto simp: raw_def image_at_def)
  have kept: "has_manifest s1 dir es h" if "os_WriteFile (Join dir deviceZst) c s = (Ret v, s1)" for c v s1
    using os_WriteFile_node_at [OF that] man by (simp add: has_manifest_def deviceZst_def)
  from assms(2) obtain c v s1 es1 h1 s2 where enc: "z_Encode z dev = Inr c"
    and wr: "os_WriteFile (Join dir deviceZst) c s = (Ret v, s1)"
    and rd: "ReadManifest (Join dir ''manifest.bin'') s1 = (Ret (es1, h1), s2)"
    and wm: "WriteManifestFlags (Join dir ''manifest.bin'') es1 (h_Flags h1 OR FlagCompressed)
      (h_Version h1) s2 = (Ret u, t)"
    using has_file_read [OF dfile]
    unfolding CompressDevice_def by (fastforce elim!: bindA_RetE)
  have eq: "es1 = es" "h1 = h" "s2 = s1" using ReadManifest_RetE [OF rd kept [OF wr]] by simp_all
  note files = os_WriteFile_node_at [OF wr] os_WriteFile_node_at [OF wm [unfolded WriteManifestFlags_def]]
  have "wf_os t"
    using keepsD [OF compress_stage.stage_wf wf assms(2)] .
  moreover have "has_file t dir ''device.bin'' dev" "has_file t dir ''device.zst'' c"
    using files dfile by (simp_all add: has_file_def deviceZst_def eq)
  moreover have "has_manifest t dir (map (entryNorm (h_Version h)) es)
      (manifestHeader es (h_Flags h OR FlagCompressed) (h_Version h))"
    using WriteManifestFlags_has [OF wm] has_manifest_count [OF man] by (simp add: eq)
  moreover have "\<not> HasFlag (h_Flags h OR FlagCompressed) FlagDelta" using pf by (simp add: plain_flags_def)
  ultimately show ?thesis
    using law [OF enc] geo map_geom_norm unfolding intact_def image_at_def
    by (metis manifestHeader_simps(3))
qed

lemma WriteDelta_carries:
  assumes "intact z dir geo dev s" and "WriteDelta n z dir par s = (Ret u, t)"
  shows "carries dir geo dev t"
proof -
  from assms(2) obtain u1 s1 u2 s2 where e1: "EnsureDeviceMaterialized n z par s = (Ret u1, s1)"
    and e2: "EnsureDeviceMaterialized n z dir s1 = (Ret u2, s2)"
    and rest: "bindA (ReadManifest (Join dir ''manifest.bin'')) (\<lambda>(entries, hdr).
       bindA (ReadManifest (Join par ''manifest.bin'')) (\<lambda>(parentEntries, _).
       bindA (os_ReadFile (Join dir ''device.bin'')) (\<lambda>curDev.
       bindA (liftA (deltaLoop (byPtr parentEntries) (readfile_backing curDev) entries [] [])) (\<lambda>(delta, patch).
         if delta = [] then retA ()
         else
           bindA (os_WriteFile (Join dir ''device.patch'') patch) (\<lambda>_.
           bindA (os_WriteFile (Join dir ''delta.bin'') (deltaBytes par delta)) (\<lambda>_.
             WriteManifestFlags (Join dir ''manifest.bin'') entries
               (h_Flags hdr OR FlagDelta) (h_Version hdr))))))) s2 = (Ret u, t)"
    unfolding WriteDelta_def by - (erule bindA_RetE, erule bindA_RetE, blast)
  have "intact z dir geo dev s2"
    using keepsRD [OF Ensure_intact keepsRD [OF Ensure_intact assms(1) e1] e2] .
  then obtain es h where man: "has_manifest s2 dir es h" and dfile: "has_file s2 dir ''device.bin'' dev"
    and geo: "map geom es = geo"
    by (auto simp: intact_def image_at_def)
  have pure: "ReadManifest (Join par ''manifest.bin'') s2 = (Ret r, s3) \<Longrightarrow> s3 = s2" for r s3
    using ReadManifest_pure [of "Join par ''manifest.bin''" s2] by simp
  from rest have "t = s2 \<or> (\<exists>patch recs v1 s3 v2 s4.
      os_WriteFile (Join dir ''device.patch'') patch s2 = (Ret v1, s3) \<and>
      os_WriteFile (Join dir ''delta.bin'') (deltaBytes par recs) s3 = (Ret v2, s4) \<and>
      WriteManifestFlags (Join dir ''manifest.bin'') es (h_Flags h OR FlagDelta) (h_Version h) s4 = (Ret u, t))"
    using has_file_read [OF dfile]
    by (auto elim!: bindA_RetE dest!: ReadManifest_RetE [OF _ man] pure split: if_splits)
  then show ?thesis
  proof (elim disjE exE conjE)
    assume "t = s2"
    with man dfile geo show ?thesis by (auto simp: carries_def image_at_def)
  next
    fix patch recs v1 s3 v2 s4
    assume w1: "os_WriteFile (Join dir ''device.patch'') patch s2 = (Ret v1, s3)"
      and w2: "os_WriteFile (Join dir ''delta.bin'') (deltaBytes par recs) s3 = (Ret v2, s4)"
      and wm: "WriteManifestFlags (Join dir ''manifest.bin'') es (h_Flags h OR FlagDelta) (h_Version h) s4 = (Ret u, t)"
    have "has_file t dir ''device.bin'' dev"
      using os_WriteFile_node_at [OF w1] os_WriteFile_node_at [OF w2]
        os_WriteFile_node_at [OF wm [unfolded WriteManifestFlags_def]] dfile
      by (simp add: has_file_def)
    then show ?thesis
      using WriteManifestFlags_has [OF wm has_manifest_count [OF man]] geo map_geom_norm
      unfolding carries_def image_at_def by metis
  qed
qed

lemma harmless_flags:
  "FlagSparse AND FlagDelta = 0" "FlagSparse AND FlagCompressed = 0"
  "FlagDedup AND FlagDelta = 0" "FlagDedup AND FlagCompressed = 0"
  by (simp_all add: flag_defs)

lemma ProcessImage_carries:
  assumes start: "raw dir geo dev s" and run: "ProcessImage n z dir opts s = (Ret u, t)"
    and law: "\<And>c. z_Encode z dev = Inr c \<Longrightarrow> z_Decode z c = Inr dev"
  shows "carries dir geo dev t"
proof -
  from run obtain u1 s1 u2 s2 u3 s3 u4
    where r1: "(if o_Sparse opts then ApplySparse dir else retA ()) s = (Ret u1, s1)"
      and r2: "(if o_Dedup opts then DedupDevice dir else retA ()) s1 = (Ret u2, s2)"
      and r3: "(if o_Compress opts then CompressDevice z dir else retA ()) s2 = (Ret u3, s3)"
      and r4: "(if o_Parent opts \<noteq> [] then WriteDelta n z dir (o_Parent opts) else retA ()) s3 = (Ret u4, t)"
    unfolding ProcessImage_def by (auto elim!: bindA_RetE)
  have "raw dir geo dev s1"
    using r1 start sparse_stage.stage_raw [OF harmless_flags(1,2) start] by (auto split: if_splits)
  then have "raw dir geo dev s2"
    using r2 dedup_stage.stage_raw [OF harmless_flags(3,4)] by (auto split: if_splits)
  then have "intact z dir geo dev s3"
    using r3 Compress_intact [OF _ _ law] raw_intact by (auto split: if_splits)
  then show ?thesis
    using r4 WriteDelta_carries [of z dir geo dev s3]
    by (auto simp: intact_def carries_def split: if_splits)
qed

end
