(* ===== verification/Image_Staging.thy ===== *)
theory Image_Staging
  imports Image_Pipeline
begin

text \<open>
  What \<open>WriteStaging\<close> and \<open>Finalize\<close> leave at the destination, for every outcome of
  every file system call on the way: the old image, nothing, or the complete new image.
\<close>

section \<open>The staging directory\<close>

text \<open>A destination whose last element is a plain name has its staging directory beside it.\<close>

lemma path_of_StageDir:
  "plain (base_part dest) \<Longrightarrow> path_of (StageDir dest) = butlast (path_of dest) @ [base_part dest @ ''.staging'']"
  unfolding StageDir_def by (rule path_of_suffix) (simp_all add: plain_suffix)

lemma path_of_dest: "plain (base_part dest) \<Longrightarrow> path_of dest = butlast (path_of dest) @ [base_part dest]"
  using path_of_dir_base [of dest] by simp

lemma StageDir_apart:
  assumes "plain (base_part dest)"
  shows "\<not> prefix (path_of dest) (path_of (StageDir dest))"
    and "\<not> prefix (path_of (StageDir dest)) (path_of dest)"
proof -
  have len: "length (path_of (StageDir dest)) = length (path_of dest)"
    using path_of_StageDir [OF assms] path_of_dest [OF assms]
    by (metis length_append_singleton)
  have "path_of dest \<noteq> path_of (StageDir dest)"
    unfolding path_of_StageDir [OF assms] by (subst path_of_dest [OF assms]) simp
  then show "\<not> prefix (path_of dest) (path_of (StageDir dest))"
    and "\<not> prefix (path_of (StageDir dest)) (path_of dest)"
    using len by (metis prefix_same_length)+
qed

lemma prefix_parallel_append: "\<not> prefix p q \<Longrightarrow> \<not> prefix q p \<Longrightarrow> \<not> prefix p (q @ r)"
  by (auto simp: prefix_append)

lemma StageDir_length:
  assumes "plain (base_part dest)"
  shows "Suc 0 < length (path_of dest)" and "Suc 0 < length (path_of (StageDir dest))"
proof -
  have "path_of (dir_part dest) \<noteq> []" by simp
  then have "0 < length (path_of (dir_part dest))" by blast
  then show "Suc 0 < length (path_of dest)" unfolding path_of_dir_base [OF assms] by simp
  then show "Suc 0 < length (path_of (StageDir dest))"
    unfolding path_of_StageDir [OF assms] by simp
qed

section \<open>Finalize\<close>

text \<open>The three things that can be at the destination.\<close>

definition tree_same :: "path \<Rightarrow> 'x os_state_scheme \<Rightarrow> 'x os_state_scheme \<Rightarrow> bool" where
  "tree_same p s t \<longleftrightarrow> (\<forall>r. node_at t (p @ r) = node_at s (p @ r))"

definition tree_gone :: "path \<Rightarrow> 'x os_state_scheme \<Rightarrow> bool" where
  "tree_gone p t \<longleftrightarrow> (\<forall>r. node_at t (p @ r) = None)"

text \<open>\<open>t\<close> has at \<open>q\<close> the tree \<open>s\<close> had at \<open>p\<close>, with the completion mark.\<close>

definition tree_moved :: "path \<Rightarrow> path \<Rightarrow> 'x os_state_scheme \<Rightarrow> 'x os_state_scheme \<Rightarrow> bool" where
  "tree_moved p q s t \<longleftrightarrow> (\<forall>r. node_at t (q @ r) =
     (if r = [''COMPLETE''] then Some (FileN (bytes_of (''1'' @ [CHR 0x0A]))) else node_at s (p @ r)))"

lemma completeName_path: "path_of (Join d completeName) = path_of d @ [''COMPLETE'']"
  by (simp add: completeName_def)

lemma os_RemoveAll_result:
  assumes "os_RemoveAll name s = (r, t)" and "name \<noteq> []"
  shows "r = Ret () \<and> (\<forall>q. node_at t q = (if prefix (path_of name) q then None else node_at s q)) \<or>
    (\<exists>e. r = Err e \<and> t = pop_fault s)"
  using assms by (auto simp: os_RemoveAll_def Let_def node_at_remove_tree split: if_splits)

lemma os_Rename_result:
  assumes "os_Rename old new s = (r, t)" and "wf_os s" and "path_of old \<noteq> path_of new"
  shows "r = Ret () \<and> (\<forall>k. node_at t k =
       (if prefix (path_of new) k then node_at s (path_of old @ drop (length (path_of new)) k)
        else if prefix (path_of old) k then None else node_at s k)) \<or>
    (\<exists>e. r = Err e \<and> t = pop_fault s)"
proof -
  consider u where "r = Ret u" | e where "r = Err e" using os_Rename_fst [of old new s] assms(1) by auto
  then show ?thesis
    using os_Rename_node_at [of old new s] os_Rename_Err [of old new s] assms by cases auto
qed

lemma os_write_result:
  assumes "os_write keep name b s = (r, t)"
  shows "r = Ret () \<or> (\<exists>e. r = Err e)"
  using assms
  by (auto simp: os_write_def Let_def open_for_write_def split: if_splits option.splits node.splits fault.splits)

lemma Finalize_cases:
  assumes run: "Finalize (StageDir dest) dest s = (r, t)" and wf: "wf_os s" and pl: "plain (base_part dest)"
  shows "r = Ret () \<and> tree_moved (path_of (StageDir dest)) (path_of dest) s t \<and>
           tree_gone (path_of (StageDir dest)) t \<or>
         (\<exists>e. r = Err e) \<and> (tree_same (path_of dest) s t \<or> tree_gone (path_of dest) t)"
proof -
  let ?st = "path_of (StageDir dest)" and ?d = "path_of dest"
  note apart = StageDir_apart [OF pl]
  have ne: "dest \<noteq> []" using pl by (auto simp: base_part_def plain_def)
  obtain r1 s1 where wr: "os_WriteFile (Join (StageDir dest) completeName) (bytes_of (''1'' @ [CHR 0x0A])) s = (r1, s1)"
    by fastforce
  have far: "?d @ k \<noteq> ?st @ [''COMPLETE'']" for k
    using apart by (metis prefixI prefix_parallel_append)
  have same1: "tree_same ?d s s1"
    using os_write_other [OF wr] far by (simp add: tree_same_def completeName_path)
  have wf1: "wf_os s1" using keepsD [OF keeps_wf_os_write wf wr] .
  show ?thesis
  proof (cases "r1 = Ret ()")
    case False
    then obtain e where "r1 = Err e" using os_write_result [OF wr] by blast
    then show ?thesis using run wr same1 by (auto simp: Finalize_def bindA_step)
  next
    case True
    obtain r2 s2 where rm: "os_RemoveAll dest s1 = (r2, s2)" by fastforce
    have wf2: "wf_os s2" using keepsD [OF keeps_wf_os_RemoveAll wf1 rm] .
    obtain r3 s3 where rn: "os_Rename (StageDir dest) dest s2 = (r3, s3)" by fastforce
    have neq: "?st \<noteq> ?d" using apart by auto
    from run wr True have run': "(case tryA (os_RemoveAll dest) s1 of (Ret (Inl err), s2) \<Rightarrow>
          (if \<not> IsNotExist err then errA err else os_Rename (StageDir dest) dest) s2
        | (Ret (Inr _), s2) \<Rightarrow> os_Rename (StageDir dest) dest s2) = (r, t)"
      using os_RemoveAll_result [OF rm ne] rm
      by (auto simp: Finalize_def bindA_step tryA_step bindA_def)
    from os_RemoveAll_result [OF rm ne] show ?thesis
    proof (elim disjE conjE exE)
      assume r2: "r2 = Ret ()" and at2: "\<forall>q. node_at s2 q = (if prefix ?d q then None else node_at s1 q)"
      have rt: "r = r3" "t = s3" using run' rm r2 rn by (simp_all add: tryA_step)
      have staged: "node_at s2 (?st @ k) = node_at s1 (?st @ k)" for k
        using at2 prefix_parallel_append apart by metis
      have mark: "node_at s1 (?st @ k) = (if k = [''COMPLETE''] then Some (FileN (bytes_of (''1'' @ [CHR 0x0A])))
          else node_at s (?st @ k))" for k
        using os_WriteFile_node_at [of _ _ s "()" s1] wr True by (simp add: completeName_path)
      from os_Rename_result [OF rn wf2 neq] show ?thesis
      proof (elim disjE conjE exE)
        assume "r3 = Ret ()" and "\<forall>k. node_at s3 k = (if prefix ?d k then node_at s2 (?st @ drop (length ?d) k)
            else if prefix ?st k then None else node_at s2 k)"
        moreover have "\<not> prefix ?d (?st @ k)" for k using apart prefix_parallel_append by blast
        ultimately show ?thesis
          using rt staged mark by (simp add: tree_moved_def tree_gone_def)
      next
        fix e assume "r3 = Err e" and "s3 = pop_fault s2"
        then show ?thesis using rt at2 by (simp add: tree_gone_def)
      qed
    next
      fix e assume r2: "r2 = Err e" and s2: "s2 = pop_fault s1"
      have d2: "tree_same ?d s s2" using same1 s2 by (simp add: tree_same_def)
      show ?thesis
      proof (cases "IsNotExist e")
        case False
        then show ?thesis using run' rm r2 d2 by (auto simp: tryA_step)
      next
        case True
        have "IsNotExist e \<Longrightarrow> False"
          using rm r2 by (auto simp: os_RemoveAll_def Let_def split: if_splits)
        with True show ?thesis by blast
      qed
    qed
  qed
qed

section \<open>WriteStaging\<close>

lemma StageDir_nonempty [simp]: "StageDir d \<noteq> []"
  by (simp add: StageDir_def)

lemma keeps_tree_same:
  assumes "\<And>k x. keeps (sits (p @ k) x) m" and "wf_os s" and "m s = (r, t)"
  shows "tree_same p s t"
  using sitsD [OF assms(1,2,3)] by (simp add: tree_same_def)

lemma tree_same_trans: "tree_same p s t \<Longrightarrow> tree_same p t u \<Longrightarrow> tree_same p s u"
  by (simp add: tree_same_def)

lemma tree_same_gone: "tree_same p s t \<Longrightarrow> tree_same p t u \<or> tree_gone p u \<Longrightarrow> tree_same p s u \<or> tree_gone p u"
  by (auto simp: tree_same_def)

lemma RemoveAll_apart:
  assumes "os_RemoveAll name s = (r, t)" and "wf_os s"
    and "\<not> prefix (path_of name) p" and "\<not> prefix p (path_of name)"
  shows "tree_same p s t"
proof -
  have "keeps (sits (p @ k) x) (os_RemoveAll name)" for k x
    using assms(3,4) by (intro keeps_sits_RemoveAll prefix_parallel_append)
  then show ?thesis using keeps_tree_same [of p "os_RemoveAll name" s r t] assms(1,2) by blast
qed

lemma MkdirAll_apart:
  assumes "os_MkdirAll name s = (r, t)" and "wf_os s" and "\<not> prefix p (path_of name)"
  shows "tree_same p s t"
proof -
  have "keeps (sits (p @ k) x) (os_MkdirAll name)" for k x
    using assms(3) by (intro keeps_sits_MkdirAll) (auto dest: append_prefixD)
  then show ?thesis using keeps_tree_same [of p "os_MkdirAll name" s r t] assms(1,2) by blast
qed

text \<open>The part of \<open>WriteStaging\<close> before the callback runs.\<close>

definition stage_ready :: "string \<Rightarrow> 'x os_state_scheme \<Rightarrow> 'x os_state_scheme \<Rightarrow> bool" where
  "stage_ready dest s s1 \<longleftrightarrow> wf_os s1 \<and> tree_same (path_of dest) s s1 \<and>
     node_at s1 (path_of (StageDir dest)) = Some DirN \<and>
     (next_fault s = Pass \<longrightarrow> (\<forall>k. k \<noteq> [] \<longrightarrow> node_at s1 (path_of (StageDir dest) @ k) = None))"

lemma RemoveAll_StageDir_passes:
  assumes "os_RemoveAll (StageDir dest) s = (r, s1)" and "next_fault s = Pass"
    and "plain (base_part dest)" and "os_MkdirAll (StageDir dest) s1 = (Ret u, s2)"
  shows "node_at s1 (path_of (StageDir dest) @ k) = None"
proof -
  have len: "Suc 0 < length (path_of (StageDir dest))" using StageDir_length [OF assms(3)] by simp
  have suf: "\<not> HasSuffix (StageDir dest) ''/.''"
  proof
    assume "HasSuffix (StageDir dest) ''/.''"
    then have "last (StageDir dest) = CHR ''.''" by (auto simp: HasSuffix_def suffix_def)
    then show False by (simp add: StageDir_def)
  qed
  have "missing_errno s (path_of (StageDir dest)) \<noteq> ENOTDIR \<or> s1 \<noteq> pop_fault s"
  proof (rule ccontr)
    assume "\<not> ?thesis"
    then have "missing_errno s (path_of (StageDir dest)) = ENOTDIR" and s1: "s1 = pop_fault s" by simp_all
    from missing_errno_ENOTDIR [OF this(1)] obtain q where "prefix q (path_of (StageDir dest))"
      and "node_at s1 q \<noteq> None" "node_at s1 q \<noteq> Some DirN"
      by (auto simp: s1)
    with os_MkdirAll_Ret(2) [OF assms(4), of q] show False by simp
  qed
  moreover have "missing_errno (pop_fault s) p = missing_errno s p" for p by (simp add: missing_errno_def)
  ultimately show ?thesis
    using assms(1,2) len suf
    by (auto simp: os_RemoveAll_def Let_def node_at_remove_tree split: if_splits)
qed

lemma WriteStaging_run:
  assumes run: "WriteStaging dest fn s = (r, t)" and wf: "wf_os s" and pl: "plain (base_part dest)"
  obtains e where "r = Err e" and "tree_same (path_of dest) s t"
  | s1 where "stage_ready dest s s1" and
      "bindA (tryA (fn (StageDir dest))) (\<lambda>r. case r of
         Inl err \<Rightarrow> bindA (tryA (os_RemoveAll (StageDir dest))) (\<lambda>_. errA err)
       | Inr _ \<Rightarrow> Finalize (StageDir dest) dest) s1 = (r, t)"
proof -
  let ?st = "StageDir dest" and ?d = "path_of dest"
  note apart = StageDir_apart [OF pl]
  obtain r0 s0 where rm: "os_RemoveAll ?st s = (r0, s0)" by fastforce
  obtain r1 s1 where mk: "os_MkdirAll ?st s0 = (r1, s1)" by fastforce
  have wf0: "wf_os s0" using keepsD [OF keeps_wf_os_RemoveAll wf rm] .
  have same0: "tree_same ?d s s0" using RemoveAll_apart [OF rm wf apart(2,1)] .
  have same1: "tree_same ?d s s1"
    using tree_same_trans [OF same0 MkdirAll_apart [OF mk wf0 apart(1)]] .
  obtain x s0' where tr: "tryA (os_RemoveAll ?st) s = (Ret x, s0')" and "s0' = s0"
    using os_RemoveAll_result [OF rm] rm by (auto simp: tryA_step)
  then have run': "bindA (os_MkdirAll ?st) (\<lambda>_. bindA (tryA (fn ?st)) (\<lambda>r. case r of
         Inl err \<Rightarrow> bindA (tryA (os_RemoveAll ?st)) (\<lambda>_. errA err)
       | Inr _ \<Rightarrow> Finalize ?st dest)) s0 = (r, t)"
    using run by (simp add: WriteStaging_def Let_def bindA_step)
  show thesis
  proof (cases "\<exists>u. r1 = Ret u")
    case False
    then obtain e where "r1 = Err e"
      using mk by (auto simp: os_MkdirAll_def Let_def split: if_splits)
    then show thesis using that(1) run' mk same1 by (auto simp: bindA_step)
  next
    case True
    then obtain u where mk': "os_MkdirAll ?st s0 = (Ret u, s1)" using mk by blast
    have "node_at s1 (path_of ?st @ k) = None" if "next_fault s = Pass" "k \<noteq> []" for k
    proof -
      have "node_at s0 (path_of ?st @ k) = None"
        using RemoveAll_StageDir_passes [OF rm that(1) pl mk'] .
      moreover have "\<not> prefix (path_of ?st @ k) (path_of ?st)"
        using that(2) by (auto dest: prefix_length_le)
      ultimately show ?thesis using os_MkdirAll_node_at [OF mk'] by simp
    qed
    then have "stage_ready dest s s1"
      using same1 keepsD [OF keeps_wf_os_MkdirAll wf0 mk] os_MkdirAll_node_at [OF mk', of "path_of ?st"]
      by (simp add: stage_ready_def)
    then show thesis using that(2) run' mk' by (simp add: bindA_step)
  qed
qed

text \<open>The callback must stay out of the destination; the passes of the pipeline do.\<close>

definition stays_out :: "string \<Rightarrow> (string \<Rightarrow> ('x os_state_scheme, unit) act) \<Rightarrow> bool" where
  "stays_out dest fn \<longleftrightarrow> keeps wf_os (fn (StageDir dest)) \<and>
     (\<forall>k x. keeps (sits (path_of dest @ k) x) (fn (StageDir dest)))"

lemma stays_out_run:
  assumes "stays_out dest fn" and "wf_os s" and "fn (StageDir dest) s = (r, t)"
  shows "wf_os t" and "tree_same (path_of dest) s t"
proof -
  have k: "keeps wf_os (fn (StageDir dest))" "keeps (sits (path_of dest @ k) x) (fn (StageDir dest))" for k x
    using assms(1) by (simp_all add: stays_out_def)
  show "wf_os t" using keepsD [OF k(1) assms(2,3)] .
  show "tree_same (path_of dest) s t"
    using sitsD [OF k(2) assms(2,3)] by (simp add: tree_same_def)
qed

lemma WriteStaging_cases:
  assumes run: "WriteStaging dest fn s = (r, t)" and wf: "wf_os s" and pl: "plain (base_part dest)"
    and out: "stays_out dest fn"
  shows "r \<noteq> Ret () \<and> (tree_same (path_of dest) s t \<or> tree_gone (path_of dest) t) \<or>
    r = Ret () \<and> tree_gone (path_of (StageDir dest)) t \<and>
    (\<exists>s1 s2. stage_ready dest s s1 \<and> fn (StageDir dest) s1 = (Ret (), s2) \<and>
       tree_moved (path_of (StageDir dest)) (path_of dest) s2 t)"
  using run wf pl
proof (cases rule: WriteStaging_run)
  case (2 s1)
  let ?st = "StageDir dest" and ?d = "path_of dest"
  obtain r2 s2 where f: "fn ?st s1 = (r2, s2)" by fastforce
  have ready: "wf_os s1" "tree_same ?d s s1" using 2(1) by (simp_all add: stage_ready_def)
  note wf2 = stays_out_run(1) [OF out ready(1) f]
  note same = tree_same_trans [OF ready(2) stays_out_run(2) [OF out ready(1) f]]
  show ?thesis
  proof (cases r2)
    case (Ret u)
    then have "Finalize ?st dest s2 = (r, t)" using 2(2) f by (simp add: bindA_step tryA_step)
    from Finalize_cases [OF this wf2 pl] show ?thesis
      using 2(1) f Ret tree_same_gone [OF same] by auto
  next
    case (Err e)
    obtain r3 s3 where rm: "os_RemoveAll ?st s2 = (r3, s3)" by fastforce
    obtain x where "tryA (os_RemoveAll ?st) s2 = (Ret x, s3)"
      using os_RemoveAll_result [OF rm] rm by (auto simp: tryA_step)
    then have "r = Err e" "t = s3" using 2(2) f Err by (simp_all add: bindA_step tryA_step)
    then show ?thesis
      using tree_same_trans [OF same RemoveAll_apart [OF rm wf2]] StageDir_apart [OF pl] by simp
  qed (use 2(2) f same in \<open>auto simp: bindA_step tryA_step\<close>)
qed auto

text \<open>A callback that fails leaves the old image alone.\<close>

lemma WriteStaging_failed:
  assumes run: "WriteStaging dest fn s = (r, t)" and wf: "wf_os s" and pl: "plain (base_part dest)"
    and out: "stays_out dest fn" and fails: "\<And>s1. \<exists>e s2. fn (StageDir dest) s1 = (Err e, s2)"
  shows "(\<exists>e. r = Err e) \<and> tree_same (path_of dest) s t"
  using run wf pl
proof (cases rule: WriteStaging_run)
  case (2 s1)
  let ?st = "StageDir dest" and ?d = "path_of dest"
  obtain e s2 where f: "fn ?st s1 = (Err e, s2)" using fails by blast
  have ready: "wf_os s1" "tree_same ?d s s1" using 2(1) by (simp_all add: stage_ready_def)
  note wf2 = stays_out_run(1) [OF out ready(1) f]
  note same = tree_same_trans [OF ready(2) stays_out_run(2) [OF out ready(1) f]]
  obtain r3 s3 where rm: "os_RemoveAll ?st s2 = (r3, s3)" by fastforce
  obtain x where "tryA (os_RemoveAll ?st) s2 = (Ret x, s3)"
    using os_RemoveAll_result [OF rm] rm by (auto simp: tryA_step)
  then have "r = Err e" "t = s3" using 2(2) f by (simp_all add: bindA_step tryA_step)
  then show ?thesis
    using tree_same_trans [OF same RemoveAll_apart [OF rm wf2]] StageDir_apart [OF pl] by simp
qed auto

lemma ProcessImage_stays_out:
  assumes "plain (base_part dest)" and "o_Parent opts = []"
  shows "stays_out dest (\<lambda>staging. ProcessImage n z staging opts)"
proof -
  have far: "\<not> prefix (path_of (StageDir dest)) (path_of dest @ k)"
    "\<not> prefix (path_of dest @ k) (path_of (StageDir dest))" for k
    using StageDir_apart [OF assms(1)] prefix_parallel_append append_prefixD by blast+
  show ?thesis
    using assms(2) unfolding stays_out_def ProcessImage_def
    by (auto intro!: keeps_rules sparse_stage.stage_wf dedup_stage.stage_wf compress_stage.stage_wf
        sparse_stage.stage_outside dedup_stage.stage_outside compress_stage.stage_outside far)
qed

lemma stays_out_bind:
  "stays_out dest f \<Longrightarrow> stays_out dest g \<Longrightarrow> stays_out dest (\<lambda>st. bindA (f st) (\<lambda>_. g st))"
  by (auto simp: stays_out_def intro!: keeps_bindA)

end
