(* ===== verification/Retention.thy ===== *)
theory Retention
  imports Image_Staging
begin

text \<open>
  \<open>pkg/control/retention.go\<close>: which images the garbage collector removes. The plan is
  computed from one look at the directory; removing stops at the first error. Times are
  integers (nanoseconds), durations too; \<open>None\<close> is the zero time.
\<close>

section \<open>Definitions\<close>

record GCOptions =
  g_Root :: string
  g_MaxAge :: int
  g_PinFile :: string
  g_Now :: "int option"

record GCPlan =
  p_Remove :: "string list"
  p_Keep :: "string list"

definition ErrTooLong :: goerr where
  "ErrTooLong = FmtError ''bufio.Scanner: token too long''"

text \<open>The set of pinned paths is a list without regard to order and repetition.\<close>

definition pinnedLines :: "string list \<Rightarrow> string list" where
  "pinnedLines ls =
     map Clean (filter (\<lambda>l. \<not> (l = [] \<or> HasPrefix l ''#'')) (map TrimSpace ls))"

definition LoadPinnedPaths :: "string \<Rightarrow> ('x os_state_scheme, string list) act" where
  "LoadPinnedPaths path =
     (if path = [] then retA []
      else bindA (tryA (os_Open path)) (\<lambda>f. case f of
        Inl err \<Rightarrow> if IsNotExist err then retA [] else errA err
      | Inr n \<Rightarrow>
          bindA (liftA (file_bytes path n)) (\<lambda>b.
            let (ls, long) = scan_text (string_of b) in
            if long then errA ErrTooLong else retA (pinnedLines ls))))"

datatype gc_choice = GCSkip | GCKeep | GCRemove

definition gcChoose :: "GCOptions \<Rightarrow> string list \<Rightarrow> 'x os_state_scheme \<Rightarrow> string \<times> node \<Rightarrow> gc_choice" where
  "gcChoose opts pinned s e =
     (let (name, n) = e; path = Join (g_Root opts) name in
      if n \<noteq> DirN then GCSkip
      else if Clean path \<in> set pinned then GCKeep
      else if HasSuffix name ''.staging'' then GCRemove
      else if fst (IsComplete path s) \<noteq> Ret True then GCKeep
      else (case fst (os_Stat path s) of
          Ret _ \<Rightarrow>
            if 0 < g_MaxAge opts \<and>
               g_MaxAge opts \<le> (case g_Now opts of None \<Rightarrow> clock s | Some t \<Rightarrow> t) - mtimes s (path_of path)
            then GCRemove else GCKeep
        | _ \<Rightarrow> GCSkip))"

definition PlanImageGC :: "GCOptions \<Rightarrow> ('x os_state_scheme, GCPlan) act" where
  "PlanImageGC opts0 =
     (let opts = (if g_Root opts0 = [] then opts0\<lparr>g_Root := ''/var/lib/cudackpt''\<rparr> else opts0) in
      bindA (LoadPinnedPaths (g_PinFile opts)) (\<lambda>pinned.
      bindA (tryA (os_ReadDir (g_Root opts))) (\<lambda>r. case r of
        Inl err \<Rightarrow> if IsNotExist err then retA \<lparr>p_Remove = [], p_Keep = []\<rparr> else errA err
      | Inr ents \<Rightarrow> readA (\<lambda>s.
          let pick = (\<lambda>c. map (\<lambda>e. Join (g_Root opts) (fst e)) (filter (\<lambda>e. gcChoose opts pinned s e = c) ents))
          in Ret \<lparr>p_Remove = pick GCRemove, p_Keep = pick GCKeep\<rparr>))))"

text \<open>Go returns the paths removed so far together with the error.\<close>

fun gcApply :: "string list \<Rightarrow> bool \<Rightarrow> string list \<Rightarrow> ('x os_state_scheme, string list \<times> goerr option) act" where
  "gcApply [] dryRun removed = retA (removed, None)"
| "gcApply (path # ps) dryRun removed =
     (if dryRun then gcApply ps dryRun (removed @ [path])
      else bindA (tryA (os_RemoveAll path)) (\<lambda>r. case r of
        Inl err \<Rightarrow> retA (removed, Some err)
      | Inr _ \<Rightarrow> gcApply ps dryRun (removed @ [path])))"

definition ApplyGCPlan :: "GCPlan \<Rightarrow> bool \<Rightarrow> ('x os_state_scheme, string list \<times> goerr option) act" where
  "ApplyGCPlan plan dryRun = gcApply (p_Remove plan) dryRun []"

definition RunImageGC :: "GCOptions \<Rightarrow> bool \<Rightarrow> ('x os_state_scheme, GCPlan \<times> string list \<times> goerr option) act" where
  "RunImageGC opts dryRun =
     bindA (PlanImageGC opts) (\<lambda>plan.
     bindA (ApplyGCPlan plan dryRun) (\<lambda>(removed, err). retA (plan, removed, err)))"

section \<open>Reading the plan\<close>

lemma keeps_LoadPinnedPaths: "keeps P (LoadPinnedPaths path)"
  by (auto simp: LoadPinnedPaths_def Let_def intro!: keeps_rules keeps_wf_os_reads split: sum.split prod.split)

lemma keeps_PlanImageGC: "keeps P (PlanImageGC opts)"
  unfolding PlanImageGC_def Let_def
  by (auto intro!: keeps_rules keeps_wf_os_reads keeps_LoadPinnedPaths split: sum.split)

lemma LoadPinnedPaths_pure: "snd (LoadPinnedPaths path s) = s"
  using keeps_LoadPinnedPaths [of "\<lambda>t. t = s"] by (simp add: keeps_def)

lemma PlanImageGC_pure: "snd (PlanImageGC opts s) = s"
  using keeps_PlanImageGC [of "\<lambda>t. t = s"] by (simp add: keeps_def)

definition gcRoot :: "GCOptions \<Rightarrow> string" where
  "gcRoot opts = (if g_Root opts = [] then ''/var/lib/cudackpt'' else g_Root opts)"

definition rooted_opts :: "GCOptions \<Rightarrow> GCOptions" where
  "rooted_opts opts = opts\<lparr>g_Root := gcRoot opts\<rparr>"

lemma PlanImageGC_Ret:
  assumes "PlanImageGC opts s = (Ret plan, t)" and "p \<in> set (p_Remove plan)"
  obtains pinned name n where "LoadPinnedPaths (g_PinFile opts) s = (Ret pinned, s)"
    and "name \<in> set (children s (path_of (gcRoot opts)))" and "p = Join (gcRoot opts) name"
    and "node_at s (path_of (gcRoot opts) @ [name]) = Some n \<or> n = the (node_at s (path_of (gcRoot opts) @ [name]))"
    and "gcChoose (rooted_opts opts) pinned s (name, n) = GCRemove"
proof -
  have ro: "(if g_Root opts = [] then opts\<lparr>g_Root := ''/var/lib/cudackpt''\<rparr> else opts) = rooted_opts opts"
    by (simp add: rooted_opts_def gcRoot_def)
  have pf: "g_PinFile (rooted_opts opts) = g_PinFile opts" "g_Root (rooted_opts opts) = gcRoot opts"
    by (simp_all add: rooted_opts_def)
  from assms(1) obtain pinned s1 where ld: "LoadPinnedPaths (g_PinFile opts) s = (Ret pinned, s1)"
    and rest: "bindA (tryA (os_ReadDir (gcRoot opts))) (\<lambda>r. case r of
        Inl err \<Rightarrow> if IsNotExist err then retA \<lparr>p_Remove = [], p_Keep = []\<rparr> else errA err
      | Inr ents \<Rightarrow> readA (\<lambda>s.
          let pick = (\<lambda>c. map (\<lambda>e. Join (gcRoot opts) (fst e)) (filter (\<lambda>e. gcChoose (rooted_opts opts) pinned s e = c) ents))
          in Ret \<lparr>p_Remove = pick GCRemove, p_Keep = pick GCKeep\<rparr>)) s1 = (Ret plan, t)"
    unfolding PlanImageGC_def Let_def ro pf by (rule bindA_RetE)
  have s1: "s1 = s" using LoadPinnedPaths_pure [of "g_PinFile opts" s] ld by simp
  from rest assms(2) obtain ents where
    dir: "os_ReadDir (gcRoot opts) s = (Ret ents, s)"
    and "p \<in> (\<lambda>e. Join (gcRoot opts) (fst e)) ` {e \<in> set ents. gcChoose (rooted_opts opts) pinned s e = GCRemove}"
    unfolding s1
    by (auto elim!: bindA_RetE tryA_RetE simp: Let_def os_ReadDir_def split: if_splits sum.splits)
  then obtain name n where e: "(name, n) \<in> set ents" "p = Join (gcRoot opts) name"
    "gcChoose (rooted_opts opts) pinned s (name, n) = GCRemove"
    by auto
  moreover have "name \<in> set (children s (path_of (gcRoot opts)))"
    "n = the (node_at s (path_of (gcRoot opts) @ [name]))"
    using dir e(1) by (auto simp: os_ReadDir_def split: option.splits node.splits)
  ultimately show thesis using that ld s1 by blast
qed

text \<open>Removing touches only what the plan names.\<close>

lemma keeps_gcApply:
  assumes "\<forall>p \<in> set ps. \<not> prefix (path_of p) q"
  shows "keeps (sits q x) (gcApply ps dryRun removed)"
  using assms
proof (induction ps arbitrary: removed)
  case (Cons p ps)
  then show ?case
    by (cases dryRun) (auto intro!: keeps_bindA keeps_tryA keeps_pure keeps_sits_RemoveAll split: sum.split)
qed (simp add: keeps_pure)

text \<open>An image directory the collector must leave alone.\<close>

definition gc_protected :: "GCOptions \<Rightarrow> string list \<Rightarrow> 'x os_state_scheme \<Rightarrow> string \<Rightarrow> bool" where
  "gc_protected opts pinned s name \<longleftrightarrow>
     (let path = Join (gcRoot opts) name in
      Clean path \<in> set pinned \<or>
      \<not> HasSuffix name ''.staging'' \<and>
        (node_at s (path_of path @ [''COMPLETE'']) = None \<or> g_MaxAge opts \<le> 0 \<or>
         (case g_Now opts of None \<Rightarrow> clock s | Some t \<Rightarrow> t) - mtimes s (path_of path) < g_MaxAge opts))"

lemma IsComplete_iff: "IsComplete dir s = (Ret (node_at s (path_of dir @ [''COMPLETE'']) \<noteq> None), s)"
  by (auto simp: IsComplete_def completeName_path bindA_def tryA_def os_Stat_cases split: option.splits)

lemma gcChoose_protected:
  assumes "gc_protected opts pinned s name"
  shows "gcChoose (rooted_opts opts) pinned s (name, n) \<noteq> GCRemove"
  using assms
  by (auto simp: gcChoose_def gc_protected_def rooted_opts_def Let_def IsComplete_iff os_Stat_cases
      split: option.splits if_splits)

lemma gc_frame:
  assumes run: "RunImageGC opts dryRun s = (Ret (plan, removed, err), t)" and wf: "wf_os s"
    and out: "\<forall>p \<in> set (p_Remove plan). \<not> prefix (path_of p) q"
  shows "node_at t q = node_at s q"
proof -
  from run obtain s1 where pl: "PlanImageGC opts s = (Ret plan, s1)"
    and ap: "gcApply (p_Remove plan) dryRun [] s1 = (Ret (removed, err), t)"
    by (auto simp: RunImageGC_def ApplyGCPlan_def elim!: bindA_RetE)
  have "s1 = s" using PlanImageGC_pure [of opts s] pl by simp
  with sitsD [OF keeps_gcApply [OF out] _ ap] wf show ?thesis by simp
qed

lemma gc_protected_frame:
  assumes run: "RunImageGC opts dryRun s = (Ret (plan, removed, err), t)" and wf: "wf_os s"
    and names: "\<forall>w \<in> set (children s (path_of (gcRoot opts))). plain w"
    and pins: "LoadPinnedPaths (g_PinFile opts) s = (Ret pinned, s)" and name: "plain name"
    and prot: "gc_protected opts pinned s name"
  shows "tree_same (path_of (gcRoot opts) @ [name]) s t"
  unfolding tree_same_def
proof
  fix r
  from run obtain s1 where pl: "PlanImageGC opts s = (Ret plan, s1)"
    by (auto simp: RunImageGC_def elim!: bindA_RetE)
  have "\<not> prefix (path_of p) ((path_of (gcRoot opts) @ [name]) @ r)" if "p \<in> set (p_Remove plan)" for p
  proof -
    from PlanImageGC_Ret [OF pl that] obtain pinned' name' n where
      "LoadPinnedPaths (g_PinFile opts) s = (Ret pinned', s)"
      and n': "name' \<in> set (children s (path_of (gcRoot opts)))" and p: "p = Join (gcRoot opts) name'"
      and ch: "gcChoose (rooted_opts opts) pinned' s (name', n) = GCRemove"
      by metis
    then have "pinned' = pinned" using pins by simp
    then have "name' \<noteq> name" using ch gcChoose_protected [OF prot] by metis
    moreover have "plain name'" using names n' by blast
    ultimately show ?thesis by (simp add: p)
  qed
  then show "node_at t ((path_of (gcRoot opts) @ [name]) @ r) = node_at s ((path_of (gcRoot opts) @ [name]) @ r)"
    by (intro gc_frame [OF run wf]) blast
qed

end
