(* ===== verification/Image_Meta.thy ===== *)
theory Image_Meta
  imports Codec Go_Os_Laws
begin

text \<open>
  \<open>pkg/image/meta.go\<close>: the \<open>meta.bin\<close> sidecar (process id, device, the
  \<open>LD_PRELOAD\<close> and \<open>CUDA_VISIBLE_DEVICES\<close> values to restore under) and the device
  index of \<open>dev.bin\<close>. The writer fills a buffer of exactly \<open>24 + len + len\<close> bytes at
  increasing offsets, which is the concatenation below.
\<close>

section \<open>Definitions\<close>

definition MetaMagic :: u32 where "MetaMagic = 0x4d435054"

record Meta =
  m_Magic :: u32
  m_Version :: u16
  m_Flags :: u16
  m_Pid :: u32
  m_Dev :: u32
  m_Preload :: string
  m_Visible :: string

definition metaBytes :: "Meta \<Rightarrow> bytes" where
  "metaBytes m =
     le_put 4 MetaMagic @ le_put 2 (2 :: u16) @ le_put 2 (m_Flags m) @ le_put 4 (m_Pid m)
     @ le_put 4 (m_Dev m) @ le_put 4 (word_of_nat (length (m_Preload m)) :: u32)
     @ bytes_of (m_Preload m)
     @ le_put 4 (word_of_nat (length (m_Visible m)) :: u32) @ bytes_of (m_Visible m)"

definition WriteMeta :: "string \<Rightarrow> Meta \<Rightarrow> ('x os_state_scheme, unit) act" where
  "WriteMeta path m = os_WriteFile path (metaBytes m)"

definition parseMeta :: "bytes \<Rightarrow> goerr + Meta" where
  "parseMeta b =
     (if length b < 16 then Inl ErrInvalid
      else
        let m = \<lparr>m_Magic = le_get (chunk b 0 4), m_Version = le_get (chunk b 4 2),
                 m_Flags = le_get (chunk b 6 2), m_Pid = le_get (chunk b 8 4),
                 m_Dev = le_get (chunk b 12 4), m_Preload = [], m_Visible = []\<rparr>
        in if m_Magic m \<noteq> MetaMagic then Inl ErrInvalid
           else if 2 \<le> m_Version m \<and> 20 \<le> length b then
             (let pl = unat (le_get (chunk b 16 4) :: u32) in
              if 20 + pl \<le> length b then
                (let m1 = m\<lparr>m_Preload := string_of (chunk b 20 pl)\<rparr>; off = 20 + pl in
                 if off + 4 \<le> length b then
                   (let vl = unat (le_get (chunk b off 4) :: u32) in
                    if off + 4 + vl \<le> length b
                    then Inr (m1\<lparr>m_Visible := string_of (chunk b (off + 4) vl)\<rparr>)
                    else Inr m1)
                 else Inr m1)
              else Inr m)
           else if 16 < length b then Inr (m\<lparr>m_Preload := string_of (drop 16 b)\<rparr>)
           else Inr m)"

definition ReadMeta :: "string \<Rightarrow> ('x os_state_scheme, Meta) act" where
  "ReadMeta path = bindA (os_ReadFile path) (\<lambda>b. liftA (outcome_of (parseMeta b)))"

definition ReadDev :: "string \<Rightarrow> ('x os_state_scheme, u32) act" where
  "ReadDev path = bindA (os_ReadFile path) (\<lambda>b.
     if length b < 4 then errA ErrInvalid else retA (le_get (take 4 b)))"

section \<open>Round trip and truncation\<close>

text \<open>The first twenty bytes of a version 2 file, as \<open>parseMeta\<close> sees them.\<close>

definition metaFixed :: "Meta \<Rightarrow> bytes" where
  "metaFixed m = le_put 4 MetaMagic @ le_put 2 (2 :: u16) @ le_put 2 (m_Flags m)
     @ le_put 4 (m_Pid m) @ le_put 4 (m_Dev m)
     @ le_put 4 (word_of_nat (length (m_Preload m)) :: u32)"

definition metaClean :: "Meta \<Rightarrow> Meta" where
  "metaClean m = m\<lparr>m_Magic := MetaMagic, m_Version := 2\<rparr>"

lemma length_metaFixed [simp]: "length (metaFixed m) = 20"
  by (simp add: metaFixed_def)

lemma metaBytes_fixed:
  "metaBytes m = metaFixed m @ bytes_of (m_Preload m)
     @ le_put 4 (word_of_nat (length (m_Visible m)) :: u32) @ bytes_of (m_Visible m)"
  by (simp add: metaBytes_def metaFixed_def)

lemma chunk_metaFixed:
  "chunk (metaFixed m @ r) 0 4 = le_put 4 MetaMagic"
  "chunk (metaFixed m @ r) 4 2 = le_put 2 (2 :: u16)"
  "chunk (metaFixed m @ r) 6 2 = le_put 2 (m_Flags m)"
  "chunk (metaFixed m @ r) 8 4 = le_put 4 (m_Pid m)"
  "chunk (metaFixed m @ r) 12 4 = le_put 4 (m_Dev m)"
  "chunk (metaFixed m @ r) 16 4 = le_put 4 (word_of_nat (length (m_Preload m)) :: u32)"
  by (simp_all add: metaFixed_def chunk_def)

text \<open>Whatever follows the fixed part, the fixed fields come back; the two strings do when
  they are complete.\<close>

lemma parseMeta_fixed:
  assumes pl: "length (m_Preload m) < 2 ^ 32"
  shows "parseMeta (metaFixed m @ r) =
    (let pl = length (m_Preload m);
         m0 = \<lparr>m_Magic = MetaMagic, m_Version = 2, m_Flags = m_Flags m, m_Pid = m_Pid m,
               m_Dev = m_Dev m, m_Preload = [], m_Visible = []\<rparr>
     in if pl \<le> length r then
          (let m1 = m0\<lparr>m_Preload := string_of (take pl r)\<rparr> in
           if pl + 4 \<le> length r then
             (let vl = unat (le_get (chunk r pl 4) :: u32) in
              if pl + 4 + vl \<le> length r
              then Inr (m1\<lparr>m_Visible := string_of (chunk r (pl + 4) vl)\<rparr>) else Inr m1)
           else Inr m1)
        else Inr m0)"
proof -
  have u: "unat (word_of_nat (length (m_Preload m)) :: u32) = length (m_Preload m)"
    using pl by (simp add: unat_of_nat)
  have c: "chunk (metaFixed m @ r) (20 + a) n = chunk r a n" for a n
    by (simp add: chunk_def)
  show ?thesis
    using c [of 0] c [of "length (m_Preload m)" 4] c [of "length (m_Preload m) + 4"]
    by (simp add: parseMeta_def Let_def chunk_metaFixed le_get_put_full u add.assoc)
      (simp add: chunk_def)
qed

lemma parseMeta_metaBytes:
  assumes "length (m_Preload m) < 2 ^ 32" and "length (m_Visible m) < 2 ^ 32"
  shows "parseMeta (metaBytes m) = Inr (metaClean m)"
proof -
  let ?v = "le_put 4 (word_of_nat (length (m_Visible m)) :: u32)"
  let ?r = "bytes_of (m_Preload m) @ ?v @ bytes_of (m_Visible m)"
  have "chunk ?r (length (m_Preload m)) 4 = ?v" by (simp add: chunk_def)
  moreover have "chunk ?r (length (m_Preload m) + 4) (length (m_Visible m)) = bytes_of (m_Visible m)"
    by (simp add: chunk_def)
  moreover have "unat (le_get ?v :: u32) = length (m_Visible m)"
    using assms(2) by (simp add: le_get_put_full unat_of_nat)
  ultimately show ?thesis
    using parseMeta_fixed [OF assms(1), of ?r]
    by (cases m) (simp add: metaBytes_fixed metaClean_def Let_def)
qed

end
