(* ===== verification/Os_Invariant.thy ===== *)
theory Os_Invariant
  imports Image_Staging Retention Image_Meta
begin

text \<open>
  What every program over the operating system keeps. The locale \<open>os_inv\<close> asks of a
  property of the state that each of the five calls that change the file tree keeps it;
  inside it, every operation on images keeps it too, proved once. Interpretations: the tree
  is well-formed, and the clock, the environment and everything outside the operating system
  stay as they are.
\<close>

section \<open>Structural rules\<close>

lemma keeps_if: "(c \<Longrightarrow> keeps P a) \<Longrightarrow> (\<not> c \<Longrightarrow> keeps P b) \<Longrightarrow> keeps P (if c then a else b)"
  by simp

lemma keeps_case_sum:
  "(\<And>a. keeps P (f a)) \<Longrightarrow> (\<And>b. keeps P (g b)) \<Longrightarrow> keeps P (case x of Inl a \<Rightarrow> f a | Inr b \<Rightarrow> g b)"
  by (cases x) simp_all

lemma keeps_case_option:
  "keeps P f \<Longrightarrow> (\<And>b. keeps P (g b)) \<Longrightarrow> keeps P (case x of None \<Rightarrow> f | Some b \<Rightarrow> g b)"
  by (cases x) simp_all

lemma keeps_case_prod: "(\<And>a b. keeps P (f a b)) \<Longrightarrow> keeps P (case x of (a, b) \<Rightarrow> f a b)"
  by (cases x) simp

lemma keeps_case_prod_nested:
  "(\<And>a b. keeps P (f a b y)) \<Longrightarrow> keeps P ((case x of (a, b) \<Rightarrow> f a b) y)"
  by (cases x) simp

lemma keeps_case_list:
  "keeps P f \<Longrightarrow> (\<And>y ys. keeps P (g y ys)) \<Longrightarrow> keeps P (case x of [] \<Rightarrow> f | y # ys \<Rightarrow> g y ys)"
  by (cases x) simp_all

lemma keeps_case_outcome:
  "(\<And>a. keeps P (f a)) \<Longrightarrow> (\<And>e. keeps P (g e)) \<Longrightarrow> (\<And>p. keeps P (h p)) \<Longrightarrow> keeps P k \<Longrightarrow>
   keeps P (case x of Ret a \<Rightarrow> f a | Err e \<Rightarrow> g e | Panic p \<Rightarrow> h p | Diverge \<Rightarrow> k)"
  by (cases x) simp_all

lemma keeps_bind_read: "(\<And>s a. g s = Ret a \<Longrightarrow> keeps P (f a)) \<Longrightarrow> keeps P (bindA (readA g) f)"
  by (auto simp: keeps_def bindA_readA split: outcome.split)

lemma keeps_Let: "keeps P (f x) \<Longrightarrow> keeps P (Let x f)"
  by simp

lemmas keeps_structure = keeps_bindA keeps_tryA keeps_wrapA keeps_pure keeps_wf_os_reads keeps_if
  keeps_case_sum keeps_case_option keeps_case_prod keeps_case_prod_nested keeps_case_list keeps_case_outcome keeps_Let keeps_Pair

section \<open>The locale\<close>

locale os_inv =
  fixes P :: "'x os_state_scheme \<Rightarrow> bool"
  assumes WriteFile: "keeps P (os_write keep name b)"
    and MkdirAll: "keeps P (os_MkdirAll name)"
    and RemoveAll: "keeps P (os_RemoveAll name)"
    and Remove: "keeps P (os_Remove name)"
    and Rename: "keeps P (os_Rename old new)"
begin

lemmas rules = keeps_structure WriteFile MkdirAll RemoveAll Remove Rename

lemma manifest: "keeps P (ReadManifest path)" "keeps P (WriteManifestFlags path es fl v)"
    "keeps P (WriteManifest path es)" "keeps P (readManifestHeader path)"
  unfolding ReadManifest_def WriteManifestFlags_def WriteManifest_def readManifestHeader_def
  by (intro rules)+

lemma sidecars: "keeps P (ReadMeta path)" "keeps P (WriteMeta path m)" "keeps P (ReadDev path)"
    "keeps P (IsComplete dir)" "keeps P (Tier_New dir)"
  unfolding ReadMeta_def WriteMeta_def ReadDev_def IsComplete_def Tier_New_def by (intro rules)+

lemma compress: "keeps P (CompressDevice z dir)" "keeps P (DecompressDevice z dir)"
  unfolding CompressDevice_def DecompressDevice_def by (intro rules manifest)+

lemma ApplyDelta: "(\<And>d. keeps P (ensure d)) \<Longrightarrow> keeps P (ApplyDelta_with ensure dir)"
  unfolding ApplyDelta_with_def by (intro rules manifest)

lemma Ensure: "keeps P (EnsureDeviceMaterialized n z dir)"
proof (induction n arbitrary: dir)
  case (Suc n)
  show ?case
    unfolding EnsureDeviceMaterialized.simps by (intro rules manifest compress ApplyDelta Suc.IH)
qed (simp only: EnsureDeviceMaterialized.simps keeps_pure)

lemma cas_Put: "keeps P (cas_Put c d)"
  unfolding cas_Put_def by (intro rules)

lemma dedupLoop: "keeps P (dedupLoop c name f es)"
  by (induction es) (simp_all only: dedupLoop.simps rules cas_Put)

lemma passes: "keeps P (ApplySparse dir)" "keeps P (DedupDevice dir)" "keeps P (WriteDelta n z dir parent)"
  unfolding ApplySparse_def DedupDevice_def WriteDelta_def NewCAS_def
  by (intro rules manifest dedupLoop Ensure)+

lemma ProcessImage: "keeps P (ProcessImage n z dir opts)"
  unfolding ProcessImage_def by (intro rules passes compress)

lemma Finalize: "keeps P (Finalize staging dest)"
  unfolding Finalize_def by (intro rules)

lemma WriteStaging: "keeps P (fn (StageDir dir)) \<Longrightarrow> keeps P (WriteStaging dir fn)"
  unfolding WriteStaging_def Let_def by (intro rules Finalize)

lemma LoadPinnedPaths: "keeps P (LoadPinnedPaths path)"
  unfolding LoadPinnedPaths_def by (intro rules)

lemma gcApply: "keeps P (gcApply ps dry removed)"
  by (induction ps arbitrary: removed) (simp_all only: gcApply.simps, (intro rules | assumption)+)

lemma RunImageGC: "keeps P (RunImageGC opts dry)"
  unfolding RunImageGC_def PlanImageGC_def ApplyGCPlan_def by (intro rules LoadPinnedPaths gcApply)

end

section \<open>Interpretations\<close>

interpretation wf: os_inv wf_os
  by unfold_locales (rule keeps_wf_os_write keeps_wf_os_MkdirAll keeps_wf_os_RemoveAll
      keeps_wf_os_Remove keeps_wf_os_Rename)+

text \<open>What no call on files touches: the clock, the environment, the rest of the state.\<close>

definition off_disk :: "'x os_state_scheme \<Rightarrow> int \<times> (string \<times> string) list \<times> 'x" where
  "off_disk s = (clock s, env s, os_state.more s)"

lemma off_disk_simps [simp]:
  "off_disk (put_node p n s) = off_disk s" "off_disk (touch p s) = off_disk s"
  "off_disk (pop_fault s) = off_disk s" "off_disk (store_file p b s) = off_disk s"
  by (simp_all add: off_disk_def put_node_def touch_def pop_fault_def store_file_def)

lemma off_disk_mkdir: "off_disk (foldl mkdir_step s ps) = off_disk s"
  by (induction ps arbitrary: s) (simp_all add: mkdir_step_def)

lemma off_disk_trees [simp]:
  "off_disk (make_dirs p s) = off_disk s" "off_disk (remove_tree p s) = off_disk s"
  "off_disk (move_tree p q s) = off_disk s"
  by (simp_all add: make_dirs_def off_disk_mkdir remove_tree_def move_tree_def Let_def)
    (simp_all add: off_disk_def)

interpretation off: os_inv "\<lambda>s. off_disk s = x" for x
  by unfold_locales
    (auto simp: keeps_def os_write_def os_MkdirAll_def os_RemoveAll_def os_Remove_def os_Rename_def Let_def
      split: outcome.splits fault.splits)

end
