(* ===== verification/Go_Time.thy ===== *)
theory Go_Time
  imports Go_Error
begin

text \<open>
  The parts of Go's \<open>time\<close> package the program calls: durations as 64-bit words of
  nanoseconds (compared as signed numbers, so that arithmetic wraps as it does in Go),
  \<open>time.ParseDuration\<close>, rounding and printing a duration, and the RFC 3339 rendering of
  an instant in UTC. A fraction in a
  duration is scaled in double precision, as the library does: \<open>fl\<close> rounds a positive
  quotient to 53 significant bits, half to even.
\<close>

section \<open>Durations\<close>

type_synonym Duration = "64 word"

definition Microsecond :: Duration where "Microsecond = 1000"
definition Millisecond :: Duration where "Millisecond = 1000000"
definition Second :: Duration where "Second = 1000000000"
definition Hour :: Duration where "Hour = 3600000000000"

section \<open>Double precision\<close>

function bits :: "int \<Rightarrow> int" where
  "bits n = (if n \<le> 0 then 0 else 1 + bits (n div 2))"
  by pat_completeness auto

termination
  by (relation "measure nat") (auto simp: nat_less_iff)

declare bits.simps [simp del]

definition round_even :: "int \<Rightarrow> int \<Rightarrow> int" where
  "round_even n d =
     (let q = n div d; r = n mod d in
      if 2 * r < d then q else if d < 2 * r then q + 1 else if even q then q else q + 1)"

definition scaled :: "int \<Rightarrow> int \<Rightarrow> int \<Rightarrow> int" where
  "scaled k n d = round_even (n * 2 ^ nat k) (d * 2 ^ nat (- k))"

text \<open>\<open>n / d\<close> as \<open>m\<close> times two to the \<open>e\<close>.\<close>

definition fl :: "int \<Rightarrow> int \<Rightarrow> int \<times> int" where
  "fl n d =
     (let k = 53 - bits n + bits d;
          k' = (if n * 2 ^ nat k < 2 ^ 53 * (d * 2 ^ nat (- k)) then k else k - 1)
      in (scaled k' n d, - k'))"

text \<open>A double with its sign, which zero has too, and the verb \<open>%.1f\<close>, which rounds the exact
  value half to even.\<close>

type_synonym Float64 = "bool \<times> int \<times> int"

fun fixed1 :: "Float64 \<Rightarrow> string" where
  "fixed1 (neg, m, e) =
     (let v = round_even (m * 10 * 2 ^ nat e) (2 ^ nat (- e))
      in (if neg then ''-'' else []) @ Itoa (v div 10) @ ''.'' @ Itoa (v mod 10))"

text \<open>\<open>uint64(float64(f) * (float64(unit) / scale))\<close>.\<close>

definition float_part :: "int \<Rightarrow> int \<Rightarrow> int \<Rightarrow> int" where
  "float_part f unit scale =
     (let (m1, e1) = fl f 1; (m2, e2) = fl unit scale; e = e1 + e2;
          (m, e') = fl (m1 * m2 * 2 ^ nat e) (2 ^ nat (- e))
      in m * 2 ^ nat e' div 2 ^ nat (- e'))"

section \<open>ParseDuration\<close>

text \<open>\<open>leadingInt\<close> and \<open>leadingFraction\<close> on the digits in front.\<close>

fun leadingInt :: "int \<Rightarrow> string \<Rightarrow> int option" where
  "leadingInt x [] = Some x"
| "leadingInt x (c # cs) =
     (if 2 ^ 63 div 10 < x then None
      else let x' = x * 10 + int (digit_val c) in if 2 ^ 63 < x' then None else leadingInt x' cs)"

fun leadingFraction :: "int \<Rightarrow> int \<Rightarrow> bool \<Rightarrow> string \<Rightarrow> int \<times> int" where
  "leadingFraction x scale overflow [] = (x, scale)"
| "leadingFraction x scale overflow (c # cs) =
     (if overflow \<or> (2 ^ 63 - 1) div 10 < x then leadingFraction x scale True cs
      else let y = x * 10 + int (digit_val c) in
        if 2 ^ 63 < y then leadingFraction x scale True cs else leadingFraction y (scale * 10) False cs)"

definition unitMap :: "(string \<times> int) list" where
  "unitMap =
     [(''ns'', 1), (''us'', 1000), ([CHR 0xC2, CHR 0xB5, CHR ''s''], 1000),
      ([CHR 0xCE, CHR 0xBC, CHR ''s''], 1000), (''ms'', 1000000), (''s'', 1000000000),
      (''m'', 60000000000), (''h'', 3600000000000)]"

text \<open>The quoting of the package's own error messages.\<close>

definition quote_byte :: "char \<Rightarrow> string" where
  "quote_byte c =
     (let n = of_char c :: nat in
      if 128 \<le> n \<or> n < 32 then [CHR 0x5C, CHR ''x'', hex_digit (n div 16), hex_digit (n mod 16)]
      else if c = CHR 0x22 \<or> c = CHR 0x5C then [CHR 0x5C, c] else [c])"

definition time_quote :: "string \<Rightarrow> string" where
  "time_quote s = [CHR 0x22] @ concat (map quote_byte s) @ [CHR 0x22]"

definition duration_error :: "string \<Rightarrow> string \<Rightarrow> goerr" where
  "duration_error what orig = FmtError (''time: '' @ what @ '' duration '' @ time_quote orig)"

definition unit_end :: "char \<Rightarrow> bool" where
  "unit_end c \<longleftrightarrow> c = CHR ''.'' \<or> is_digit c"

text \<open>The digits behind a decimal point, if there is one, and what follows the number.\<close>

definition fraction_digits :: "string \<Rightarrow> string" where
  "fraction_digits s1 =
     (if s1 \<noteq> [] \<and> hd s1 = CHR ''.'' then takeWhile is_digit (tl s1) else [])"

definition number_tail :: "string \<Rightarrow> string" where
  "number_tail s1 =
     (if s1 \<noteq> [] \<and> hd s1 = CHR ''.'' then dropWhile is_digit (tl s1) else s1)"

lemma durationLoop_shrinks:
  assumes "takeWhile (\<lambda>c. \<not> unit_end c) (number_tail (dropWhile is_digit s)) \<noteq> []"
  shows "length (dropWhile (\<lambda>c. \<not> unit_end c) (number_tail (dropWhile is_digit s))) < length s"
proof -
  let ?t = "number_tail (dropWhile is_digit s)"
  have "length (dropWhile (\<lambda>c. \<not> unit_end c) ?t) < length ?t"
    using assms by (metis length_append length_greater_0_conv less_add_same_cancel2 takeWhile_dropWhile_id)
  also have "length ?t \<le> length s"
    using length_dropWhile_le [of is_digit s] length_dropWhile_le [of is_digit "tl (dropWhile is_digit s)"]
    by (auto simp add: number_tail_def)
  finally show ?thesis .
qed

text \<open>One \<open>number unit\<close> group per round; \<open>d\<close> is the sum so far.\<close>

function durationLoop :: "string \<Rightarrow> string \<Rightarrow> int \<Rightarrow> goerr + int" where
  "durationLoop orig s d =
     (if s = [] then Inr d
      else if \<not> unit_end (hd s) then Inl (duration_error ''invalid'' orig)
      else
        let ds = takeWhile is_digit s; s1 = dropWhile is_digit s;
            fs = fraction_digits s1; s2 = number_tail s1;
            u = takeWhile (\<lambda>c. \<not> unit_end c) s2; rest = dropWhile (\<lambda>c. \<not> unit_end c) s2
        in case leadingInt 0 ds of None \<Rightarrow> Inl (duration_error ''invalid'' orig) | Some v \<Rightarrow>
          if ds = [] \<and> fs = [] then Inl (duration_error ''invalid'' orig)
          else if u = [] then Inl (duration_error ''missing unit in'' orig)
          else (case map_of unitMap u of
            None \<Rightarrow> Inl (FmtError (''time: unknown unit '' @ time_quote u @ '' in duration '' @ time_quote orig))
          | Some unit \<Rightarrow>
              if 2 ^ 63 div unit < v then Inl (duration_error ''invalid'' orig)
              else
                let (f, scale) = leadingFraction 0 1 False fs;
                    v' = v * unit + (if 0 < f then float_part f unit scale else 0)
                in if 2 ^ 63 < v' \<or> 2 ^ 63 < d + v' then Inl (duration_error ''invalid'' orig)
                   else durationLoop orig rest (d + v')))"
  by pat_completeness auto

termination
  by (relation "measure (\<lambda>(orig, s, d). length s)") (auto intro: durationLoop_shrinks)

declare durationLoop.simps [simp del]

definition ParseDuration :: "string \<Rightarrow> goerr + Duration" where
  "ParseDuration orig =
     (let neg = (orig \<noteq> [] \<and> hd orig = CHR ''-'');
          s = (if orig \<noteq> [] \<and> (hd orig = CHR ''-'' \<or> hd orig = CHR ''+'') then tl orig else orig)
      in if s = ''0'' then Inr 0
         else if s = [] then Inl (duration_error ''invalid'' orig)
         else case durationLoop orig s 0 of
             Inl e \<Rightarrow> Inl e
           | Inr d \<Rightarrow>
               if neg then Inr (- word_of_int d)
               else if 2 ^ 63 - 1 < d then Inl (duration_error ''invalid'' orig) else Inr (word_of_int d))"

section \<open>RFC 3339\<close>

text \<open>The Gregorian date of a day counted from 1970-01-01.\<close>

definition civil :: "int \<Rightarrow> int \<times> int \<times> int" where
  "civil day =
     (let z = day + 719468; era = z div 146097; doe = z mod 146097;
          yoe = (doe - doe div 1460 + doe div 36524 - doe div 146096) div 365;
          doy = doe - (365 * yoe + yoe div 4 - yoe div 100); mp = (5 * doy + 2) div 153;
          m = (if mp < 10 then mp + 3 else mp - 9)
      in (yoe + era * 400 + (if m \<le> 2 then 1 else 0), m, doy - (153 * mp + 2) div 5 + 1))"

definition pad0 :: "nat \<Rightarrow> int \<Rightarrow> string" where
  "pad0 n i = (let s = nat_dec (nat i) in replicate (n - length s) (CHR ''0'') @ s)"

definition RFC3339 :: "int \<Rightarrow> string" where
  "RFC3339 t =
     (let sec = t div 1000000000; (y, m, d) = civil (sec div 86400); r = sec mod 86400
      in pad0 4 y @ ''-'' @ pad0 2 m @ ''-'' @ pad0 2 d @ ''T'' @ pad0 2 (r div 3600) @ '':'' @
         pad0 2 (r div 60 mod 60) @ '':'' @ pad0 2 (r mod 60) @ ''Z'')"

text \<open>A fraction of \<open>n\<close> digits without its trailing zeros.\<close>

definition frac_text :: "nat \<Rightarrow> int \<Rightarrow> string" where
  "frac_text n v =
     (let frac = rev (dropWhile (\<lambda>c. c = CHR ''0'') (rev (pad0 n (v mod 10 ^ n))))
      in if frac = [] then [] else CHR ''.'' # frac)"

definition RFC3339Nano :: "int \<Rightarrow> string" where
  "RFC3339Nano t = butlast (RFC3339 t) @ frac_text 9 t @ ''Z''"

section \<open>Rounding and printing durations\<close>

text \<open>\<open>Duration.Round\<close>, half away from zero, capped at the ends of the range.\<close>

definition Duration_Round :: "Duration \<Rightarrow> Duration \<Rightarrow> Duration" where
  "Duration_Round d m =
     (if sint m \<le> 0 then d
      else
        let r = \<bar>sint d\<bar> mod sint m; w = word_of_int r in
        if sint d < 0 then
          (if 2 * r < sint m then d + w else let e = d - m + w in if sint e < sint d then e else word_of_int (- (2 ^ 63)))
        else
          (if 2 * r < sint m then d - w else let e = d + m - w in if sint d < sint e then e else word_of_int (2 ^ 63 - 1)))"

text \<open>\<open>Duration.String\<close>; the micro sign takes two bytes.\<close>

definition Duration_String :: "Duration \<Rightarrow> string" where
  "Duration_String d =
     (let u = \<bar>sint d\<bar>; s = u div 1000000000; m = s div 60; h = m div 60;
          sec = Itoa (s mod 60) @ frac_text 9 u @ ''s''; min = Itoa (m mod 60) @ ''m'' @ sec
      in (if sint d < 0 then ''-'' else []) @
         (if u = 0 then ''0s''
          else if u < 1000 then Itoa u @ ''ns''
          else if u < 1000000 then Itoa (u div 1000) @ frac_text 3 u @ [CHR 0xC2, CHR 0xB5, CHR ''s'']
          else if u < 1000000000 then Itoa (u div 1000000) @ frac_text 6 u @ ''ms''
          else if m = 0 then sec
          else if h = 0 then min
          else Itoa h @ ''h'' @ min))"

end
