(* ===== verification/Shim_Files.thy ===== *)
theory Shim_Files
  imports Go_Os_Laws
begin

text \<open>
  The shim's dealings with the image directory: how it forms the names of files
  (\<open>path_join\<close> of \<open>snapshot.cu\<close>, \<open>restore.cu\<close> and \<open>module_io.cpp\<close>), the
  C++ streams it writes and reads them with, and the files \<open>snapshot.err\<close> and
  \<open>restore.err\<close>. A stream that cannot be opened is an error the code checks for; a
  write that does not get all its bytes to the disk is not noticed.
\<close>

section \<open>Names\<close>

definition path_join :: "string \<Rightarrow> string \<Rightarrow> string" where
  "path_join dir name = (if dir \<noteq> [] \<and> last dir \<noteq> CHR ''/'' then dir @ ''/'' else dir) @ name"

lemma path_of_trailing: "d \<noteq> [] \<Longrightarrow> path_of (d @ ''/'') = path_of d"
  using split_slash_append [of d "[]"]
  by (simp add: path_of_def rooted_append clean_comps_def clean_step_def)

lemma path_of_path_join [path_simps, simp]:
  assumes "plain w"
  shows "path_of (path_join dir w) = path_of dir @ [w]"
proof (cases "dir = [] \<or> last dir \<noteq> CHR ''/''")
  case True
  then show ?thesis using assms by (auto simp: path_join_def path_of_plain path_of_snoc)
next
  case False
  then obtain d where dir: "dir = d @ ''/''" by (metis append_butlast_last_id)
  show ?thesis
  proof (cases "d = []")
    case True
    then have "path_of ''/'' = [''/'']" by (simp add: path_of_def rooted_def clean_comps_def clean_step_def)
    moreover have "path_of (''/'' @ w) = [''/'', w]"
      using assms split_slash_word [of w]
      by (simp add: path_of_def rooted_def clean_comps_def clean_step_def plain_def)
    ultimately show ?thesis using True by (simp add: path_join_def dir)
  next
    case False
    then show ?thesis
      using path_of_snoc [OF False assms] path_of_trailing [OF False] by (simp add: path_join_def dir)
  qed
qed

section \<open>Streams\<close>

text \<open>\<open>std::ofstream\<close> with \<open>trunc\<close>, written once: whether it could be opened.\<close>

definition c_write :: "string \<Rightarrow> bytes \<Rightarrow> ('x os_state_scheme, bool) act" where
  "c_write name b s =
     (let opened = (case open_for_write name (pop_fault s) of Ret _ \<Rightarrow> next_fault s \<noteq> Fail | _ \<Rightarrow> False)
      in (Ret opened, snd (os_WriteFile name b s)))"

text \<open>\<open>unlink\<close>, whose result nobody looks at.\<close>

definition c_unlink :: "string \<Rightarrow> ('x os_state_scheme, unit) act" where
  "c_unlink name s = (Ret (), if node_at s (path_of name) = Some DirN then s else snd (os_Remove name s))"

text \<open>\<open>std::ifstream\<close>: a directory can be opened, and nothing read from it.\<close>

definition c_read :: "string \<Rightarrow> 'x os_state_scheme \<Rightarrow> string \<Rightarrow> bytes option" where
  "c_read dir s name = (case node_at s (path_of (path_join dir name)) of
     Some (FileN b) \<Rightarrow> Some b | Some DirN \<Rightarrow> Some [] | _ \<Rightarrow> None)"

section \<open>Failures and files\<close>

definition err_line :: "int \<Rightarrow> string \<Rightarrow> string option \<Rightarrow> string" where
  "err_line code msg es = Itoa code @ '' '' @ msg @ (case es of None \<Rightarrow> [] | Some e \<Rightarrow> '' '' @ e) @ [CHR 0x0A]"

text \<open>\<open>snapshot_fail\<close> and \<open>restore_fail\<close>: the text goes into \<open>snapshot.err\<close> or \<open>restore.err\<close>.\<close>

definition shim_fail :: "string \<Rightarrow> string \<Rightarrow> string \<Rightarrow> ('x os_state_scheme, 'a) act" where
  "shim_fail dir name line = bindA (c_write (path_join dir name) (bytes_of line)) (\<lambda>_. errA (FmtError line))"

text \<open>A file of an image, and the code of its failure.\<close>

type_synonym snapfile = "string \<times> bytes \<times> int"

fun write_image :: "string \<Rightarrow> snapfile list \<Rightarrow> ('x os_state_scheme, unit) act" where
  "write_image dir [] = c_unlink (path_join dir ''snapshot.err'')"
| "write_image dir ((f, b, code) # fs) =
     bindA (c_write (path_join dir f) b) (\<lambda>opened.
       if opened then write_image dir fs else shim_fail dir ''snapshot.err'' (err_line code f None))"

lemma keeps_c_write: "keeps P (os_WriteFile name b) \<Longrightarrow> keeps P (c_write name b)"
  by (simp add: keeps_def c_write_def Let_def)

lemma keeps_c_unlink: "keeps P (os_Remove name) \<Longrightarrow> keeps P (c_unlink name)"
  by (simp add: keeps_def c_unlink_def)

lemma keeps_shim_fail: "(\<And>f b. keeps P (os_WriteFile f b)) \<Longrightarrow> keeps P (shim_fail dir name line)"
  unfolding shim_fail_def by (intro keeps_bindA keeps_c_write keeps_pure)

lemma keeps_write_image:
  assumes "\<And>f b. keeps P (os_WriteFile f b)" and "\<And>f. keeps P (os_Remove f)"
  shows "keeps P (write_image dir fs)"
  by (induction dir fs rule: write_image.induct)
    (auto intro!: keeps_bindA keeps_c_write keeps_c_unlink keeps_shim_fail assms)

end
