(* ===== verification/Rpc.thy ===== *)
theory Rpc
  imports Image_Format Shim_Files
begin

text \<open>
  \<open>pkg/rpc\<close>: the client of \<open>proto.go\<close>, the mock server of \<open>mockserver.go\<close> and, as
  the other end in production, the request handler of the shim (\<open>shim/ipc.c\<close>). A
  connection is a pair of byte streams. The server runs whenever the client waits for a
  reply: it serves requests until its input holds no complete one or it closes the
  connection. A client that waits for bytes nobody will send has the outcome
  \<open>Diverge\<close>. What the shim does with the GPU is a parameter, the record \<open>cuda\<close>.
\<close>

section \<open>Protocol\<close>

definition OpPing :: u32 where "OpPing = 1"
definition OpStatus :: u32 where "OpStatus = 2"
definition OpFreeze :: u32 where "OpFreeze = 3"
definition OpSnapshot :: u32 where "OpSnapshot = 4"
definition OpRestore :: u32 where "OpRestore = 5"
definition OpResume :: u32 where "OpResume = 6"
definition OpQuit :: u32 where "OpQuit = 7"
definition OpStats :: u32 where "OpStats = 8"
definition OpAuth :: u32 where "OpAuth = 9"

lemmas op_defs = OpPing_def OpStatus_def OpFreeze_def OpSnapshot_def OpRestore_def OpResume_def
  OpQuit_def OpStats_def OpAuth_def

record Stats =
  st_AllocCount :: u32
  st_TotalBytes :: u64
  st_StreamCount :: u32
  st_ModuleCount :: u32
  st_SymbolCount :: u32
  st_EventCount :: u32
  st_CtxCount :: u32
  st_UnsupportedCode :: u32
  st_State :: u32

section \<open>The mock server\<close>

record MockOptions =
  mo_Secret :: string
  mo_FailFreezeUntil :: int
  mo_StatusSeq :: "u32 list"

record mockState =
  mk_secret :: string
  mk_failFreezeUntil :: int
  mk_statusSeq :: "u32 list"
  mk_statusIdx :: int

definition mockOf :: "MockOptions \<Rightarrow> mockState" where
  "mockOf opts = \<lparr>mk_secret = mo_Secret opts, mk_failFreezeUntil = mo_FailFreezeUntil opts,
     mk_statusSeq = mo_StatusSeq opts, mk_statusIdx = 0\<rparr>"

definition mockStatus :: "mockState \<Rightarrow> u32 \<times> mockState" where
  "mockStatus st =
     (if mk_statusSeq st = [] then (4, st)
      else
        let idx = mk_statusIdx st; st' = st\<lparr>mk_statusIdx := idx + 1\<rparr> in
        if int (length (mk_statusSeq st)) \<le> idx then (last (mk_statusSeq st), st')
        else (mk_statusSeq st ! nat idx, st'))"

definition mockEntry :: Entry where
  "mockEntry = \<lparr>e_Ptr = 0x1000, e_Size = 4, e_Offset = 0, e_CRC32C = CRC32C [1, 2, 3, 4], e_Seq = 1,
     e_ContentHash = 0\<rparr>"

definition mockSnapshot :: "string \<Rightarrow> ('x os_state_scheme, unit) act" where
  "mockSnapshot dir =
     bindA (os_MkdirAll dir) (\<lambda>_.
     bindA (os_WriteFile (Join dir ''device.bin'') [1, 2, 3, 4]) (\<lambda>_.
     bindA (tryA (os_WriteFile (Join dir ''dev.bin'') [0, 0, 0, 0])) (\<lambda>_.
       WriteManifest (Join dir ''manifest.bin'') [mockEntry])))"

text \<open>
  One round of a connection: from the unread input, the bytes left, the bytes sent and
  whether the connection is closed; \<open>None\<close> when the handler still waits for input.
\<close>

type_synonym ('st, 's) served = "(('st \<times> bool \<times> bytes \<times> bytes \<times> bool) \<times> 's) option"

definition word :: "u32 \<Rightarrow> bytes" where "word v = be_put 4 v"

definition get_word :: "bytes \<Rightarrow> (u32 \<times> bytes) option" where
  "get_word inp = (case dec_be 4 inp of Inl _ \<Rightarrow> None | Inr (v, r) \<Rightarrow> Some (v, r))"

definition get_str :: "bytes \<Rightarrow> (string \<times> bytes) option" where
  "get_str inp = (case get_word inp of None \<Rightarrow> None | Some (n, r) \<Rightarrow>
     (case read_full (unat n) r of Inl _ \<Rightarrow> None | Inr (b, r') \<Rightarrow> Some (string_of b, r')))"

definition mockAuth :: "mockState \<Rightarrow> bytes \<Rightarrow> 's \<Rightarrow> (mockState, 's) served" where
  "mockAuth st inp s =
     (case get_word inp of None \<Rightarrow> None | Some (op, r) \<Rightarrow>
        if op \<noteq> OpAuth then Some ((st, False, r, word 2, True), s)
        else case get_str r of None \<Rightarrow> None | Some (buf, r') \<Rightarrow>
          if buf \<noteq> mk_secret st then Some ((st, False, r', word 1, True), s)
          else Some ((st, True, r', word 0, False), s))"

definition mockStatsWords :: "u32 list" where
  "mockStatsWords = [1, 0, 0, 0, 0, 0, 0, 0, 0, 0, 4]"

definition mockRequest :: "mockState \<Rightarrow> bytes \<Rightarrow> 'x os_state_scheme \<Rightarrow> (mockState, 'x os_state_scheme) served" where
  "mockRequest st inp s =
     (case get_word inp of None \<Rightarrow> None | Some (op, r) \<Rightarrow>
        if op = OpPing \<or> op = OpResume then Some ((st, True, r, word 0, False), s)
        else if op = OpFreeze then
          (if 0 < mk_failFreezeUntil st
           then Some ((st\<lparr>mk_failFreezeUntil := mk_failFreezeUntil st - 1\<rparr>, True, r, word 1, False), s)
           else Some ((st, True, r, word 0, False), s))
        else if op = OpSnapshot then
          (case get_str r of None \<Rightarrow> None | Some (dir, r') \<Rightarrow>
             if dir = [] then Some ((st, True, r', word 0, False), s)
             else (case mockSnapshot dir s of
                (Ret _, s') \<Rightarrow> Some ((st, True, r', word 0, False), s')
              | (_, s') \<Rightarrow> Some ((st, True, r', word 1, True), s')))
        else if op = OpRestore then
          (case get_str r of None \<Rightarrow> None | Some (_, r') \<Rightarrow> Some ((st, True, r', word 0, False), s))
        else if op = OpStatus then
          (let (v, st') = mockStatus st in Some ((st', True, r, word v, False), s))
        else if op = OpStats then
          Some ((st, True, r, word 0 @ concat (map word mockStatsWords), False), s)
        else if op = OpQuit then Some ((st, True, r, word 0, True), s)
        else Some ((st, True, r, word 1, False), s))"

definition serveMockConn :: "mockState \<Rightarrow> bool \<Rightarrow> bytes \<Rightarrow> 'x os_state_scheme
    \<Rightarrow> (mockState, 'x os_state_scheme) served" where
  "serveMockConn st authed inp s =
     (if mk_secret st \<noteq> [] \<and> \<not> authed then mockAuth st inp s else mockRequest st inp s)"

section \<open>The shim\<close>

text \<open>
  What the handler calls outside \<open>ipc.c\<close>: whether the GPU quiesces; the files of a
  snapshot, or the text of its failure; the text of a restore's failure, if it fails, given
  the files it reads; the counters of the tracker. Theory \<open>Shim_Image\<close> and its companions
  model that code.
\<close>

record cuda =
  cu_quiesce :: bool
  cu_snapshot :: "string + snapfile list"
  cu_restore :: "(string \<Rightarrow> bytes option) \<Rightarrow> string option"
  cu_stats :: Stats

datatype shim_phase = ST_IDLE | ST_FROZEN | ST_SNAPPED | ST_RESTORED | ST_RUNNING

fun phase_num :: "shim_phase \<Rightarrow> u32" where
  "phase_num ST_IDLE = 0"
| "phase_num ST_FROZEN = 1"
| "phase_num ST_SNAPPED = 2"
| "phase_num ST_RESTORED = 3"
| "phase_num ST_RUNNING = 4"

record shimState =
  sh_secret :: string
  sh_state :: shim_phase

text \<open>A C string ends at its first zero byte.\<close>

definition cstr :: "string \<Rightarrow> string" where
  "cstr s = takeWhile (\<lambda>c. c \<noteq> CHR 0x00) s"

definition secrets_match :: "string \<Rightarrow> string \<Rightarrow> bool" where
  "secrets_match secret got =
     (if secret = [] then True
      else
        let glen = length got; n = max glen (length secret);
            at = (\<lambda>s i. if i < length s then (word_of_nat (of_char (s ! i)) :: byte) else 0);
            diff0 = ucast ((word_of_nat glen :: u64) XOR word_of_nat (length secret)) :: byte
        in foldl (\<lambda>diff i. diff OR (at secret i XOR at got i)) diff0 [0..<n] = 0)"

datatype c_str = CNeed | CBad bytes | CStr string bytes

text \<open>\<open>read_str(fd, buf, cap)\<close>: too long a string is refused without being read.\<close>

definition read_str :: "nat \<Rightarrow> bytes \<Rightarrow> c_str" where
  "read_str cap inp =
     (case get_word inp of None \<Rightarrow> CNeed | Some (n, r) \<Rightarrow>
        if cap \<le> unat n then CBad r
        else case read_full (unat n) r of Inl _ \<Rightarrow> CNeed | Inr (b, r') \<Rightarrow> CStr (cstr (string_of b)) r')"

definition require_auth :: "shimState \<Rightarrow> bytes \<Rightarrow> 's \<Rightarrow> (shimState, 's) served" where
  "require_auth st inp s =
     (case get_word inp of None \<Rightarrow> None | Some (op, r) \<Rightarrow>
        if op \<noteq> OpAuth then Some ((st, False, r, word 2, True), s)
        else case read_str 512 r of
            CNeed \<Rightarrow> None
          | CBad r' \<Rightarrow> Some ((st, False, r', word 1, True), s)
          | CStr tok r' \<Rightarrow>
              if secrets_match (sh_secret st) tok then Some ((st, True, r', word 0, False), s)
              else Some ((st, False, r', word 1, True), s))"

definition write_stats :: "Stats \<Rightarrow> shim_phase \<Rightarrow> u32 list" where
  "write_stats c p =
     [0, st_AllocCount c, ucast (st_TotalBytes c), ucast (drop_bit 32 (st_TotalBytes c)), st_StreamCount c,
      st_ModuleCount c, st_SymbolCount c, st_EventCount c, st_CtxCount c, st_UnsupportedCode c, phase_num p]"

definition shimSnapshot :: "cuda \<Rightarrow> string \<Rightarrow> ('x os_state_scheme, unit) act" where
  "shimSnapshot cu dir =
     (case cu_snapshot cu of Inl line \<Rightarrow> shim_fail dir ''snapshot.err'' line | Inr fs \<Rightarrow> write_image dir fs)"

definition shimRestore :: "cuda \<Rightarrow> string \<Rightarrow> ('x os_state_scheme, unit) act" where
  "shimRestore cu dir s =
     (case cu_restore cu (c_read dir s) of
        None \<Rightarrow> c_unlink (path_join dir ''restore.err'') s
      | Some line \<Rightarrow> shim_fail dir ''restore.err'' line s)"

text \<open>\<open>handle_client\<close> after authentication: one request, then the descriptor is closed.\<close>

definition handle_request :: "cuda \<Rightarrow> shimState \<Rightarrow> bytes \<Rightarrow> 'x os_state_scheme
    \<Rightarrow> (shimState, 'x os_state_scheme) served" where
  "handle_request cu st inp s =
     (case get_word inp of None \<Rightarrow> None | Some (op, r) \<Rightarrow>
        if op = OpPing then Some ((st, True, r, word 0, True), s)
        else if op = OpStatus then Some ((st, True, r, word (phase_num (sh_state st)), True), s)
        else if op = OpStats then
          Some ((st, True, r, concat (map word (write_stats (cu_stats cu) (sh_state st))), True), s)
        else if op = OpFreeze then
          (if \<not> cu_quiesce cu then Some ((st, True, r, word 1, True), s)
           else Some ((st\<lparr>sh_state := ST_FROZEN\<rparr>, True, r, word 0, True), s))
        else if op = OpSnapshot then
          (case read_str 512 r of
             CNeed \<Rightarrow> None
           | CBad r' \<Rightarrow> Some ((st, True, r', word 1, True), s)
           | CStr path r' \<Rightarrow> (case shimSnapshot cu path s of
                (Ret _, s') \<Rightarrow> Some ((st\<lparr>sh_state := ST_SNAPPED\<rparr>, True, r', word 0, True), s')
              | (_, s') \<Rightarrow> Some ((st, True, r', word 1, True), s')))
        else if op = OpRestore then
          (case read_str 512 r of
             CNeed \<Rightarrow> None
           | CBad r' \<Rightarrow> Some ((st, True, r', word 1, True), s)
           | CStr path r' \<Rightarrow> (case shimRestore cu path s of
                (Ret _, s') \<Rightarrow> Some ((st\<lparr>sh_state := ST_RESTORED\<rparr>, True, r', word 0, True), s')
              | (_, s') \<Rightarrow> Some ((st, True, r', word 1, True), s')))
        else if op = OpResume then Some ((st\<lparr>sh_state := ST_RUNNING\<rparr>, True, r, word 0, True), s)
        else if op = OpQuit then Some ((st, True, r, word 0, True), s)
        else Some ((st, True, r, word 1, True), s))"

definition handle_client :: "cuda \<Rightarrow> shimState \<Rightarrow> bool \<Rightarrow> bytes \<Rightarrow> 'x os_state_scheme
    \<Rightarrow> (shimState, 'x os_state_scheme) served" where
  "handle_client cu st authed inp s =
     (if sh_secret st \<noteq> [] \<and> \<not> authed then require_auth st inp s else handle_request cu st inp s)"

text \<open>The state after \<open>ckpt_ipc_init\<close>: the secret is cut to its buffer.\<close>

definition ipc_init :: "(string \<Rightarrow> string option) \<Rightarrow> shimState" where
  "ipc_init getenv =
     \<lparr>sh_secret = (case getenv ''CUDACKPT_RPC_SECRET'' of None \<Rightarrow> [] | Some sec \<Rightarrow> take 255 sec),
      sh_state = (if getenv ''CUDACKPT_NEED_GPU'' \<noteq> None then ST_FROZEN else ST_RUNNING)\<rparr>"

lemma keeps_shimRestore:
  assumes "\<And>f b. keeps P (os_WriteFile f b)" and "\<And>f. keeps P (os_Remove f)"
  shows "keeps P (shimRestore cu dir)"
proof (rule keepsI)
  fix s assume P: "P s"
  have "keeps P (shim_fail dir ''restore.err'' line :: (_, unit) act)" for line
    by (rule keeps_shim_fail [OF assms(1)])
  moreover have "keeps P (c_unlink (path_join dir ''restore.err''))" by (rule keeps_c_unlink [OF assms(2)])
  ultimately show "P (snd (shimRestore cu dir s))"
    using P by (cases "cu_restore cu (c_read dir s)") (simp_all add: shimRestore_def keeps_def)
qed

text \<open>What a round of the shim can do to the files.\<close>

lemma handle_client_files:
  assumes "handle_client cu st a inp s = Some (v, s')"
  shows "s' = s \<or> (\<exists>d. s' = snd (shimSnapshot cu d s)) \<or> (\<exists>d. s' = snd (shimRestore cu d s))"
  using assms
  by (auto simp: handle_client_def require_auth_def handle_request_def
      split: if_splits option.splits prod.splits outcome.splits c_str.splits) (metis snd_conv)+

end
