(* ===== verification/Rpc_Client.thy ===== *)
theory Rpc_Client
  imports Rpc
begin

text \<open>
  The client half of \<open>pkg/rpc/proto.go\<close>. The state of the operating system is extended
  by the servers that listen on sockets and by the open connections; a \<open>Client\<close> is the
  index of its connection. The server end of a connection is pumped whenever the client
  waits for bytes.
\<close>

section \<open>Connections\<close>

datatype server = Mock mockState | Shim shimState

record conn =
  c_srv :: path
  c_authed :: bool
  c_in :: bytes
  c_out :: bytes
  c_closed :: bool

record world = os_state +
  servers :: "(path \<times> server) list"
  conns :: "conn list"

type_synonym Client = nat

definition server_at :: "'x world_scheme \<Rightarrow> path \<Rightarrow> server option" where
  "server_at w p = map_of (servers w) p"

definition server_step :: "cuda \<Rightarrow> server \<Rightarrow> bool \<Rightarrow> bytes \<Rightarrow> 'x os_state_scheme
    \<Rightarrow> (server, 'x os_state_scheme) served" where
  "server_step cu srv authed inp s =
     (case srv of
        Mock st \<Rightarrow> map_option (\<lambda>((st', x), s'). ((Mock st', x), s')) (serveMockConn st authed inp s)
      | Shim st \<Rightarrow> map_option (\<lambda>((st', x), s'). ((Shim st', x), s')) (handle_client cu st authed inp s))"

definition set_conn :: "Client \<Rightarrow> conn \<Rightarrow> 'x world_scheme \<Rightarrow> 'x world_scheme" where
  "set_conn k c w = w\<lparr>conns := (conns w)[k := c]\<rparr>"

text \<open>One round of the server on connection \<open>k\<close>, if it can make one.\<close>

definition conn_step :: "cuda \<Rightarrow> Client \<Rightarrow> 'x world_scheme \<Rightarrow> 'x world_scheme option" where
  "conn_step cu k w =
     (let c = conns w ! k in
      if c_closed c then None
      else case server_at w (c_srv c) of None \<Rightarrow> None | Some srv \<Rightarrow>
        (case server_step cu srv (c_authed c) (c_in c) w of
           None \<Rightarrow> None
         | Some ((srv', authed', inp', out, closed'), w') \<Rightarrow>
             Some (set_conn k (c\<lparr>c_authed := authed', c_in := inp', c_out := c_out c @ out,
                 c_closed := closed'\<rparr>)
               (w'\<lparr>servers := AList.update (c_srv c) srv' (servers w')\<rparr>))))"

function pump :: "cuda \<Rightarrow> Client \<Rightarrow> 'x world_scheme \<Rightarrow> 'x world_scheme" where
  "pump cu k w =
     (case conn_step cu k w of
        None \<Rightarrow> w
      | Some w' \<Rightarrow>
          if length (c_in (conns w' ! k)) < length (c_in (conns w ! k)) then pump cu k w' else w')"
  by pat_completeness auto

termination
  by (relation "measure (\<lambda>(cu, k, w). length (c_in (conns w ! k)))") auto

declare pump.simps [simp del]

definition conn_Write :: "Client \<Rightarrow> bytes \<Rightarrow> ('x world_scheme, unit) act" where
  "conn_Write k b w =
     (let c = conns w ! k in
      if c_closed c then (Err (FmtError ''write unix: broken pipe''), w)
      else (Ret (), set_conn k (c\<lparr>c_in := c_in c @ b\<rparr>) w))"

text \<open>\<open>io.ReadFull\<close> on the connection.\<close>

definition conn_ReadFull :: "cuda \<Rightarrow> Client \<Rightarrow> nat \<Rightarrow> ('x world_scheme, bytes) act" where
  "conn_ReadFull cu k n w =
     (let w' = (if n \<le> length (c_out (conns w ! k)) then w else pump cu k w); c = conns w' ! k in
      if n \<le> length (c_out c) then (Ret (take n (c_out c)), set_conn k (c\<lparr>c_out := drop n (c_out c)\<rparr>) w')
      else if c_closed c
        then (Err (if c_out c = [] then EOF else UnexpectedEOF), set_conn k (c\<lparr>c_out := []\<rparr>) w')
      else (Diverge, w'))"

definition conn_Close :: "Client \<Rightarrow> ('x world_scheme, unit) act" where
  "conn_Close k w = (Ret (), set_conn k ((conns w ! k)\<lparr>c_closed := True\<rparr>) w)"

text \<open>\<open>net.Dial("unix", path)\<close>: somebody must listen on a socket at the path.\<close>

definition net_Dial :: "string \<Rightarrow> ('x world_scheme, Client) act" where
  "net_Dial path w =
     (if node_at w (path_of path) = Some SockN \<and> server_at w (path_of path) \<noteq> None
      then (Ret (length (conns w)),
        w\<lparr>conns := conns w @ [\<lparr>c_srv = path_of path, c_authed = False, c_in = [], c_out = [],
          c_closed = False\<rparr>]\<rparr>)
      else if node_at w (path_of path) = None
        then (Err (FmtError (''dial unix '' @ path @ '': connect: no such file or directory'')), w)
      else (Err (FmtError (''dial unix '' @ path @ '': connect: connection refused'')), w))"

section \<open>proto.go\<close>

definition ShimSocketPath :: "string \<Rightarrow> int \<Rightarrow> string" where
  "ShimSocketPath runDir pid =
     Join (if runDir = [] then ''/run/cudackpt'' else runDir) (Itoa pid @ ''.sock'')"

definition writeU32 :: "Client \<Rightarrow> u32 \<Rightarrow> ('x world_scheme, unit) act" where
  "writeU32 k v = conn_Write k (be_put 4 v)"

definition readU32 :: "cuda \<Rightarrow> Client \<Rightarrow> ('x world_scheme, u32) act" where
  "readU32 cu k = bindA (conn_ReadFull cu k 4) (\<lambda>b. retA (be_get b))"

definition writeStr :: "Client \<Rightarrow> string \<Rightarrow> ('x world_scheme, unit) act" where
  "writeStr k s =
     bindA (writeU32 k (word_of_nat (length s))) (\<lambda>_.
       if s = [] then retA () else conn_Write k (bytes_of s))"

text \<open>\<open>fmt.Errorf("... rc=%d", rc)\<close>.\<close>

definition rc_error :: "string \<Rightarrow> u32 \<Rightarrow> goerr" where
  "rc_error what rc = FmtError (what @ '' rc='' @ nat_dec (unat rc))"

definition authenticate :: "cuda \<Rightarrow> Client \<Rightarrow> string \<Rightarrow> ('x world_scheme, unit) act" where
  "authenticate cu k secret =
     (if secret = [] then retA ()
      else
        bindA (writeU32 k OpAuth) (\<lambda>_.
        bindA (writeStr k secret) (\<lambda>_.
        bindA (readU32 cu k) (\<lambda>rc.
          if rc \<noteq> 0 then errA (rc_error ''auth'' rc) else retA ()))))"

definition DialPathWithSecret :: "cuda \<Rightarrow> string \<Rightarrow> string \<Rightarrow> ('x world_scheme, Client) act" where
  "DialPathWithSecret cu path secret =
     bindA (net_Dial path) (\<lambda>k.
     bindA (tryA (authenticate cu k secret)) (\<lambda>r. case r of
       Inl err \<Rightarrow> bindA (conn_Close k) (\<lambda>_. errA err)
     | Inr _ \<Rightarrow> retA k))"

definition DialPath :: "cuda \<Rightarrow> string \<Rightarrow> ('x world_scheme, Client) act" where
  "DialPath cu path =
     bindA (readA (\<lambda>w. Ret (Getenv ''CUDACKPT_RPC_SECRET'' w))) (\<lambda>secret. DialPathWithSecret cu path secret)"

definition DialRunDir :: "cuda \<Rightarrow> string \<Rightarrow> int \<Rightarrow> ('x world_scheme, Client) act" where
  "DialRunDir cu runDir pid = DialPath cu (ShimSocketPath runDir pid)"

definition Dial :: "cuda \<Rightarrow> int \<Rightarrow> ('x world_scheme, Client) act" where
  "Dial cu pid = DialRunDir cu [] pid"

text \<open>Every client comes from \<open>DialPathWithSecret\<close>, so its connection is never nil.\<close>

definition client_Close :: "Client \<Rightarrow> ('x world_scheme, unit) act" where
  "client_Close k = conn_Close k"

definition call :: "cuda \<Rightarrow> Client \<Rightarrow> u32 \<Rightarrow> string \<Rightarrow> ('x world_scheme, u32) act" where
  "call cu k op path =
     bindA (writeU32 k op) (\<lambda>_.
     bindA (if op = OpSnapshot \<or> op = OpRestore then writeStr k path else retA ()) (\<lambda>_.
       readU32 cu k))"

definition expect_zero :: "string \<Rightarrow> ('x world_scheme, u32) act \<Rightarrow> ('x world_scheme, unit) act" where
  "expect_zero what m = bindA m (\<lambda>rc. if rc \<noteq> 0 then errA (rc_error what rc) else retA ())"

definition Ping :: "cuda \<Rightarrow> Client \<Rightarrow> ('x world_scheme, unit) act" where
  "Ping cu k = expect_zero ''ping'' (call cu k OpPing [])"

definition Status :: "cuda \<Rightarrow> Client \<Rightarrow> ('x world_scheme, u32) act" where
  "Status cu k = call cu k OpStatus []"

definition Freeze :: "cuda \<Rightarrow> Client \<Rightarrow> ('x world_scheme, unit) act" where
  "Freeze cu k = expect_zero ''freeze'' (call cu k OpFreeze [])"

definition Snapshot :: "cuda \<Rightarrow> Client \<Rightarrow> string \<Rightarrow> ('x world_scheme, unit) act" where
  "Snapshot cu k dir = expect_zero ''snapshot'' (call cu k OpSnapshot dir)"

definition Restore :: "cuda \<Rightarrow> Client \<Rightarrow> string \<Rightarrow> ('x world_scheme, unit) act" where
  "Restore cu k dir = expect_zero ''restore'' (call cu k OpRestore dir)"

definition Resume :: "cuda \<Rightarrow> Client \<Rightarrow> ('x world_scheme, unit) act" where
  "Resume cu k = expect_zero ''resume'' (call cu k OpResume [])"

definition client_Stats :: "cuda \<Rightarrow> Client \<Rightarrow> ('x world_scheme, Stats) act" where
  "client_Stats cu k =
     bindA (writeU32 k OpStats) (\<lambda>_.
     bindA (readU32 cu k) (\<lambda>rc.
       if rc \<noteq> 0 then errA (rc_error ''stats'' rc)
       else
         bindA (readU32 cu k) (\<lambda>alloc.
         bindA (readU32 cu k) (\<lambda>lo.
         bindA (readU32 cu k) (\<lambda>hi.
         bindA (readU32 cu k) (\<lambda>stream.
         bindA (readU32 cu k) (\<lambda>mods.
         bindA (readU32 cu k) (\<lambda>syms.
         bindA (readU32 cu k) (\<lambda>evs.
         bindA (readU32 cu k) (\<lambda>ctxs.
         bindA (readU32 cu k) (\<lambda>unsup.
         bindA (readU32 cu k) (\<lambda>state.
           retA \<lparr>st_AllocCount = alloc,
             st_TotalBytes = push_bit 32 (ucast hi) OR ucast lo, st_StreamCount = stream,
             st_ModuleCount = mods, st_SymbolCount = syms, st_EventCount = evs, st_CtxCount = ctxs,
             st_UnsupportedCode = unsup, st_State = state\<rparr>))))))))))))"

definition ServeMockWithOptions :: "string \<Rightarrow> MockOptions \<Rightarrow> ('x world_scheme, unit) act" where
  "ServeMockWithOptions path opts =
     bindA (tryA (os_Remove path)) (\<lambda>_ w.
       let p = path_of path in
       if node_at w p = None \<and> node_at w (butlast p) = Some DirN
       then (Ret (), put_node p SockN (w\<lparr>servers := AList.update p (Mock (mockOf opts)) (servers w)\<rparr>))
       else (Err (FmtError (''listen unix '' @ path)), w))"

definition ServeMockAt :: "string \<Rightarrow> ('x world_scheme, unit) act" where
  "ServeMockAt path = ServeMockWithOptions path \<lparr>mo_Secret = [], mo_FailFreezeUntil = 0, mo_StatusSeq = []\<rparr>"

text \<open>The function the mock returns to stop it: the listener and its socket file go away.\<close>

definition stopMock :: "string \<Rightarrow> ('x world_scheme, unit) act" where
  "stopMock path =
     bindA (\<lambda>w. (Ret (), w\<lparr>servers := AList.delete (path_of path) (servers w)\<rparr>)) (\<lambda>_.
     bindA (tryA (os_Remove path)) (\<lambda>_. retA ()))"

end
