(* ===== verification/Control_Restore.thy ===== *)
theory Control_Restore
  imports Go_Time Rpc_Client Image_Staging Retention
begin

text \<open>
  The helpers of \<open>pkg/control\<close> around a restore: back-off between polls
  (\<open>restore.go\<close>), the pid files that hand the restored process over, which shims to try
  and in which order, the listings of \<open>orchestrator.go\<close>, \<open>StateName\<close> of
  \<open>state.go\<close> and the retry loop of \<open>queue.go\<close>. What else happens while the
  program sleeps is not the program's doing: the retry loop takes the effect of
  \<open>time.Sleep\<close> on the state as an argument, \<open>sleepA\<close> being the one where only the
  clock moves.
\<close>

section \<open>restore.go\<close>

definition maxRestoreBackoff :: Duration where "maxRestoreBackoff = 5 * Second"

fun pollLoop :: "nat \<Rightarrow> Duration \<Rightarrow> Duration" where
  "pollLoop 0 d = d"
| "pollLoop (Suc n) d =
     (let d' = d * 2 in
      if sint maxRestoreBackoff \<le> sint d' then maxRestoreBackoff else pollLoop n d')"

definition restorePollDelay :: "int \<Rightarrow> Duration \<Rightarrow> Duration" where
  "restorePollDelay attempt base0 =
     (let base = (if sint base0 \<le> 0 then 200 * Millisecond else base0) in
      if attempt \<le> 1 then base else pollLoop (nat (attempt - 1)) base)"

definition readRestoredPID :: "string \<Rightarrow> ('x os_state_scheme, int) act" where
  "readRestoredPID dir =
     bindA (tryA (os_ReadFile (Join dir ''restored.pid''))) (\<lambda>r. case r of
       Inl _ \<Rightarrow> retA 0
     | Inr b \<Rightarrow> (case Atoi (TrimSpace (string_of b)) of
         None \<Rightarrow> retA 0
       | Some pid \<Rightarrow> if pid \<le> 0 then retA 0 else retA pid))"

definition writeRestoreHandoff :: "string \<Rightarrow> int \<Rightarrow> ('x os_state_scheme, unit) act" where
  "writeRestoreHandoff dir pid =
     (let body = bytes_of (Itoa pid @ [CHR 0x0A]) in
      bindA (os_WriteFile (Join dir ''restored.handoff'') body) (\<lambda>_.
        os_WriteFile (Join dir ''restored.pid'') body))"

definition shimSocketPath :: "string \<Rightarrow> int \<Rightarrow> string" where
  "shimSocketPath runDir pid =
     Join (if runDir = [] then ''/run/cudackpt'' else runDir) (Itoa pid @ ''.sock'')"

definition shimSocketReady :: "string \<Rightarrow> int \<Rightarrow> ('x os_state_scheme, bool) act" where
  "shimSocketReady runDir pid =
     (if pid \<le> 0 then retA False
      else bindA (tryA (os_Stat (shimSocketPath runDir pid))) (\<lambda>st. retA (st = Inr SockN)))"

definition resolveRestorePID :: "string \<Rightarrow> int \<Rightarrow> int list \<Rightarrow> ('x os_state_scheme, int) act" where
  "resolveRestorePID imagePath criuPID shims =
     (if 0 < criuPID then retA criuPID
      else bindA (readRestoredPID imagePath) (\<lambda>pid.
        if 0 < pid then retA pid
        else if shims \<noteq> [] then retA (hd shims) else retA 0))"

fun candidateLoop :: "int list \<Rightarrow> int list \<Rightarrow> int list \<Rightarrow> int list" where
  "candidateLoop [] seen out = out"
| "candidateLoop (p # ps) seen out =
     (if p \<in> set seen then candidateLoop ps seen out else candidateLoop ps (p # seen) (out @ [p]))"

definition restoreCandidates :: "int \<Rightarrow> int list \<Rightarrow> int list" where
  "restoreCandidates primary shims =
     (if 0 < primary then candidateLoop shims [primary] [primary] else candidateLoop shims [] [])"

section \<open>Listings\<close>

text \<open>
  \<open>fmt.Sscanf(name, "%d.sock", &pid)\<close>: blanks, an optional sign, digits within the range
  of \<open>int64\<close>, then the literal text; what follows it is not looked at.
\<close>

definition scanPid :: "string \<Rightarrow> int option" where
  "scanPid name =
     (let s = dropWhile (\<lambda>c. is_space c \<and> c \<noteq> CHR 0x0A) name;
          sgn = takeWhile (\<lambda>c. c = CHR ''-'' \<or> c = CHR ''+'') (take 1 s);
          r = drop (length sgn) s;
          ds = takeWhile is_digit r
      in if HasPrefix (drop (length ds) r) ''.sock'' then Atoi (sgn @ ds) else None)"

definition ListShims :: "string \<Rightarrow> ('x os_state_scheme, int list) act" where
  "ListShims runDir =
     bindA (tryA (os_ReadDir (if runDir = [] then ''/run/cudackpt'' else runDir))) (\<lambda>r. case r of
       Inl err \<Rightarrow> if IsNotExist err then retA [] else errA err
     | Inr ents \<Rightarrow> retA (List.map_filter (\<lambda>e. scanPid (fst e)) ents))"

definition sortedShims :: "string \<Rightarrow> ('x os_state_scheme, int list) act" where
  "sortedShims runDir = bindA (ListShims runDir) (\<lambda>pids. retA (sort pids))"

definition ListImages :: "string \<Rightarrow> ('x os_state_scheme, string list) act" where
  "ListImages root =
     bindA (tryA (os_ReadDir root)) (\<lambda>r. case r of
       Inl err \<Rightarrow> if IsNotExist err then retA [] else errA err
     | Inr ents \<Rightarrow> retA (map (\<lambda>e. Join root (fst e)) (filter (\<lambda>e. snd e = DirN) ents)))"

definition StateName :: "u32 \<Rightarrow> string" where
  "StateName v =
     (if v = 0 then ''idle'' else if v = 1 then ''frozen'' else if v = 2 then ''snapped''
      else if v = 3 then ''restored'' else if v = 4 then ''running'' else ''unknown'')"

section \<open>queue.go\<close>

record RetryPolicy =
  r_MaxAttempts :: int
  r_Backoff :: Duration

definition sleepA :: "Duration \<Rightarrow> 'x os_state_scheme \<Rightarrow> 'x os_state_scheme" where
  "sleepA d s = s\<lparr>clock := clock s + max 0 (sint d)\<rparr>"

definition doA :: "('s \<Rightarrow> 's) \<Rightarrow> ('s, unit) act" where
  "doA f = (\<lambda>s. (Ret (), f s))"

definition policyDefaults :: "RetryPolicy \<Rightarrow> RetryPolicy" where
  "policyDefaults p =
     \<lparr>r_MaxAttempts = (if r_MaxAttempts p \<le> 0 then 1 else r_MaxAttempts p),
      r_Backoff = (if sint (r_Backoff p) \<le> 0 then 500 * Millisecond else r_Backoff p)\<rparr>"

text \<open>The loop from \<open>attempt\<close> on, with \<open>n\<close> attempts left after it.\<close>

fun retryLoop :: "(Duration \<Rightarrow> 's \<Rightarrow> 's) \<Rightarrow> nat \<Rightarrow> int \<Rightarrow> Duration \<Rightarrow> (int \<Rightarrow> ('s, unit) act)
    \<Rightarrow> (goerr \<Rightarrow> bool) \<Rightarrow> ('s, unit) act" where
  "retryLoop sleep n attempt backoff attemptFn stopRetry =
     bindA (tryA (attemptFn attempt)) (\<lambda>r. case r of
       Inr _ \<Rightarrow> retA ()
     | Inl err \<Rightarrow>
         if n = 0 \<or> stopRetry err then errA err
         else bindA (doA (sleep backoff)) (\<lambda>_.
           retryLoop sleep (n - 1) (attempt + 1) backoff attemptFn stopRetry))"

declare retryLoop.simps [simp del]

definition applyRetry :: "(Duration \<Rightarrow> 's \<Rightarrow> 's) \<Rightarrow> RetryPolicy \<Rightarrow> (int \<Rightarrow> ('s, unit) act)
    \<Rightarrow> (goerr \<Rightarrow> bool) \<Rightarrow> ('s, unit) act" where
  "applyRetry sleep policy0 attemptFn stopRetry =
     (let policy = policyDefaults policy0 in
      retryLoop sleep (nat (r_MaxAttempts policy) - 1) 1 (r_Backoff policy) attemptFn stopRetry)"

lemma doA_apply [simp]: "doA f s = (Ret (), f s)"
  by (simp add: doA_def)

end
