(* ===== verification/Config.thy ===== *)
theory Config
  imports Go_Time Go_Os
begin

text \<open>
  \<open>pkg/config/config.go\<close>: the built-in defaults, the file of \<open>key=value\<close> lines
  (\<open>CUDACKPT_CONFIG\<close>, by default \<open>/etc/cudackpt.conf\<close>) and the environment, in
  increasing order of precedence. \<open>applyLine\<close> is the body of the scanning loop: it folds
  one line into the configuration and the warnings.
\<close>

section \<open>Definitions\<close>

record Config =
  c_ImageRoot :: string
  c_RunDir :: string
  c_RpcSecret :: string
  c_RestoreTimeout :: Duration
  c_ShimPoll :: Duration
  c_MaxRetries :: int
  c_RetryBackoff :: Duration

record LoadResult =
  l_Config :: Config
  l_Warnings :: "string list"

text \<open>A value that is used only if it parses.\<close>

definition if_parses :: "goerr + 'v \<Rightarrow> ('v \<Rightarrow> Config) \<Rightarrow> Config \<Rightarrow> Config" where
  "if_parses r f cfg = (case r of Inl _ \<Rightarrow> cfg | Inr v \<Rightarrow> f v)"

text \<open>\<open>if v := os.Getenv(k); v != ""\<close>.\<close>

definition with_env :: "string \<Rightarrow> (string \<Rightarrow> Config \<Rightarrow> Config) \<Rightarrow> 'x os_state_scheme \<Rightarrow> Config \<Rightarrow> Config" where
  "with_env k f s cfg = (let v = Getenv k s in if v = [] then cfg else f v cfg)"

definition mergeEnv :: "'x os_state_scheme \<Rightarrow> Config \<Rightarrow> Config" where
  "mergeEnv s cfg0 =
     (let cfg1 = with_env ''CUDACKPT_IMAGE_ROOT'' (\<lambda>v cfg. cfg\<lparr>c_ImageRoot := v\<rparr>) s cfg0;
          cfg2 = with_env ''CUDACKPT_RUN_DIR'' (\<lambda>v cfg. cfg\<lparr>c_RunDir := v\<rparr>) s cfg1;
          cfg3 = with_env ''CUDACKPT_RESTORE_TIMEOUT'' (\<lambda>v cfg.
            if_parses (ParseDuration v) (\<lambda>d. cfg\<lparr>c_RestoreTimeout := d\<rparr>) cfg) s cfg2;
          cfg4 = with_env ''CUDACKPT_SHIM_POLL'' (\<lambda>v cfg.
            if_parses (ParseDuration v) (\<lambda>d. cfg\<lparr>c_ShimPoll := d\<rparr>) cfg) s cfg3;
          cfg5 = with_env ''CUDACKPT_MAX_RETRIES'' (\<lambda>v cfg.
            if_parses (atoi v) (\<lambda>n. cfg\<lparr>c_MaxRetries := n\<rparr>) cfg) s cfg4;
          cfg6 = with_env ''CUDACKPT_RETRY_BACKOFF'' (\<lambda>v cfg.
            if_parses (ParseDuration v) (\<lambda>d. cfg\<lparr>c_RetryBackoff := d\<rparr>) cfg) s cfg5
      in with_env ''CUDACKPT_RPC_SECRET'' (\<lambda>v cfg. cfg\<lparr>c_RpcSecret := v\<rparr>) s cfg6)"

definition builtin :: Config where
  "builtin = \<lparr>c_ImageRoot = ''/var/lib/cudackpt'', c_RunDir = ''/run/cudackpt'', c_RpcSecret = [],
     c_RestoreTimeout = 60 * Second, c_ShimPoll = 200 * Millisecond, c_MaxRetries = 3,
     c_RetryBackoff = 500 * Millisecond\<rparr>"

definition Default :: "'x os_state_scheme \<Rightarrow> Config" where
  "Default s = mergeEnv s builtin"

text \<open>\<open>strings.Cut(line, "=")\<close>.\<close>

definition Cut :: "string \<Rightarrow> (string \<times> string) option" where
  "Cut l = (let k = takeWhile (\<lambda>c. c \<noteq> CHR ''='') l in
     if k = l then None else Some (k, drop (Suc (length k)) l))"

type_synonym loading = "Config \<times> string list"

definition or_warn :: "goerr + 'v \<Rightarrow> ('v \<Rightarrow> Config) \<Rightarrow> string \<Rightarrow> loading \<Rightarrow> loading" where
  "or_warn r f w acc = (case r of Inl _ \<Rightarrow> (fst acc, snd acc @ [w]) | Inr v \<Rightarrow> (f v, snd acc))"

definition applyKey :: "string \<Rightarrow> string \<Rightarrow> loading \<Rightarrow> loading" where
  "applyKey k v acc =
     (let (cfg, warnings) = acc in
      if k = ''image_root'' then (cfg\<lparr>c_ImageRoot := v\<rparr>, warnings)
      else if k = ''run_dir'' then (cfg\<lparr>c_RunDir := v\<rparr>, warnings)
      else if k = ''restore_timeout'' then
        or_warn (ParseDuration v) (\<lambda>d. cfg\<lparr>c_RestoreTimeout := d\<rparr>) (''invalid restore_timeout: '' @ v) acc
      else if k = ''shim_poll'' then
        or_warn (ParseDuration v) (\<lambda>d. cfg\<lparr>c_ShimPoll := d\<rparr>) (''invalid shim_poll: '' @ v) acc
      else if k = ''max_retries'' then
        or_warn (atoi v) (\<lambda>n. cfg\<lparr>c_MaxRetries := n\<rparr>) (''invalid max_retries: '' @ v) acc
      else if k = ''retry_backoff'' then
        or_warn (ParseDuration v) (\<lambda>d. cfg\<lparr>c_RetryBackoff := d\<rparr>) (''invalid retry_backoff: '' @ v) acc
      else if k = ''rpc_secret'' then (cfg\<lparr>c_RpcSecret := v\<rparr>, warnings)
      else (cfg, warnings @ [''unknown config key: '' @ k]))"

definition applyLine :: "loading \<Rightarrow> string \<Rightarrow> loading" where
  "applyLine acc text =
     (let line = TrimSpace text in
      if line = [] \<or> HasPrefix line ''#'' then acc
      else case Cut line of
        None \<Rightarrow> (fst acc, snd acc @ [''invalid line (expected key=value): '' @ line])
      | Some (k, v) \<Rightarrow> applyKey (TrimSpace k) (TrimSpace v) acc)"

text \<open>Reading a directory fails at the first line, which ends the loop without one.\<close>

definition configPath :: "'x os_state_scheme \<Rightarrow> string" where
  "configPath s = (let p = Getenv ''CUDACKPT_CONFIG'' s in if p = [] then ''/etc/cudackpt.conf'' else p)"

definition LoadWithWarnings :: "'x os_state_scheme \<Rightarrow> LoadResult" where
  "LoadWithWarnings s =
     (case fst (os_Open (configPath s) s) of
        Ret f \<Rightarrow>
          (let text = (case file_bytes (configPath s) f of Ret b \<Rightarrow> string_of b | _ \<Rightarrow> []);
               (cfg, warnings) = foldl applyLine (Default s, []) (fst (scan_text text))
           in \<lparr>l_Config = mergeEnv s cfg, l_Warnings = warnings\<rparr>)
      | _ \<Rightarrow> \<lparr>l_Config = Default s, l_Warnings = []\<rparr>)"

end
