(* ===== verification/Metrics.thy ===== *)
theory Metrics
  imports Go_Error
begin

text \<open>
  \<open>pkg/metrics/registry.go\<close>: named counters (64-bit, wrapping) and gauges, and the text
  a scrape returns. The mutex makes every method atomic, so a method is a function on the
  registry. Gauges are only ever set to the length of a listing; they are kept as natural
  numbers and rendered as \<open>%g\<close> renders the double of that value.
\<close>

section \<open>Definitions\<close>

record Registry =
  rg_counters :: "(string \<times> u64) list"
  rg_gauges :: "(string \<times> nat) list"

definition NewRegistry :: Registry where
  "NewRegistry = \<lparr>rg_counters = [], rg_gauges = []\<rparr>"

definition reg_count :: "Registry \<Rightarrow> string \<Rightarrow> u64" where
  "reg_count r name = (case map_of (rg_counters r) name of None \<Rightarrow> 0 | Some v \<Rightarrow> v)"

definition reg_Add :: "string \<Rightarrow> u64 \<Rightarrow> Registry \<Rightarrow> Registry" where
  "reg_Add name delta r = r\<lparr>rg_counters := AList.update name (reg_count r name + delta) (rg_counters r)\<rparr>"

definition reg_Inc :: "string \<Rightarrow> Registry \<Rightarrow> Registry" where
  "reg_Inc name = reg_Add name 1"

definition reg_Set :: "string \<Rightarrow> nat \<Rightarrow> Registry \<Rightarrow> Registry" where
  "reg_Set name v r = r\<lparr>rg_gauges := AList.update name v (rg_gauges r)\<rparr>"

text \<open>The two maps, copied.\<close>

definition reg_Snapshot :: "Registry \<Rightarrow> (string \<times> u64) list \<times> (string \<times> nat) list" where
  "reg_Snapshot r = (rg_counters r, rg_gauges r)"

text \<open>\<open>%g\<close> of a whole number: scientific from a million on, without trailing zeros.\<close>

definition fmt_g :: "nat \<Rightarrow> string" where
  "fmt_g n =
     (let ds = nat_dec n; e = length ds - 1 in
      if e < 6 then ds
      else
        let m = rev (dropWhile (\<lambda>c. c = CHR ''0'') (rev ds)); es = nat_dec e in
        take 1 m @ (if length m = 1 then [] else CHR ''.'' # drop 1 m) @ ''e+'' @
        (if length es < 2 then CHR ''0'' # es else es))"

definition nl :: string where "nl = [CHR 0x0A]"

definition promLine :: "(string \<times> u64) list \<Rightarrow> (string \<times> nat) list \<Rightarrow> string \<Rightarrow> string" where
  "promLine counters gauges name =
     (case map_of counters name of None \<Rightarrow> [] | Some v \<Rightarrow>
        ''# TYPE '' @ name @ '' counter'' @ nl @ name @ '' '' @ nat_dec (unat v) @ nl) @
     (case map_of gauges name of None \<Rightarrow> [] | Some v \<Rightarrow>
        ''# TYPE '' @ name @ '' gauge'' @ nl @ name @ '' '' @ fmt_g v @ nl)"

definition promNames :: "(string \<times> u64) list \<Rightarrow> (string \<times> nat) list \<Rightarrow> string list" where
  "promNames counters gauges =
     (let ks = remdups (map fst counters)
      in sort (ks @ filter (\<lambda>k. k \<notin> set ks) (remdups (map fst gauges))))"

definition WritePrometheus :: "Registry \<Rightarrow> string" where
  "WritePrometheus r =
     (let (counters, gauges) = reg_Snapshot r
      in concat (map (promLine counters gauges) (promNames counters gauges)))"

text \<open>The handler: status and body for a request path.\<close>

definition metricsHandler :: "Registry \<Rightarrow> string \<Rightarrow> nat \<times> string" where
  "metricsHandler r path =
     (if path \<noteq> ''/metrics'' then (404, ''404 page not found'' @ nl) else (200, WritePrometheus r))"

definition CheckpointsTotal :: string where "CheckpointsTotal = ''cudackpt_checkpoints_total''"
definition CheckpointFailures :: string where "CheckpointFailures = ''cudackpt_checkpoint_failures_total''"
definition RestoresTotal :: string where "RestoresTotal = ''cudackpt_restores_total''"
definition RestoreFailuresTotal :: string where "RestoreFailuresTotal = ''cudackpt_restore_failures_total''"
definition RollbacksTotal :: string where "RollbacksTotal = ''cudackpt_rollbacks_total''"
definition GCRemovedTotal :: string where "GCRemovedTotal = ''cudackpt_gc_removed_total''"
definition GCErrorsTotal :: string where "GCErrorsTotal = ''cudackpt_gc_errors_total''"
definition ImagesGauge :: string where "ImagesGauge = ''cudackpt_images''"
definition ShimsGauge :: string where "ShimsGauge = ''cudackpt_shims''"

lemmas metric_names = CheckpointsTotal_def CheckpointFailures_def RestoresTotal_def
  RestoreFailuresTotal_def RollbacksTotal_def GCRemovedTotal_def GCErrorsTotal_def ImagesGauge_def
  ShimsGauge_def

section \<open>Counting\<close>

lemma reg_count_Add: "reg_count (reg_Add n d r) m = (if m = n then reg_count r n + d else reg_count r m)"
  by (simp add: reg_count_def reg_Add_def update_conv)

lemma reg_count_Inc: "reg_count (reg_Inc n r) m = (if m = n then reg_count r n + 1 else reg_count r m)"
  by (simp add: reg_Inc_def reg_count_Add)

lemma reg_count_Set [simp]: "reg_count (reg_Set n v r) m = reg_count r m"
  by (simp add: reg_count_def reg_Set_def)

end
