(* ===== verification/Go_Json.thy ===== *)
theory Go_Json
  imports Go_Text
begin

text \<open>
  \<open>encoding/json.Marshal\<close> on what the program logs: objects whose values are strings,
  integers and objects of these. Strings are escaped the way the encoder does by default:
  quotes, backslashes and control characters, the characters \<open><\<close>, \<open>>\<close> and
  \<open>&\<close>, the line separators U+2028 and U+2029, and every byte that is not part of
  well-formed UTF-8 as U+FFFD. The keys of a map are sorted, those of a struct are in the
  order of its fields.
\<close>

datatype json = JStr string | JInt int | JObj "(string \<times> json) list"

section \<open>Strings\<close>

definition u00 :: "char \<Rightarrow> string" where
  "u00 c = (let n = of_char c :: nat in
     [CHR 0x5C, CHR ''u'', CHR ''0'', CHR ''0'', hex_digit (n div 16), hex_digit (n mod 16)])"

definition escape_ascii :: "char \<Rightarrow> string" where
  "escape_ascii c =
     (if c = CHR 0x22 \<or> c = CHR 0x5C then [CHR 0x5C, c]
      else if c = CHR 0x08 then [CHR 0x5C, CHR ''b'']
      else if c = CHR 0x0C then [CHR 0x5C, CHR ''f'']
      else if c = CHR 0x0A then [CHR 0x5C, CHR ''n'']
      else if c = CHR 0x0D then [CHR 0x5C, CHR ''r'']
      else if c = CHR 0x09 then [CHR 0x5C, CHR ''t'']
      else if byte_in 0 0x1F c \<or> c = CHR ''<'' \<or> c = CHR ''>'' \<or> c = CHR ''&'' then u00 c
      else [c])"

definition escape_rune :: "string \<Rightarrow> string" where
  "escape_rune r =
     (if r = [CHR 0xE2, CHR 0x80, CHR 0xA8] then CHR 0x5C # ''u2028''
      else if r = [CHR 0xE2, CHR 0x80, CHR 0xA9] then CHR 0x5C # ''u2029'' else r)"

function escape :: "string \<Rightarrow> string" where
  "escape s =
     (case s of
        [] \<Rightarrow> []
      | c # cs \<Rightarrow>
          if byte_in 0 0x7F c then escape_ascii c @ escape cs
          else if utf8_size s = 0 then (CHR 0x5C # ''ufffd'') @ escape cs
          else escape_rune (take (utf8_size s) s) @ escape (drop (utf8_size s) s))"
  by pat_completeness auto

termination
  by (relation "measure length") auto

declare escape.simps [simp del]

definition json_string :: "string \<Rightarrow> string" where
  "json_string s = [CHR 0x22] @ escape s @ [CHR 0x22]"

section \<open>Values\<close>

fun join :: "string \<Rightarrow> string list \<Rightarrow> string" where
  "join sep [] = []"
| "join sep [x] = x"
| "join sep (x # y # zs) = x @ sep @ join sep (y # zs)"

fun Marshal :: "json \<Rightarrow> string" where
  "Marshal (JStr s) = json_string s"
| "Marshal (JInt i) = Itoa i"
| "Marshal (JObj kvs) =
     ''{'' @ join '','' (map (\<lambda>(k, v). json_string k @ '':'' @ Marshal v) kvs) @ ''}''"

text \<open>A \<open>map[string]any\<close>: later entries replace earlier ones, the keys come out sorted.\<close>

definition json_map :: "(string \<times> json) list \<Rightarrow> json" where
  "json_map kvs =
     (let m = foldl (\<lambda>m (k, v). AList.update k v m) [] kvs in
      JObj (map (\<lambda>k. (k, the (map_of m k))) (sort (map fst m))))"

end
