(* ===== verification/Host.thy ===== *)
theory Host
  imports Control_Restore Config Metrics Go_Json
begin

text \<open>
  The machine an orchestrator runs on: the world of theory \<open>Rpc_Client\<close> (files, servers,
  connections) with the process's standard output and error, the metrics registry
  \<open>metrics.Default\<close>, the processes that can be signalled, and the shims that will start
  to listen later, each with the time at which it does; \<open>time.Sleep\<close> lets those appear
  whose time has come. Also \<open>pkg/log/jsonlog.go\<close>, whose one operation writes to the file
  \<open>CUDACKPT_LOG\<close> names or to standard error.
\<close>

section \<open>State\<close>

text \<open>A process: how long after a \<open>SIGTERM\<close> it exits, if it does, and since when it is
  going to be gone.\<close>

record proc =
  pr_exits :: "int option"
  pr_gone :: "int option"

record host = world +
  h_stdout :: string
  h_stderr :: string
  h_metrics :: Registry
  h_procs :: "(int \<times> proc) list"
  h_arrivals :: "(int \<times> path \<times> server) list"

type_synonym 'a hact = "(host, 'a) act"

section \<open>Time and output\<close>

text \<open>A shim binds its socket, replacing a file in the way, if the directory is there.\<close>

definition arrive :: "host \<Rightarrow> int \<times> path \<times> server \<Rightarrow> host" where
  "arrive h a =
     (case a of (_, p, srv) \<Rightarrow>
        if Suc 0 < length p \<and> node_at h (butlast p) = Some DirN \<and> node_at h p \<noteq> Some DirN
        then put_node p SockN (h\<lparr>servers := AList.update p srv (servers h)\<rparr>) else h)"

definition settle :: "host \<Rightarrow> host" where
  "settle h =
     (let due = filter (\<lambda>a. fst a \<le> clock h) (h_arrivals h)
      in foldl arrive (h\<lparr>h_arrivals := filter (\<lambda>a. \<not> fst a \<le> clock h) (h_arrivals h)\<rparr>) due)"

definition sleepH :: "Duration \<Rightarrow> host \<Rightarrow> host" where
  "sleepH d h = settle (sleepA d h)"

definition printA :: "string \<Rightarrow> unit hact" where
  "printA s = doA (\<lambda>h. h\<lparr>h_stdout := h_stdout h @ s\<rparr>)"

definition eprintA :: "string \<Rightarrow> unit hact" where
  "eprintA s = doA (\<lambda>h. h\<lparr>h_stderr := h_stderr h @ s\<rparr>)"

definition metricA :: "(Registry \<Rightarrow> Registry) \<Rightarrow> unit hact" where
  "metricA f = doA (\<lambda>h. h\<lparr>h_metrics := f (h_metrics h)\<rparr>)"

abbreviation incA :: "string \<Rightarrow> unit hact" where
  "incA name \<equiv> metricA (reg_Inc name)"

text \<open>\<open>defer\<close>: run \<open>d\<close> when \<open>m\<close> is over, however it ended.\<close>

definition deferA :: "('s, unit) act \<Rightarrow> ('s, 'a) act \<Rightarrow> ('s, 'a) act" where
  "deferA d m s = (case m s of (r, s') \<Rightarrow> (case r of Diverge \<Rightarrow> (r, s') | _ \<Rightarrow> (r, snd (d s'))))"

text \<open>A call whose error is dropped (\<open>_ = f()\<close>).\<close>

definition ignoreA :: "('s, 'a) act \<Rightarrow> ('s, unit) act" where
  "ignoreA m = bindA (tryA m) (\<lambda>_. retA ())"

section \<open>jsonlog.go\<close>

record Event =
  ev_Time :: string
  ev_Event :: string
  ev_Level :: string
  ev_Error :: string
  ev_Fields :: "(string \<times> json) list"

definition eventJson :: "Event \<Rightarrow> json" where
  "eventJson e = JObj
     ([(''time'', JStr (ev_Time e)), (''event'', JStr (ev_Event e)), (''level'', JStr (ev_Level e))] @
      (if ev_Error e = [] then [] else [(''error'', JStr (ev_Error e))]) @
      (if ev_Fields e = [] then [] else [(''fields'', json_map (ev_Fields e))]))"

text \<open>The file is used when it opens; what writing to it returns is dropped.\<close>

fun open_failed :: "unit outcome \<Rightarrow> bool" where
  "open_failed (Err (PathError op p e)) \<longleftrightarrow> op = ''open''"
| "open_failed _ \<longleftrightarrow> False"

definition emit :: "string \<Rightarrow> string \<Rightarrow> goerr option \<Rightarrow> (string \<times> json) list \<Rightarrow> unit hact" where
  "emit level name err fs h =
     (let e = \<lparr>ev_Time = RFC3339Nano (clock h), ev_Event = name, ev_Level = level,
            ev_Error = (case err of None \<Rightarrow> [] | Some x \<Rightarrow> Error x), ev_Fields = fs\<rparr>;
          b = Marshal (eventJson e) @ nl; p = Getenv ''CUDACKPT_LOG'' h
      in if p = [] then eprintA b h
         else case os_AppendFile p (bytes_of b) h of (r, h') \<Rightarrow>
           if open_failed r then eprintA b h' else (Ret (), h'))"

definition log_Info :: "string \<Rightarrow> (string \<times> json) list \<Rightarrow> unit hact" where
  "log_Info name fs = emit ''info'' name None fs"

definition log_Error :: "string \<Rightarrow> goerr \<Rightarrow> (string \<times> json) list \<Rightarrow> unit hact" where
  "log_Error name err fs = emit ''error'' name (Some err) fs"

section \<open>Basic facts\<close>

lemma printA_apply [simp]: "printA s h = (Ret (), h\<lparr>h_stdout := h_stdout h @ s\<rparr>)"
  by (simp add: printA_def)

lemma eprintA_apply [simp]: "eprintA s h = (Ret (), h\<lparr>h_stderr := h_stderr h @ s\<rparr>)"
  by (simp add: eprintA_def)

lemma metricA_apply [simp]: "metricA f h = (Ret (), h\<lparr>h_metrics := f (h_metrics h)\<rparr>)"
  by (simp add: metricA_def)

lemma emit_Ret: "fst (emit level name err fs h) = Ret ()"
  by (simp add: emit_def Let_def split: prod.split)

lemma log_Ret [simp]: "fst (log_Info name fs h) = Ret ()" "fst (log_Error name err fs h) = Ret ()"
  by (simp_all add: log_Info_def log_Error_def emit_Ret)

lemma keeps_deferA: "keeps P d \<Longrightarrow> keeps P m \<Longrightarrow> keeps P (deferA d m)"
  by (fastforce simp: keeps_def deferA_def split: prod.splits outcome.splits)

lemma keeps_ignoreA: "keeps P m \<Longrightarrow> keeps P (ignoreA m)"
  by (simp add: ignoreA_def keeps_rules)

lemma deferA_fst [simp]: "fst (deferA d m s) = fst (m s)"
  by (simp add: deferA_def split: prod.split outcome.split)

end
