(* ===== verification/Criu.thy ===== *)
theory Criu
  imports Host
begin

text \<open>
  \<open>third_party/criu\<close>: the interface \<open>Backend\<close> the orchestrator dumps and restores
  processes through (a record of its two methods), the wrapper around the \<open>criu\<close> program
  and the fake the tests and the demo use. What running a program does is a parameter:
  \<open>exec capture bin args\<close> returns the combined output when it is captured, the error of
  the run if it failed, and the state the program leaves.
\<close>

type_synonym exec = "bool \<Rightarrow> string \<Rightarrow> string list \<Rightarrow> (bytes \<times> goerr option) hact"

section \<open>backend.go\<close>

record Backend =
  b_Dump :: "int \<Rightarrow> string \<Rightarrow> unit hact"
  b_Restore :: "string \<Rightarrow> string \<Rightarrow> string list \<Rightarrow> int hact"

section \<open>fake.go\<close>

record Fake =
  f_RestorePID :: int
  f_DumpErr :: "goerr option"
  f_RestoreErr :: "goerr option"

definition fake_Dump :: "Fake \<Rightarrow> int \<Rightarrow> string \<Rightarrow> unit hact" where
  "fake_Dump f pid dir =
     (case f_DumpErr f of Some err \<Rightarrow> errA err | None \<Rightarrow> os_MkdirAll (Join dir ''criu''))"

definition fake_Restore :: "Fake \<Rightarrow> string \<Rightarrow> string \<Rightarrow> string list \<Rightarrow> int hact" where
  "fake_Restore f dir logFile vars =
     (case f_RestoreErr f of Some err \<Rightarrow> errA err | None \<Rightarrow>
        let pid = (if f_RestorePID f \<le> 0 then 4242 else f_RestorePID f) in
        bindA (ignoreA (os_WriteFile (Join dir ''restored.pid'') (bytes_of (Itoa pid @ nl)))) (\<lambda>_.
        bindA (if logFile = [] then retA ()
               else ignoreA (os_WriteFile logFile (bytes_of (''fake criu restore pid='' @ Itoa pid @ nl)))) (\<lambda>_.
          retA pid)))"

definition fakeBackend :: "Fake \<Rightarrow> Backend" where
  "fakeBackend f = \<lparr>b_Dump = fake_Dump f, b_Restore = fake_Restore f\<rparr>"

section \<open>wrapper.go\<close>

record Wrapper =
  w_Bin :: string

definition criu_New :: "'x os_state_scheme \<Rightarrow> Wrapper" where
  "criu_New s = \<lparr>w_Bin = (let p = Getenv ''CRIU_BIN'' s in if p = [] then ''criu'' else p)\<rparr>"

definition nvidiaDevices :: "string list" where
  "nvidiaDevices = [''/dev/nvidiactl'', ''/dev/nvidia-uvm'', ''/dev/nvidia-uvm-tools'', ''/dev/nvidia0'',
     ''/dev/nvidia1'', ''/dev/nvidia2'', ''/dev/nvidia3'']"

definition nvidiaExtMounts :: "'x os_state_scheme \<Rightarrow> string list" where
  "nvidiaExtMounts s =
     concat (map (\<lambda>d. if node_at s (path_of d) \<noteq> None then [''--ext-mount'', d @ '':'' @ d] else []) nvidiaDevices)"

definition wrapper_Dump :: "exec \<Rightarrow> Wrapper \<Rightarrow> int \<Rightarrow> string \<Rightarrow> unit hact" where
  "wrapper_Dump exec w pid dir =
     bindA (os_MkdirAll dir) (\<lambda>_.
     bindA (readA (\<lambda>s. Ret (nvidiaExtMounts s))) (\<lambda>mounts.
     bindA (exec False (w_Bin w)
       ([''dump'', ''-t'', Itoa pid, ''-D'', Join dir ''criu'', ''--shell-job'', ''--tcp-established'',
         ''--file-locks'', ''--link-remap''] @ mounts)) (\<lambda>(_, err).
       case err of None \<Rightarrow> retA () | Some e \<Rightarrow> errA e)))"

text \<open>
  The pattern \<open>(?i)(?:Restored|restored).*pid[:\s]+(\d+)\<close> on ASCII text: the leftmost
  \<open>restored\<close> from which a match exists; after it, on the same line, the last \<open>pid\<close>
  followed by separators and digits.
\<close>

definition lower :: "char \<Rightarrow> char" where
  "lower c = (if byte_in 65 90 c then char_of ((of_char c :: nat) + 32) else c)"

definition starts_ci :: "string \<Rightarrow> string \<Rightarrow> bool" where
  "starts_ci w s \<longleftrightarrow> map lower (take (length w) s) = w"

definition re_sep :: "char \<Rightarrow> bool" where
  "re_sep c \<longleftrightarrow> c = CHR '':'' \<or> (of_char c :: nat) \<in> {9, 10, 12, 13, 32}"

definition pidHere :: "string \<Rightarrow> string option" where
  "pidHere s =
     (let r = drop 3 s; ds = takeWhile is_digit (dropWhile re_sep r)
      in if starts_ci ''pid'' s \<and> r \<noteq> [] \<and> re_sep (hd r) \<and> ds \<noteq> [] then Some ds else None)"

fun lastPid :: "string \<Rightarrow> string option" where
  "lastPid [] = None"
| "lastPid (c # cs) =
     (case (if c = CHR 0x0A then None else lastPid cs) of
        Some ds \<Rightarrow> Some ds
      | None \<Rightarrow> pidHere (c # cs))"

fun findPid :: "string \<Rightarrow> string option" where
  "findPid [] = None"
| "findPid (c # cs) =
     (case (if starts_ci ''restored'' (c # cs) then lastPid (drop 8 (c # cs)) else None) of
        Some ds \<Rightarrow> Some ds
      | None \<Rightarrow> findPid cs)"

definition pidFromFile :: "string \<Rightarrow> 'x os_state_scheme \<Rightarrow> int option" where
  "pidFromFile pidFile s =
     (case fst (os_ReadFile pidFile s) of
        Ret b \<Rightarrow> (case Atoi (TrimSpace (string_of b)) of
            Some pid \<Rightarrow> if 0 < pid then Some pid else None
          | None \<Rightarrow> None)
      | _ \<Rightarrow> None)"

text \<open>An \<open>Atoi\<close> that fails leaves 0, or the largest number when out of range.\<close>

definition pidFromOutput :: "string \<Rightarrow> int" where
  "pidFromOutput out =
     (case findPid out of None \<Rightarrow> 0 | Some ds \<Rightarrow>
        (case Atoi ds of Some pid \<Rightarrow> pid | None \<Rightarrow> 2 ^ 63 - 1))"

definition wrapper_Restore :: "exec \<Rightarrow> Wrapper \<Rightarrow> string \<Rightarrow> string \<Rightarrow> string list \<Rightarrow> int hact" where
  "wrapper_Restore exec w dir logFile vars =
     (let img = Join dir ''criu''; pidFile = Join dir ''restored.pid'' in
      bindA (readA (\<lambda>s. Ret (nvidiaExtMounts s))) (\<lambda>mounts.
      bindA (exec (logFile \<noteq> []) (w_Bin w)
        ([''restore'', ''-D'', img, ''--shell-job'', ''--pidfile'', pidFile, ''--env'', ''CUDACKPT_NEED_GPU=1'',
          ''--link-remap''] @ mounts @ concat (map (\<lambda>e. if e = [] then [] else [''--env'', e]) vars))) (\<lambda>(out, err).
      bindA (if logFile = [] then retA () else ignoreA (os_WriteFile logFile out)) (\<lambda>_.
        case err of Some e \<Rightarrow> errA e | None \<Rightarrow>
          readA (\<lambda>s. case pidFromFile pidFile s of
              Some pid \<Rightarrow> Ret pid
            | None \<Rightarrow>
                let got = (if logFile = [] then []
                      else if out \<noteq> [] then out
                      else (case fst (os_ReadFile logFile s) of Ret b \<Rightarrow> b | _ \<Rightarrow> []));
                    pid = pidFromOutput (string_of got)
                in Ret (if 0 < pid then pid else 0))))))"

definition wrapperBackend :: "exec \<Rightarrow> Wrapper \<Rightarrow> Backend" where
  "wrapperBackend exec w = \<lparr>b_Dump = wrapper_Dump exec w, b_Restore = wrapper_Restore exec w\<rparr>"

end
