(* ===== verification/Orchestrator.thy ===== *)
theory Orchestrator
  imports Criu Image_Meta
begin

text \<open>
  \<open>pkg/control\<close>: the orchestrator. \<open>shimctl.go\<close> (one call per connection to a shim),
  \<open>orchestrator.go\<close> (checkpoint, verification, restore), \<open>queue.go\<close>
  (\<open>CheckpointWithRetry\<close>), \<open>preflight.go\<close>, \<open>validate.go\<close>,
  \<open>restore_events.go\<close>, \<open>rollback.go\<close> and \<open>watch.go\<close>. What lies outside the
  program is gathered in the record \<open>ext\<close>: the GPU behind a shim, zstd, which programs
  are installed and what running them does, listening on a network address (\<open>None\<close> when it
  works), what comes in while the agent serves, standard input, when a signal stops the
  program, and the fuel of the recursions that need not end (the chain of parent images,
  the polling loops, the depth of a directory walk).
\<close>

text \<open>What a serving process receives: a tick of one of its timers, or a request for a path
  with or without \<open>deep=1\<close>.\<close>

datatype agent_event = RefreshTick | GCTick | Get string bool

record ext =
  x_cuda :: cuda
  x_zstd :: zstd
  x_chain :: nat
  x_rounds :: nat
  x_depth :: nat
  x_exec :: exec
  x_look :: "string \<Rightarrow> bool"
  x_bind :: "string \<Rightarrow> goerr option"
  x_events :: "agent_event list"
  x_stdin :: string
  x_stop :: "int option"

record Orchestrator =
  o_criu :: Backend
  o_cfg :: Config

definition NewWithCRIU :: "ext \<Rightarrow> Config \<Rightarrow> Backend option \<Rightarrow> host \<Rightarrow> Orchestrator" where
  "NewWithCRIU x cfg backend h =
     \<lparr>o_criu = (case backend of None \<Rightarrow> wrapperBackend (x_exec x) (criu_New h) | Some b \<Rightarrow> b), o_cfg = cfg\<rparr>"

definition orc_New :: "ext \<Rightarrow> Config \<Rightarrow> host \<Rightarrow> Orchestrator" where
  "orc_New x cfg h = NewWithCRIU x cfg (Some (wrapperBackend (x_exec x) (criu_New h))) h"

definition imageDir :: "string \<Rightarrow> int \<Rightarrow> string" where
  "imageDir base pid = Join base (''ckpt-'' @ Itoa pid)"

section \<open>Restore events\<close>

definition restoreEventsName :: string where "restoreEventsName = ''restore.events.jsonl''"

record restorePhaseEvent =
  rp_Time :: string
  rp_Phase :: string
  rp_Dir :: string
  rp_PID :: int
  rp_Extra :: "(string \<times> json) list"

definition phaseJson :: "restorePhaseEvent \<Rightarrow> json" where
  "phaseJson e = JObj
     ([(''time'', JStr (rp_Time e)), (''phase'', JStr (rp_Phase e)), (''dir'', JStr (rp_Dir e))] @
      (if rp_PID e = 0 then [] else [(''pid'', JInt (rp_PID e))]) @
      (if rp_Extra e = [] then [] else [(''extra'', json_map (rp_Extra e))]))"

definition appendRestorePhaseEvent :: "string \<Rightarrow> string \<Rightarrow> int \<Rightarrow> (string \<times> json) list \<Rightarrow> unit hact" where
  "appendRestorePhaseEvent dir phase pid extra h =
     (let ev = \<lparr>rp_Time = RFC3339Nano (clock h), rp_Phase = phase, rp_Dir = dir, rp_PID = pid, rp_Extra = extra\<rparr>
      in os_AppendFile (Join dir restoreEventsName) (bytes_of (Marshal (phaseJson ev) @ nl)) h)"

definition logRestorePhase :: "string \<Rightarrow> string \<Rightarrow> int \<Rightarrow> (string \<times> json) list \<Rightarrow> unit hact" where
  "logRestorePhase dir phase pid extra =
     bindA (log_Info ''restore_phase''
       ([(''phase'', JStr phase), (''dir'', JStr dir)] @ (if 0 < pid then [(''pid'', JInt pid)] else []) @ extra)) (\<lambda>_.
       ignoreA (appendRestorePhaseEvent dir phase pid extra))"

definition recordRestorePID :: "string \<Rightarrow> int \<Rightarrow> unit hact" where
  "recordRestorePID dir pid =
     bindA (writeRestoreHandoff dir pid) (\<lambda>_. logRestorePhase dir ''pidfile'' pid [])"

section \<open>Verification of an image\<close>

fun verifyChunks :: "string \<Rightarrow> node \<Rightarrow> Entry list \<Rightarrow> unit outcome" where
  "verifyChunks name f [] = Ret ()"
| "verifyChunks name f (e # es) =
     (case VerifyChunk name f (sint (e_Offset e)) (sint (e_Size e)) (e_CRC32C e) of
        Ret ok \<Rightarrow> if ok then verifyChunks name f es else Err (E Invalid ''crc mismatch'')
      | Err verr \<Rightarrow> Err (Wrap IO ''verify'' (Some verr))
      | Panic p \<Rightarrow> Panic p
      | Diverge \<Rightarrow> Diverge)"

definition verifyImage :: "ext \<Rightarrow> string \<Rightarrow> ('x os_state_scheme, unit) act" where
  "verifyImage x dir =
     bindA (wrapA IO ''materialize'' (EnsureDeviceMaterialized (x_chain x) (x_zstd x) dir)) (\<lambda>_.
     bindA (wrapA IO ''tier'' (Tier_New dir)) (\<lambda>tier.
     bindA (wrapA IO ''manifest'' (ReadManifest (ManifestPath tier))) (\<lambda>(entries, hdr).
       if h_Magic hdr \<noteq> Magic then errA (E Invalid ''bad magic'')
       else
         bindA (wrapA IO ''device.bin'' (os_Open (DevicePath tier))) (\<lambda>f.
           liftA (verifyChunks (DevicePath tier) f entries)))))"

text \<open>The first missing name of a list, as an error.\<close>

fun statAll :: "string \<Rightarrow> string list \<Rightarrow> ('x os_state_scheme, unit) act" where
  "statAll dir [] = retA ()"
| "statAll dir (name # names) =
     bindA (wrapA Invalid name (os_Stat (Join dir name))) (\<lambda>_. statAll dir names)"

definition ValidateImage :: "ext \<Rightarrow> string \<Rightarrow> ('x os_state_scheme, unit) act" where
  "ValidateImage x dir =
     bindA (verifyImage x dir) (\<lambda>_.
     bindA (statAll dir [''dev.bin'', ''meta.bin'', ''criu'']) (\<lambda>_.
     bindA (IsComplete dir) (\<lambda>complete.
       if \<not> complete then errA (E Invalid ''checkpoint not finalized'')
       else
         bindA (wrapA Invalid ''meta'' (ReadMeta (Join dir ''meta.bin''))) (\<lambda>m.
           if m_Preload m = [] then errA (E Invalid ''missing LD_PRELOAD in meta'') else retA ()))))"

definition PreflightRestore :: "string \<Rightarrow> ('x os_state_scheme, unit) act" where
  "PreflightRestore dir =
     bindA (IsComplete dir) (\<lambda>complete.
       if \<not> complete then errA (E Invalid ''checkpoint not finalized'')
       else
         bindA (statAll dir [''manifest.bin'', ''meta.bin'', ''criu'']) (\<lambda>_.
         bindA (wrapA Invalid ''meta'' (ReadMeta (Join dir ''meta.bin''))) (\<lambda>meta.
           if m_Preload meta = [] then errA (E Invalid ''missing LD_PRELOAD in meta'')
           else
             bindA (wrapA Invalid ''manifest'' (ReadManifest (Join dir ''manifest.bin''))) (\<lambda>(entries, hdr).
               if h_Magic hdr \<noteq> Magic \<or> h_Count hdr = 0 then errA (E Invalid ''empty manifest'')
               else if HasFlag (h_Flags hdr) FlagCompressed then
                 bindA (wrapA Invalid ''device.zst'' (os_Stat (Join dir ''device.zst''))) (\<lambda>_. retA ())
               else
                 bindA (tryA (os_Stat (Join dir ''device.bin''))) (\<lambda>r. case r of
                   Inl err \<Rightarrow>
                     if \<not> HasFlag (h_Flags hdr) FlagDelta then errA (Wrap Invalid ''device.bin'' (Some err))
                     else retA ()
                 | Inr _ \<Rightarrow> retA ())))))"

section \<open>shimctl.go\<close>

definition orc_dial :: "ext \<Rightarrow> Orchestrator \<Rightarrow> int \<Rightarrow> Client hact" where
  "orc_dial x oc pid =
     bindA (readA (\<lambda>h. Ret (if c_RpcSecret (o_cfg oc) = [] then Getenv ''CUDACKPT_RPC_SECRET'' h
         else c_RpcSecret (o_cfg oc)))) (\<lambda>secret.
       wrapA RPC ''dial'' (DialPathWithSecret (x_cuda x) (shimSocketPath (c_RunDir (o_cfg oc)) pid) secret))"

text \<open>Dial, defer the close, run \<open>m\<close> on the client.\<close>

definition with_client :: "ext \<Rightarrow> Orchestrator \<Rightarrow> int \<Rightarrow> (Client \<Rightarrow> 'a hact) \<Rightarrow> 'a hact" where
  "with_client x oc pid m = bindA (orc_dial x oc pid) (\<lambda>cli. deferA (client_Close cli) (m cli))"

definition orc_Ping :: "ext \<Rightarrow> Orchestrator \<Rightarrow> int \<Rightarrow> unit hact" where
  "orc_Ping x oc pid = with_client x oc pid (\<lambda>cli. wrapA RPC ''ping'' (Ping (x_cuda x) cli))"

definition orc_Status :: "ext \<Rightarrow> Orchestrator \<Rightarrow> int \<Rightarrow> u32 hact" where
  "orc_Status x oc pid = with_client x oc pid (\<lambda>cli. wrapA RPC ''status'' (Status (x_cuda x) cli))"

definition orc_Stats :: "ext \<Rightarrow> Orchestrator \<Rightarrow> int \<Rightarrow> Stats hact" where
  "orc_Stats x oc pid = with_client x oc pid (\<lambda>cli. wrapA RPC ''stats'' (client_Stats (x_cuda x) cli))"

definition orc_Freeze :: "ext \<Rightarrow> Orchestrator \<Rightarrow> int \<Rightarrow> unit hact" where
  "orc_Freeze x oc pid = with_client x oc pid (\<lambda>cli. wrapA RPC ''freeze'' (Freeze (x_cuda x) cli))"

definition orc_Snapshot :: "ext \<Rightarrow> Orchestrator \<Rightarrow> int \<Rightarrow> string \<Rightarrow> unit hact" where
  "orc_Snapshot x oc pid dir = with_client x oc pid (\<lambda>cli.
     bindA (wrapA CUDA ''snapshot'' (Snapshot (x_cuda x) cli dir)) (\<lambda>_.
     bindA (verifyImage x dir) (\<lambda>_.
       log_Info ''snapshot_ok'' [(''pid'', JInt pid), (''dir'', JStr dir)])))"

definition orc_GpuRestore :: "ext \<Rightarrow> Orchestrator \<Rightarrow> int \<Rightarrow> string \<Rightarrow> unit hact" where
  "orc_GpuRestore x oc pid dir =
     bindA (wrapA IO ''materialize'' (EnsureDeviceMaterialized (x_chain x) (x_zstd x) dir)) (\<lambda>_.
       with_client x oc pid (\<lambda>cli. wrapA CUDA ''gpu restore'' (Restore (x_cuda x) cli dir)))"

definition orc_Resume :: "ext \<Rightarrow> Orchestrator \<Rightarrow> int \<Rightarrow> unit hact" where
  "orc_Resume x oc pid = with_client x oc pid (\<lambda>cli. wrapA RPC ''resume'' (Resume (x_cuda x) cli))"

definition tryShimRestore :: "ext \<Rightarrow> Orchestrator \<Rightarrow> string \<Rightarrow> int \<Rightarrow> int hact" where
  "tryShimRestore x oc imagePath pid = with_client x oc pid (\<lambda>cli.
     bindA (Ping (x_cuda x) cli) (\<lambda>_.
     bindA (wrapA CUDA ''gpu restore'' (Restore (x_cuda x) cli imagePath)) (\<lambda>_.
     bindA (logRestorePhase imagePath ''gpu'' pid []) (\<lambda>_.
     bindA (wrapA RPC ''resume'' (Resume (x_cuda x) cli)) (\<lambda>_.
     bindA (logRestorePhase imagePath ''resume'' pid []) (\<lambda>_.
       retA pid))))))"

definition orc_sortedShims :: "Orchestrator \<Rightarrow> int list hact" where
  "orc_sortedShims oc = sortedShims (c_RunDir (o_cfg oc))"

section \<open>Checkpoint\<close>

definition checkpointBody :: "ext \<Rightarrow> Orchestrator \<Rightarrow> int \<Rightarrow> ProcessOpts \<Rightarrow> string \<Rightarrow> unit hact" where
  "checkpointBody x oc pid opts staging =
     bindA (orc_Freeze x oc pid) (\<lambda>_.
     bindA (orc_Snapshot x oc pid staging) (\<lambda>_.
     bindA (wrapA IO ''process'' (ProcessImage (x_chain x) (x_zstd x) staging opts)) (\<lambda>_.
     bindA (wrapA CRIU ''dump'' (b_Dump (o_criu oc) pid staging)) (\<lambda>_.
     bindA (tryA (ReadDev (Join staging ''dev.bin''))) (\<lambda>dev.
     bindA (readA (\<lambda>h. Ret \<lparr>m_Magic = 0, m_Version = 0, m_Flags = 0, m_Pid = word_of_int pid,
         m_Dev = (case dev of Inl _ \<Rightarrow> 0 | Inr d \<Rightarrow> d), m_Preload = Getenv ''LD_PRELOAD'' h,
         m_Visible = Getenv ''CUDA_VISIBLE_DEVICES'' h\<rparr>)) (\<lambda>meta.
       wrapA IO ''meta'' (WriteMeta (Join staging ''meta.bin'') meta)))))))"

definition doCheckpoint :: "ext \<Rightarrow> Orchestrator \<Rightarrow> int \<Rightarrow> string \<Rightarrow> unit hact" where
  "doCheckpoint x oc pid out0 =
     (let out = (if out0 = [] then imageDir (c_ImageRoot (o_cfg oc)) pid else out0) in
      bindA (log_Info ''checkpoint_start'' [(''pid'', JInt pid), (''dir'', JStr out)]) (\<lambda>_.
      bindA (readA (\<lambda>h. Ret (OptsFromEnv h))) (\<lambda>opts.
        WriteStaging out (checkpointBody x oc pid opts))))"

text \<open>The common end of the two entry points: log, count, return.\<close>

definition reportCheckpoint :: "int \<Rightarrow> string \<Rightarrow> unit hact \<Rightarrow> unit hact" where
  "reportCheckpoint pid out m =
     bindA (tryA m) (\<lambda>r. case r of
       Inl err \<Rightarrow>
         bindA (log_Error ''checkpoint_fail'' err [(''pid'', JInt pid)]) (\<lambda>_.
         bindA (incA CheckpointFailures) (\<lambda>_. errA err))
     | Inr _ \<Rightarrow>
         bindA (incA CheckpointsTotal) (\<lambda>_.
           log_Info ''checkpoint_ok'' [(''pid'', JInt pid), (''dir'', JStr out)]))"

definition Checkpoint :: "ext \<Rightarrow> Orchestrator \<Rightarrow> int \<Rightarrow> string \<Rightarrow> unit hact" where
  "Checkpoint x oc pid out = reportCheckpoint pid out (doCheckpoint x oc pid out)"

definition retryPolicy :: "Orchestrator \<Rightarrow> RetryPolicy" where
  "retryPolicy oc =
     (let p = \<lparr>r_MaxAttempts = c_MaxRetries (o_cfg oc), r_Backoff = c_RetryBackoff (o_cfg oc)\<rparr> in policyDefaults p)"

definition stopRetry :: "goerr \<Rightarrow> bool" where
  "stopRetry err \<longleftrightarrow> ckpt_code err = Some Unsupported"

definition CheckpointWithRetry :: "ext \<Rightarrow> Orchestrator \<Rightarrow> int \<Rightarrow> string \<Rightarrow> RetryPolicy \<Rightarrow> unit hact" where
  "CheckpointWithRetry x oc pid out policy0 =
     (let policy = (if r_MaxAttempts policy0 \<le> 0 then retryPolicy oc else policy0) in
      reportCheckpoint pid out (applyRetry sleepH policy (\<lambda>attempt.
        bindA (log_Info ''checkpoint_attempt'' [(''pid'', JInt pid), (''attempt'', JInt attempt)]) (\<lambda>_.
          doCheckpoint x oc pid out)) stopRetry))"

definition EnqueueCheckpoint :: "ext \<Rightarrow> Orchestrator \<Rightarrow> int \<Rightarrow> string \<Rightarrow> unit hact" where
  "EnqueueCheckpoint x oc pid out = CheckpointWithRetry x oc pid out (retryPolicy oc)"

section \<open>Restore\<close>

definition restoreFail :: "string \<Rightarrow> string \<Rightarrow> goerr \<Rightarrow> goerr \<Rightarrow> int hact" where
  "restoreFail event dir err ret =
     bindA (log_Error event err [(''dir'', JStr dir)]) (\<lambda>_.
     bindA (incA RestoreFailuresTotal) (\<lambda>_. errA ret))"

text \<open>One pass over the candidates: the first shim that restores.\<close>

fun tryCandidates :: "ext \<Rightarrow> Orchestrator \<Rightarrow> string \<Rightarrow> int \<Rightarrow> int list \<Rightarrow> int option hact" where
  "tryCandidates x oc imagePath attempt [] = retA None"
| "tryCandidates x oc imagePath attempt (p # ps) =
     bindA (shimSocketReady (c_RunDir (o_cfg oc)) p) (\<lambda>ready.
       if \<not> ready then tryCandidates x oc imagePath attempt ps
       else
         bindA (tryA (tryShimRestore x oc imagePath p)) (\<lambda>r. case r of
           Inl _ \<Rightarrow> tryCandidates x oc imagePath attempt ps
         | Inr got \<Rightarrow>
             bindA (ignoreA (recordRestorePID imagePath got)) (\<lambda>_.
             bindA (logRestorePhase imagePath ''complete'' got [(''attempt'', JInt attempt)]) (\<lambda>_.
             bindA (incA RestoresTotal) (\<lambda>_. retA (Some got))))))"

text \<open>One round: the restored process, or \<open>None\<close> after the round's sleep.\<close>

definition restoreRound :: "ext \<Rightarrow> Orchestrator \<Rightarrow> string \<Rightarrow> int \<Rightarrow> int \<Rightarrow> int option hact" where
  "restoreRound x oc imagePath pid attempt =
     (let pause = bindA (doA (sleepH (restorePollDelay attempt (c_RetryBackoff (o_cfg oc))))) (\<lambda>_. retA None) in
      bindA (tryA (orc_sortedShims oc)) (\<lambda>r. case r of
        Inl _ \<Rightarrow> pause
      | Inr pids \<Rightarrow>
          bindA (resolveRestorePID imagePath pid pids) (\<lambda>target.
          bindA (if 0 < target then bindA (shimSocketReady (c_RunDir (o_cfg oc)) target) (\<lambda>b. retA (\<not> b)) else retA False) (\<lambda>wait.
            if wait then
              bindA (logRestorePhase imagePath ''wait_shim'' target [(''attempt'', JInt attempt)]) (\<lambda>_. pause)
            else
              bindA (tryCandidates x oc imagePath attempt (restoreCandidates target pids)) (\<lambda>got.
                case got of Some p \<Rightarrow> retA (Some p) | None \<Rightarrow> pause)))))"

text \<open>The loop: the restored process, or the number of attempts made when time was up.\<close>

fun restoreLoop :: "nat \<Rightarrow> ext \<Rightarrow> Orchestrator \<Rightarrow> string \<Rightarrow> int \<Rightarrow> int \<Rightarrow> int \<Rightarrow> (int + int) hact" where
  "restoreLoop 0 x oc imagePath pid deadline attempt = liftA Diverge"
| "restoreLoop (Suc n) x oc imagePath pid deadline attempt =
     bindA (readA (\<lambda>h. Ret (clock h < deadline))) (\<lambda>before.
       if \<not> before then retA (Inl attempt)
       else
         bindA (restoreRound x oc imagePath pid (attempt + 1)) (\<lambda>got. case got of
           Some p \<Rightarrow> retA (Inr p)
         | None \<Rightarrow> restoreLoop n x oc imagePath pid deadline (attempt + 1)))"

definition restoreEnv :: "string \<Rightarrow> string list hact" where
  "restoreEnv imagePath =
     bindA (tryA (ReadMeta (Join imagePath ''meta.bin''))) (\<lambda>r. retA (case r of
       Inl _ \<Rightarrow> []
     | Inr m \<Rightarrow> (if m_Preload m = [] then [] else [''LD_PRELOAD='' @ m_Preload m]) @
         (if m_Visible m = [] then [] else [''CUDA_VISIBLE_DEVICES='' @ m_Visible m])))"

text \<open>The pid to wait for, from what \<open>criu\<close> returned.\<close>

definition settlePID :: "string \<Rightarrow> int \<Rightarrow> int hact" where
  "settlePID imagePath pid0 =
     bindA (if 0 < pid0 then bindA (ignoreA (recordRestorePID imagePath pid0)) (\<lambda>_. retA pid0)
       else
         bindA (readRestoredPID imagePath) (\<lambda>filePID.
           if 0 < filePID then
             bindA (logRestorePhase imagePath ''criu'' filePID [(''source'', JStr ''pidfile'')]) (\<lambda>_. retA filePID)
           else
             bindA (logRestorePhase imagePath ''criu'' 0 [(''source'', JStr ''unknown'')]) (\<lambda>_. retA pid0))) (\<lambda>pid.
     bindA (if 0 < pid then logRestorePhase imagePath ''criu'' pid [] else retA ()) (\<lambda>_.
       retA pid))"

definition waitForShim :: "ext \<Rightarrow> Orchestrator \<Rightarrow> string \<Rightarrow> int \<Rightarrow> int hact" where
  "waitForShim x oc imagePath pid =
     bindA (readA (\<lambda>h. Ret (clock h + sint (c_RestoreTimeout (o_cfg oc))))) (\<lambda>deadline.
     bindA (restoreLoop (x_rounds x) x oc imagePath pid deadline 0) (\<lambda>r. case r of
       Inr got \<Rightarrow> retA got
     | Inl attempt \<Rightarrow>
         let err = E RPC ''shim not ready after criu restore'' in
         bindA (log_Error ''restore_fail'' err [(''dir'', JStr imagePath)]) (\<lambda>_.
         bindA (logRestorePhase imagePath ''failed'' pid [(''attempt'', JInt attempt)]) (\<lambda>_.
         bindA (incA RestoreFailuresTotal) (\<lambda>_. errA err)))))"

definition orc_Restore :: "ext \<Rightarrow> Orchestrator \<Rightarrow> string \<Rightarrow> int hact" where
  "orc_Restore x oc imagePath =
     bindA (logRestorePhase imagePath ''start'' 0 []) (\<lambda>_.
     bindA (tryA (PreflightRestore imagePath)) (\<lambda>pre. case pre of
       Inl err \<Rightarrow> restoreFail ''restore_preflight'' imagePath err err
     | Inr _ \<Rightarrow>
       bindA (logRestorePhase imagePath ''preflight'' 0 []) (\<lambda>_.
       bindA (tryA (EnsureDeviceMaterialized (x_chain x) (x_zstd x) imagePath)) (\<lambda>mat. case mat of
         Inl err \<Rightarrow> restoreFail ''restore_materialize'' imagePath err (Wrap IO ''materialize'' (Some err))
       | Inr _ \<Rightarrow>
         bindA (logRestorePhase imagePath ''materialize'' 0 []) (\<lambda>_.
         bindA (restoreEnv imagePath) (\<lambda>vars.
         bindA (tryA (b_Restore (o_criu oc) imagePath (Join imagePath ''restore.log'') vars)) (\<lambda>cr. case cr of
           Inl err \<Rightarrow> restoreFail ''restore_criu'' imagePath err (Wrap CRIU ''restore'' (Some err))
         | Inr pid0 \<Rightarrow> bindA (settlePID imagePath pid0) (\<lambda>pid. waitForShim x oc imagePath pid))))))))"

section \<open>rollback.go\<close>

definition alive :: "int \<Rightarrow> host \<Rightarrow> bool" where
  "alive pid h = (case map_of (h_procs h) pid of None \<Rightarrow> False
     | Some p \<Rightarrow> (case pr_gone p of None \<Rightarrow> True | Some t \<Rightarrow> clock h < t))"

definition sigterm :: "int \<Rightarrow> host \<Rightarrow> host" where
  "sigterm pid h =
     (if alive pid h then
        h\<lparr>h_procs := AList.map_entry pid (\<lambda>p. if pr_gone p = None
            then p\<lparr>pr_gone := map_option (\<lambda>d. clock h + d) (pr_exits p)\<rparr> else p) (h_procs h)\<rparr>
      else h)"

definition sigkill :: "int \<Rightarrow> unit hact" where
  "sigkill pid h =
     (if alive pid h then (Ret (), h\<lparr>h_procs := AList.delete pid (h_procs h)\<rparr>)
      else (Err (FmtError ''os: process already finished''), h))"

text \<open>Poll until the process is gone or the deadline has passed; whether it is gone.\<close>

fun stopLoop :: "nat \<Rightarrow> int \<Rightarrow> int \<Rightarrow> bool hact" where
  "stopLoop 0 pid deadline = liftA Diverge"
| "stopLoop (Suc n) pid deadline =
     bindA (readA (\<lambda>h. Ret (clock h < deadline, alive pid h))) (\<lambda>(before, live).
       if \<not> before then retA False
       else if \<not> live then retA True
       else bindA (doA (sleepH (100 * Millisecond))) (\<lambda>_. stopLoop n pid deadline))"

definition stopRounds :: nat where "stopRounds = 31"

definition stopProcess :: "int \<Rightarrow> unit hact" where
  "stopProcess pid =
     (if pid \<le> 0 then retA ()
      else
        bindA (doA (sigterm pid)) (\<lambda>_.
        bindA (readA (\<lambda>h. Ret (clock h + sint (3 * Second)))) (\<lambda>deadline.
        bindA (stopLoop stopRounds pid deadline) (\<lambda>gone.
          if gone then retA () else wrapA Invalid ''kill process'' (sigkill pid)))))"

definition Rollback :: "ext \<Rightarrow> Orchestrator \<Rightarrow> string \<Rightarrow> int \<Rightarrow> int hact" where
  "Rollback x oc imagePath stopPID =
     (let failed = (\<lambda>event fs err. bindA (log_Error event err fs) (\<lambda>_. errA err)) in
      bindA (log_Info ''rollback_start'' [(''dir'', JStr imagePath), (''stop_pid'', JInt stopPID)]) (\<lambda>_.
      bindA (tryA (if 0 < stopPID then stopProcess stopPID else retA ())) (\<lambda>st. case st of
        Inl err \<Rightarrow> failed ''rollback_stop'' [(''pid'', JInt stopPID)] err
      | Inr _ \<Rightarrow>
        bindA (tryA (ValidateImage x imagePath)) (\<lambda>v. case v of
          Inl err \<Rightarrow> failed ''rollback_validate'' [(''dir'', JStr imagePath)] err
        | Inr _ \<Rightarrow>
          bindA (tryA (orc_Restore x oc imagePath)) (\<lambda>r. case r of
            Inl err \<Rightarrow> failed ''rollback_restore'' [(''dir'', JStr imagePath)] err
          | Inr pid \<Rightarrow>
              bindA (incA RollbacksTotal) (\<lambda>_.
              bindA (log_Info ''rollback_ok'' [(''dir'', JStr imagePath), (''pid'', JInt pid)]) (\<lambda>_.
                retA pid)))))))"

section \<open>watch.go\<close>

record WatchOptions =
  w_UntilRunning :: bool
  w_Timeout :: Duration

text \<open>The stop channel is closed at a given time, if ever.\<close>

fun watchLoop :: "nat \<Rightarrow> ext \<Rightarrow> Orchestrator \<Rightarrow> int \<Rightarrow> Duration \<Rightarrow> bool \<Rightarrow> int option \<Rightarrow> int option \<Rightarrow> u32 \<Rightarrow> unit hact" where
  "watchLoop 0 x oc pid interval untilRunning deadline stop prev = liftA Diverge"
| "watchLoop (Suc n) x oc pid interval untilRunning deadline stop prev =
     bindA (readA (\<lambda>h. Ret (clock h))) (\<lambda>now.
       if (case stop of None \<Rightarrow> False | Some t \<Rightarrow> t \<le> now) then retA ()
       else if (case deadline of None \<Rightarrow> False | Some d \<Rightarrow> d < now) then errA (E RPC ''watch timeout'')
       else
         bindA (wrapA RPC ''watch'' (orc_Status x oc pid)) (\<lambda>st.
         bindA (if st \<noteq> prev then printA (StateName st @ '' ts='' @ RFC3339 now @ nl) else retA ()) (\<lambda>_.
           if untilRunning \<and> (st = 4 \<or> st = 3) then retA ()
           else bindA (doA (sleepH interval)) (\<lambda>_.
             watchLoop n x oc pid interval untilRunning deadline stop st))))"

definition WatchShimWith :: "ext \<Rightarrow> Orchestrator \<Rightarrow> int \<Rightarrow> Duration \<Rightarrow> WatchOptions \<Rightarrow> int option \<Rightarrow> unit hact" where
  "WatchShimWith x oc pid interval0 opts stop =
     (let interval = (if sint interval0 \<le> 0 then 500 * Millisecond else interval0) in
      bindA (readA (\<lambda>h. Ret (if 0 < sint (w_Timeout opts) then Some (clock h + sint (w_Timeout opts)) else None))) (\<lambda>deadline.
        watchLoop (x_rounds x) x oc pid interval (w_UntilRunning opts) deadline stop 999))"

definition WatchShim :: "ext \<Rightarrow> Orchestrator \<Rightarrow> int \<Rightarrow> Duration \<Rightarrow> int option \<Rightarrow> unit hact" where
  "WatchShim x oc pid interval stop = WatchShimWith x oc pid interval \<lparr>w_UntilRunning = False, w_Timeout = 0\<rparr> stop"

end
