(* ===== verification/Go_Fmt.thy ===== *)
theory Go_Fmt
  imports Go_Text
begin

text \<open>
  The verbs of Go's \<open>fmt\<close> the reports use beyond \<open>%d\<close> and \<open>%s\<close>: hexadecimal
  numbers, and padding, which counts characters and not bytes.
\<close>

fun nat_hex :: "nat \<Rightarrow> string" where
  "nat_hex n = (if n < 16 then [hex_digit n] else nat_hex (n div 16) @ [hex_digit (n mod 16)])"

declare nat_hex.simps [simp del]

text \<open>\<open>0x%x\<close> and \<open>%08x\<close>.\<close>

definition hex0x :: "('a::len) word \<Rightarrow> string" where
  "hex0x w = ''0x'' @ nat_hex (unat w)"

definition hex08 :: "u32 \<Rightarrow> string" where
  "hex08 w = (let s = nat_hex (unat w) in replicate (8 - length s) (CHR ''0'') @ s)"

definition word_dec :: "('a::len) word \<Rightarrow> string" where
  "word_dec w = nat_dec (unat w)"

text \<open>\<open>utf8.RuneCountInString\<close>: a byte outside well-formed UTF-8 counts as one.\<close>

function rune_count :: "string \<Rightarrow> nat" where
  "rune_count s =
     (case s of [] \<Rightarrow> 0 | c # cs \<Rightarrow> Suc (rune_count (if utf8_size s = 0 then cs else drop (utf8_size s) s)))"
  by pat_completeness auto

termination
  by (relation "measure length") auto

declare rune_count.simps [simp del]

text \<open>\<open>%-ns\<close> and \<open>%nd\<close>.\<close>

definition pad_right :: "nat \<Rightarrow> string \<Rightarrow> string" where
  "pad_right n s = s @ replicate (n - rune_count s) (CHR '' '')"

definition pad_left :: "nat \<Rightarrow> string \<Rightarrow> string" where
  "pad_left n s = replicate (n - rune_count s) (CHR '' '') @ s"

lemma utf8_size_ascii: "\<forall>c \<in> set s. (of_char c :: nat) < 128 \<Longrightarrow> utf8_size s = 0"
  by (cases s rule: utf8_size.cases) (auto simp: byte_in_def split: list.splits)

lemma rune_count_ascii: "\<forall>c \<in> set s. (of_char c :: nat) < 128 \<Longrightarrow> rune_count s = length s"
proof (induction s)
  case (Cons c s)
  then show ?case using utf8_size_ascii [of "c # s"] by (simp add: rune_count.simps [of "c # s"])
qed (simp add: rune_count.simps)

end
