(* ===== verification/Health.thy ===== *)
theory Health
  imports Orchestrator Go_Fmt
begin

text \<open>
  \<open>pkg/health\<close>: the probes of the host and their report, for Linux (where
  \<open>runtime.GOOS\<close> is \<open>linux\<close> and \<open>caps_linux.go\<close> is built); the stub for other
  systems is \<open>probeCaps_stub\<close>.
\<close>

section \<open>health.go\<close>

record Check =
  ck_Name :: string
  ck_OK :: bool
  ck_Detail :: string

record HealthStatus =
  hs_OK :: bool
  hs_Checks :: "Check list"

definition check :: "string \<Rightarrow> bool \<Rightarrow> string \<Rightarrow> Check" where
  "check name ok detail = \<lparr>ck_Name = name, ck_OK = ok, ck_Detail = detail\<rparr>"

definition GOOS :: string where "GOOS = ''linux''"

definition probeOS :: Check where
  "probeOS = (if GOOS \<noteq> ''linux'' then check ''os'' False GOOS else check ''os'' True ''linux'')"

definition probeGPU :: "'x os_state_scheme \<Rightarrow> Check" where
  "probeGPU s =
     (case filter (\<lambda>d. node_at s (path_of d) \<noteq> None) [''/dev/nvidiactl'', ''/dev/nvidia0''] of
        d # _ \<Rightarrow> check ''gpu'' True d
      | [] \<Rightarrow> check ''gpu'' False ''no nvidia device nodes'')"

definition probeCRIU :: "ext \<Rightarrow> Check hact" where
  "probeCRIU x =
     (if \<not> x_look x ''criu'' then retA (check ''criu'' False ''not in PATH'')
      else bindA (x_exec x True ''criu'' [''check'']) (\<lambda>(out, err). retA (case err of
        Some _ \<Rightarrow> check ''criu'' False (string_of out)
      | None \<Rightarrow> check ''criu'' True ''check passed'')))"

definition probeRunDir :: "string \<Rightarrow> Check hact" where
  "probeRunDir runDir0 =
     (let runDir = (if runDir0 = [] then ''/run/cudackpt'' else runDir0) in
      bindA (tryA (os_MkdirAll runDir)) (\<lambda>r. retA (case r of
        Inl err \<Rightarrow> check ''run_dir'' False (Error err)
      | Inr _ \<Rightarrow> check ''run_dir'' True runDir)))"

definition statusOf :: "Check list \<Rightarrow> HealthStatus" where
  "statusOf checks = \<lparr>hs_OK = foldl (\<lambda>ok c. if \<not> ck_OK c then False else ok) True checks, hs_Checks = checks\<rparr>"

definition ProbeWith :: "ext \<Rightarrow> string \<Rightarrow> HealthStatus hact" where
  "ProbeWith x runDir =
     bindA (readA (\<lambda>h. Ret (probeGPU h))) (\<lambda>gpu.
     bindA (probeCRIU x) (\<lambda>criu.
     bindA (probeRunDir runDir) (\<lambda>rd.
       retA (statusOf [probeOS, gpu, criu, rd]))))"

definition Probe :: "ext \<Rightarrow> HealthStatus hact" where
  "Probe x = ProbeWith x []"

definition checkLine :: "Check \<Rightarrow> string" where
  "checkLine c =
     ''  '' @ pad_right 10 (ck_Name c) @ '' '' @ pad_right 4 (if ck_OK c then ''ok'' else ''fail'') @ '' '' @
     ck_Detail c @ nl"

definition health_Format :: "HealthStatus \<Rightarrow> string" where
  "health_Format s =
     (if hs_OK s then ''health ok'' @ nl else ''health degraded'' @ nl) @ concat (map checkLine (hs_Checks s))"

section \<open>caps\_linux.go\<close>

definition capSysAdmin :: u64 where "capSysAdmin = push_bit 21 1"

text \<open>\<open>strconv.ParseUint(f, 16, 64)\<close>, digits read from the left.\<close>

fun hexLoop :: "int \<Rightarrow> string \<Rightarrow> num_cause + int" where
  "hexLoop n [] = Inr n"
| "hexLoop n (c # cs) =
     (case hex_val c of
        None \<Rightarrow> Inl ErrSyntax
      | Some d \<Rightarrow> if 2 ^ 60 \<le> n then Inl ErrRange else hexLoop (n * 16 + int d) cs)"

definition ParseUint16 :: "string \<Rightarrow> goerr + u64" where
  "ParseUint16 s =
     (case (if s = [] then Inl ErrSyntax else hexLoop 0 s) of
        Inl c \<Rightarrow> Inl (NumError ''ParseUint'' s c)
      | Inr n \<Rightarrow> Inr (word_of_int n))"

fun capLoop :: "nat \<Rightarrow> u64 \<Rightarrow> string list \<Rightarrow> goerr + u64" where
  "capLoop i m [] = Inr m"
| "capLoop i m (f # fs) =
     (case ParseUint16 f of Inl e \<Rightarrow> Inl e | Inr v \<Rightarrow> capLoop (Suc i) (m OR push_bit (32 * i) v) fs)"

definition parseCapMask :: "string list \<Rightarrow> goerr + u64" where
  "parseCapMask fs = capLoop 0 0 fs"

lemma dropWhile_shrinks:
  assumes "dropWhile P s \<noteq> []"
  shows "length (dropWhile (\<lambda>c. \<not> P c) (dropWhile P s)) < length s"
proof -
  obtain c cs where "dropWhile P s = c # cs" and "\<not> P c"
    using assms hd_dropWhile [OF assms] by (cases "dropWhile P s") auto
  then show ?thesis
    using length_dropWhile_le [of P s] length_dropWhile_le [of "\<lambda>c. \<not> P c" cs] by simp
qed

text \<open>\<open>strings.Fields\<close> and \<open>strings.Split(s, "\n")\<close>.\<close>

function Fields :: "string \<Rightarrow> string list" where
  "Fields s =
     (let r = dropWhile is_space s in
      if r = [] then []
      else takeWhile (\<lambda>c. \<not> is_space c) r # Fields (dropWhile (\<lambda>c. \<not> is_space c) r))"
  by pat_completeness auto

termination
  by (relation "measure length") (simp_all add: dropWhile_shrinks)

declare Fields.simps [simp del]

definition split_newline :: "string \<Rightarrow> string list" where
  "split_newline s = foldr (\<lambda>c ls. if c = CHR 0x0A then [] # ls else (c # hd ls) # tl ls) s [[]]"

definition probeCaps :: "'x os_state_scheme \<Rightarrow> Check" where
  "probeCaps s =
     (case fst (os_ReadFile ''/proc/self/status'' s) of
        Ret b \<Rightarrow>
          (case filter (\<lambda>l. HasPrefix l ''CapEff:'') (split_newline (string_of b)) of
             [] \<Rightarrow> check ''caps'' False ''CapEff missing''
           | line # _ \<Rightarrow>
               if length (Fields line) < 2 then check ''caps'' False ''CapEff missing''
               else (case parseCapMask (tl (Fields line)) of
                   Inl err \<Rightarrow> check ''caps'' False (Error err)
                 | Inr m \<Rightarrow>
                     if m AND capSysAdmin \<noteq> 0 then check ''caps'' True ''CAP_SYS_ADMIN''
                     else check ''caps'' False ''missing CAP_SYS_ADMIN for criu''))
      | Err err \<Rightarrow> check ''caps'' False (Error err)
      | _ \<Rightarrow> check ''caps'' False [])"

definition probeCaps_stub :: "string \<Rightarrow> Check" where
  "probeCaps_stub goos = check ''caps'' True (''skipped on '' @ goos)"

section \<open>deep.go\<close>

definition probeNvidiaDriver :: "ext \<Rightarrow> Check hact" where
  "probeNvidiaDriver x =
     bindA (x_exec x True ''nvidia-smi'' [''--query-gpu=driver_version,name'', ''--format=csv,noheader'']) (\<lambda>(out, err).
       case err of
         None \<Rightarrow> retA (check ''nvidia_smi'' True (TrimSpace (string_of out)))
       | Some _ \<Rightarrow>
           bindA (tryA (os_ReadFile ''/proc/driver/nvidia/version'')) (\<lambda>r. retA (case r of
             Inr b \<Rightarrow> check ''nvidia_drv'' True (TrimSpace (hd (split_newline (string_of b))))
           | Inl _ \<Rightarrow> check ''nvidia_drv'' False ''driver version unavailable'')))"

definition probeCRIUFeatures :: "ext \<Rightarrow> Check hact" where
  "probeCRIUFeatures x =
     bindA (x_exec x True ''criu'' [''check'', ''--feature'', ''mem_track'']) (\<lambda>(out, err). retA (case err of
       Some _ \<Rightarrow> check ''criu_mem'' False (TrimSpace (string_of out))
     | None \<Rightarrow> check ''criu_mem'' True ''mem_track available''))"

definition DeepProbeWith :: "ext \<Rightarrow> string \<Rightarrow> HealthStatus hact" where
  "DeepProbeWith x runDir =
     bindA (readA (\<lambda>h. Ret (probeGPU h))) (\<lambda>gpu.
     bindA (probeCRIU x) (\<lambda>criu.
     bindA (probeRunDir runDir) (\<lambda>rd.
     bindA (probeNvidiaDriver x) (\<lambda>drv.
     bindA (probeCRIUFeatures x) (\<lambda>feat.
     bindA (readA (\<lambda>h. Ret (probeCaps h))) (\<lambda>caps.
       retA (statusOf [probeOS, gpu, criu, rd, drv, feat, caps])))))))"

definition DeepProbe :: "ext \<Rightarrow> HealthStatus hact" where
  "DeepProbe x = DeepProbeWith x []"

end
