(* ===== verification/Agent.thy ===== *)
theory Agent
  imports Health
begin

text \<open>
  \<open>pkg/agent/agent.go\<close>: the agent keeps the gauges fresh, collects garbage on a timer and
  answers scrapes and health requests. Its goroutines are interleaved by the order of the
  events it receives; the list of events ends when the context is cancelled.
\<close>

record AgentOptions =
  a_Config :: Config
  a_Listen :: string
  a_RefreshInterval :: Duration
  a_GCInterval :: Duration
  a_GCMaxAge :: Duration
  a_PinFile :: string

definition OptionsFromConfig :: "Config \<Rightarrow> 'x os_state_scheme \<Rightarrow> AgentOptions" where
  "OptionsFromConfig cfg s =
     (let addr = Getenv ''CUDACKPT_METRICS_ADDR'' s; gci = Getenv ''CUDACKPT_AGENT_GC_INTERVAL'' s;
          pin = Getenv ''CUDACKPT_PIN_FILE'' s; age = Getenv ''CUDACKPT_AGENT_GC_MAX_AGE'' s;
          dur = (\<lambda>v. if v = [] then 0 else case ParseDuration v of Inl _ \<Rightarrow> 0 | Inr d \<Rightarrow> d)
      in \<lparr>a_Config = cfg, a_Listen = (if addr = [] then ''127.0.0.1:9090'' else addr),
          a_RefreshInterval = 15 * Second, a_GCInterval = dur gci,
          a_GCMaxAge = (if dur age = 0 then 14 * 24 * Hour else dur age), a_PinFile = pin\<rparr>)"

definition RefreshGauges :: "Config \<Rightarrow> unit hact" where
  "RefreshGauges cfg =
     bindA (tryA (ListImages (c_ImageRoot cfg))) (\<lambda>imgs.
     bindA (case imgs of Inl _ \<Rightarrow> retA () | Inr l \<Rightarrow> metricA (reg_Set ImagesGauge (length l))) (\<lambda>_.
     bindA (tryA (ListShims (c_RunDir cfg))) (\<lambda>shims.
       case shims of Inl _ \<Rightarrow> retA () | Inr l \<Rightarrow> metricA (reg_Set ShimsGauge (length l)))))"

definition gcOptions :: "AgentOptions \<Rightarrow> GCOptions" where
  "gcOptions opts = \<lparr>g_Root = c_ImageRoot (a_Config opts), g_MaxAge = sint (a_GCMaxAge opts),
     g_PinFile = a_PinFile opts, g_Now = None\<rparr>"

text \<open>An error of the plan and an error while removing are reported alike.\<close>

definition runGC :: "AgentOptions \<Rightarrow> unit hact" where
  "runGC opts =
     (let failed = (\<lambda>err. bindA (log_Error ''agent_gc'' err [(''root'', JStr (c_ImageRoot (a_Config opts)))]) (\<lambda>_.
            incA GCErrorsTotal)) in
      bindA (tryA (RunImageGC (gcOptions opts) False)) (\<lambda>r. case r of
        Inl err \<Rightarrow> failed err
      | Inr (_, removed, Some err) \<Rightarrow> failed err
      | Inr (_, removed, None) \<Rightarrow>
          if removed = [] then retA ()
          else
            bindA (metricA (reg_Add GCRemovedTotal (word_of_nat (length removed)))) (\<lambda>_.
              RefreshGauges (a_Config opts))))"

definition healthHandler :: "ext \<Rightarrow> Config \<Rightarrow> bool \<Rightarrow> (nat \<times> string) hact" where
  "healthHandler x cfg deepQuery =
     bindA (readA (\<lambda>h. Ret (Getenv ''CUDACKPT_AGENT_DEEP_HEALTH'' h = ''1''))) (\<lambda>deepDefault.
     bindA (if deepDefault \<or> deepQuery then DeepProbeWith x (c_RunDir cfg) else ProbeWith x (c_RunDir cfg)) (\<lambda>st.
       retA (if hs_OK st then 200 else 503, health_Format st)))"

text \<open>One event. The timer of the collector exists only for a positive interval.\<close>

definition agentStep :: "ext \<Rightarrow> AgentOptions \<Rightarrow> agent_event \<Rightarrow> (nat \<times> string) option hact" where
  "agentStep x opts ev =
     (case ev of
        RefreshTick \<Rightarrow> bindA (RefreshGauges (a_Config opts)) (\<lambda>_. retA None)
      | GCTick \<Rightarrow>
          if 0 < sint (a_GCInterval opts) then bindA (runGC opts) (\<lambda>_. retA None) else retA None
      | Get path deep \<Rightarrow>
          if path = ''/health'' then bindA (healthHandler x (a_Config opts) deep) (\<lambda>r. retA (Some r))
          else if path = ''/metrics'' then
            readA (\<lambda>h. Ret (Some (metricsHandler (h_metrics h) path)))
          else retA (Some (404, ''404 page not found'' @ nl)))"

fun agentLoop :: "ext \<Rightarrow> AgentOptions \<Rightarrow> agent_event list \<Rightarrow> (nat \<times> string) list \<Rightarrow> (nat \<times> string) list hact" where
  "agentLoop x opts [] out = retA out"
| "agentLoop x opts (ev # evs) out =
     bindA (agentStep x opts ev) (\<lambda>r.
       agentLoop x opts evs (case r of None \<Rightarrow> out | Some resp \<Rightarrow> out @ [resp]))"

definition agent_Run :: "ext \<Rightarrow> AgentOptions \<Rightarrow> (nat \<times> string) list hact" where
  "agent_Run x opts0 =
     (let opts1 = (if a_Listen opts0 = [] then opts0\<lparr>a_Listen := ''127.0.0.1:9090''\<rparr> else opts0);
          opts = (if sint (a_RefreshInterval opts1) \<le> 0 then opts1\<lparr>a_RefreshInterval := 15 * Second\<rparr> else opts1)
      in bindA (RefreshGauges (a_Config opts)) (\<lambda>_.
         bindA (eprintA (''cudackpt agent listening on http://'' @ a_Listen opts @ ''/metrics (health: /health)'' @ nl)) (\<lambda>_.
           case x_bind x (a_Listen opts) of
             Some err \<Rightarrow> errA err
           | None \<Rightarrow> agentLoop x opts (x_events x) [])))"

text \<open>\<open>metrics.ServeContext\<close>: the registry alone, for the requests among the events.\<close>

definition ServeContext :: "ext \<Rightarrow> string \<Rightarrow> (nat \<times> string) list hact" where
  "ServeContext x addr =
     (case x_bind x addr of
        Some err \<Rightarrow> errA err
      | None \<Rightarrow> readA (\<lambda>h. Ret (List.map_filter (\<lambda>ev. case ev of
            Get path _ \<Rightarrow> Some (metricsHandler (h_metrics h) path) | _ \<Rightarrow> None) (x_events x))))"

definition metrics_Serve :: "ext \<Rightarrow> string \<Rightarrow> (nat \<times> string) list hact" where
  "metrics_Serve x addr = ServeContext x addr"

end
