(* ===== verification/Reports.thy ===== *)
theory Reports
  imports Orchestrator Go_Fmt
begin

text \<open>
  What the program prints about an image: \<open>pkg/control/inspect.go\<close> and
  \<open>pkg/report/report.go\<close>; and the latency benchmark of \<open>pkg/bench/bench.go\<close> with
  its table. Sizes are those of regular files; for anything else the size a system reports is
  its own affair and 0 stands for it.
\<close>

fun node_size :: "node \<Rightarrow> nat" where
  "node_size (FileN b) = length b"
| "node_size _ = 0"

section \<open>inspect.go\<close>

definition entryLine :: "nat \<times> Entry \<Rightarrow> string" where
  "entryLine ie = (case ie of (i, e) \<Rightarrow>
     ''  ['' @ nat_dec i @ ''] ptr='' @ hex0x (e_Ptr e) @ '' size='' @ word_dec (e_Size e) @ '' off='' @
     word_dec (e_Offset e) @ '' seq='' @ word_dec (e_Seq e) @ '' crc='' @ hex08 (e_CRC32C e) @ nl)"

text \<open>Print a sidecar file if it can be read.\<close>

definition showFile :: "string \<Rightarrow> (bytes \<Rightarrow> string) \<Rightarrow> unit hact" where
  "showFile path f =
     bindA (tryA (os_ReadFile path)) (\<lambda>r. case r of Inl _ \<Rightarrow> retA () | Inr b \<Rightarrow> printA (f b))"

definition InspectImage :: "string \<Rightarrow> unit hact" where
  "InspectImage dir =
     bindA (tryA (ReadMeta (Join dir ''meta.bin''))) (\<lambda>m.
     bindA (printA (case m of
         Inr m \<Rightarrow> ''meta pid='' @ word_dec (m_Pid m) @ '' dev='' @ word_dec (m_Dev m) @ '' preload='' @
           Quote (m_Preload m) @ '' visible='' @ Quote (m_Visible m) @ nl
       | Inl err \<Rightarrow> ''meta missing or invalid: '' @ Error err @ nl)) (\<lambda>_.
     bindA (tryA (ReadDev (Join dir ''dev.bin''))) (\<lambda>dev.
     bindA (case dev of Inr d \<Rightarrow> printA (''dev='' @ word_dec d @ nl) | Inl _ \<Rightarrow> retA ()) (\<lambda>_.
     bindA (ReadManifest (Join dir ''manifest.bin'')) (\<lambda>(entries, hdr).
     bindA (printA (''manifest count='' @ word_dec (h_Count hdr) @ '' bytes='' @ word_dec (h_TotalBytes hdr) @
       '' version='' @ word_dec (h_Version hdr) @ nl @ concat (map entryLine (enumerate 0 entries)))) (\<lambda>_.
     bindA (tryA (os_Stat (Join dir ''device.bin''))) (\<lambda>st.
     bindA (case st of Inr n \<Rightarrow> printA (''device.bin size='' @ nat_dec (node_size n) @ nl) | Inl _ \<Rightarrow> retA ()) (\<lambda>_.
     bindA (tryA (os_Stat (Join dir ''criu''))) (\<lambda>cr.
     bindA (if cr = Inr DirN then printA (''criu present'' @ nl) else retA ()) (\<lambda>_.
     bindA (showFile (Join dir ''restored.pid'') (\<lambda>b. ''restored.pid='' @ string_of b)) (\<lambda>_.
     bindA (showFile (Join dir restoreEventsName) (\<lambda>b.
       if b = [] then [] else ''restore.events='' @ nat_dec (length b) @ '' bytes'' @ nl)) (\<lambda>_.
     bindA (showFile (Join dir ''restore.err'') (\<lambda>b. ''restore.err='' @ string_of b)) (\<lambda>_.
       showFile (Join dir ''snapshot.err'') (\<lambda>b. ''snapshot.err='' @ string_of b))))))))))))))"

section \<open>report.go\<close>

definition colWidth :: "string \<Rightarrow> nat" where
  "colWidth c = (if length c + 2 < 14 then 14 else length c + 2)"

definition borderLine :: "string list \<Rightarrow> string" where
  "borderLine cols = ''+'' @ concat (map (\<lambda>c. replicate (colWidth c) (CHR ''-'') @ ''+'') cols)"

definition cellLine :: "string list \<Rightarrow> string" where
  "cellLine cols = ''|'' @ concat (map (\<lambda>c. '' '' @ pad_right (colWidth c - 1) c @ '' |'') cols)"

definition writeRow :: "string list \<Rightarrow> string" where
  "writeRow cols = borderLine cols @ nl @ cellLine cols @ nl @ borderLine cols @ nl"

definition chunkRows :: "Entry list \<Rightarrow> string" where
  "chunkRows entries =
     concat (map (\<lambda>(i, e). writeRow [nat_dec i, hex0x (e_Ptr e), word_dec (e_Size e), word_dec (e_Seq e),
       hex08 (e_CRC32C e)]) (enumerate 0 (take 16 entries))) @
     (if 16 < length entries then ''... '' @ nat_dec (length entries - 16) @ '' more'' @ nl else [])"

definition RenderImage :: "string \<Rightarrow> ('x os_state_scheme, string) act" where
  "RenderImage dir =
     bindA (ReadManifest (Join dir ''manifest.bin'')) (\<lambda>(entries, hdr).
     bindA (tryA (ReadMeta (Join dir ''meta.bin''))) (\<lambda>meta.
     bindA (tryA (os_Stat (Join dir ''device.bin''))) (\<lambda>st.
       retA
         (writeRow [''field'', ''value''] @
          writeRow [''manifest_version'', word_dec (h_Version hdr)] @
          writeRow [''chunks'', word_dec (h_Count hdr)] @
          writeRow [''device_bytes'', word_dec (h_TotalBytes hdr)] @
          (case st of Inr n \<Rightarrow> writeRow [''device_file_bytes'', nat_dec (node_size n)] | Inl _ \<Rightarrow> []) @
          (case meta of
             Inr m \<Rightarrow>
               if 0 < m_Pid m then
                 writeRow [''source_pid'', word_dec (m_Pid m)] @ writeRow [''gpu_device'', word_dec (m_Dev m)] @
                 writeRow [''ld_preload'', m_Preload m] @ writeRow [''cuda_visible'', m_Visible m]
               else []
           | Inl _ \<Rightarrow> []) @
          writeRow [''path'', dir] @ nl @ ''chunks'' @ nl @
          writeRow [''idx'', ''ptr'', ''size'', ''seq'', ''crc32c''] @ chunkRows entries))))"

section \<open>bench.go\<close>

definition usPerOp :: "int \<Rightarrow> Duration \<Rightarrow> Float64" where
  "usPerOp count d =
     (if count = 0 then (False, 0, 0)
      else
        let us = sgn (sint d) * (\<bar>sint d\<bar> div 1000); neg = ((us < 0) \<noteq> (count < 0)) in
        if us = 0 then (neg, 0, 0)
        else
          let (m1, e1) = fl \<bar>us\<bar> 1; (m2, e2) = fl \<bar>count\<bar> 1; e = e1 - e2;
              (m, e') = fl (m1 * 2 ^ nat e) (m2 * 2 ^ nat (- e))
          in (neg, m, e'))"

record Result =
  re_Op :: string
  re_Count :: int
  re_Elapsed :: Duration
  re_PerOpUs :: Float64
  re_Errors :: int

fun pingLoop :: "cuda \<Rightarrow> string \<Rightarrow> int \<Rightarrow> nat \<Rightarrow> int \<Rightarrow> int hact" where
  "pingLoop cu runDir pid 0 errs = retA errs"
| "pingLoop cu runDir pid (Suc n) errs =
     bindA (tryA (DialRunDir cu runDir pid)) (\<lambda>d. case d of
       Inl _ \<Rightarrow> pingLoop cu runDir pid n (errs + 1)
     | Inr cli \<Rightarrow>
         bindA (tryA (Ping cu cli)) (\<lambda>r.
         bindA (ignoreA (client_Close cli)) (\<lambda>_.
           pingLoop cu runDir pid n (case r of Inl _ \<Rightarrow> errs + 1 | Inr _ \<Rightarrow> errs))))"

fun statusLoop :: "cuda \<Rightarrow> Client \<Rightarrow> nat \<Rightarrow> int \<Rightarrow> int hact" where
  "statusLoop cu cli 0 errs = retA errs"
| "statusLoop cu cli (Suc n) errs =
     bindA (tryA (Status cu cli)) (\<lambda>r. statusLoop cu cli n (case r of Inl _ \<Rightarrow> errs + 1 | Inr _ \<Rightarrow> errs))"

definition benchResult :: "string \<Rightarrow> int \<Rightarrow> int \<Rightarrow> int \<Rightarrow> Result hact" where
  "benchResult op count start errs = readA (\<lambda>h.
     let elapsed = word_of_int (clock h - start) in
     Ret \<lparr>re_Op = op, re_Count = count, re_Elapsed = elapsed, re_PerOpUs = usPerOp count elapsed, re_Errors = errs\<rparr>)"

definition bench_Ping :: "cuda \<Rightarrow> string \<Rightarrow> int \<Rightarrow> int \<Rightarrow> Result hact" where
  "bench_Ping cu runDir pid count =
     bindA (readA (\<lambda>h. Ret (clock h))) (\<lambda>start.
     bindA (pingLoop cu runDir pid (nat count) 0) (\<lambda>errs. benchResult ''ping'' count start errs))"

definition bench_Status :: "cuda \<Rightarrow> string \<Rightarrow> int \<Rightarrow> int \<Rightarrow> Result hact" where
  "bench_Status cu runDir pid count =
     bindA (readA (\<lambda>h. Ret (clock h))) (\<lambda>start.
     bindA (tryA (DialRunDir cu runDir pid)) (\<lambda>d. case d of
       Inl _ \<Rightarrow> retA \<lparr>re_Op = ''status'', re_Count = count, re_Elapsed = 0, re_PerOpUs = (False, 0, 0), re_Errors = count\<rparr>
     | Inr cli \<Rightarrow> deferA (client_Close cli)
         (bindA (statusLoop cu cli (nat count) 0) (\<lambda>errs. benchResult ''status'' count start errs))))"

definition benchRow :: "Result \<Rightarrow> string" where
  "benchRow r =
     ''| '' @ pad_right 6 (re_Op r) @ '' | '' @ pad_left 5 (Itoa (re_Count r)) @ '' | '' @
     pad_left 9 (Duration_String (Duration_Round (re_Elapsed r) Microsecond)) @ '' | '' @
     pad_left 8 (fixed1 (re_PerOpUs r)) @ '' | '' @ pad_left 6 (Itoa (re_Errors r)) @ '' |'' @ nl"

definition FormatTable :: "Result list \<Rightarrow> string" where
  "FormatTable rows =
     (let line = ''+--------+-------+-----------+----------+--------+'' @ nl
      in line @ ''| op     | count | elapsed   | us/op    | errors |'' @ nl @ line @ concat (map benchRow rows) @ line)"

end
