(* ===== verification/Promote.thy ===== *)
theory Promote
  imports Orchestrator
begin

text \<open>
  \<open>pkg/control/promote.go\<close>: copying an image to another place, checking the copy and
  pinning it against the garbage collector. \<open>walk\<close> is \<open>filepath.Walk\<close>, which reads the
  names in a directory before it calls back for it and visits them in order; the tree it
  walks may grow while it does, so it takes fuel (the depth).
\<close>

section \<open>Definitions\<close>

record PromoteOptions =
  pm_Src :: string
  pm_Dest :: string
  pm_PinFile :: string

definition copyFile :: "string \<Rightarrow> string \<Rightarrow> ('x os_state_scheme, unit) act" where
  "copyFile src dst =
     bindA (os_Open src) (\<lambda>f.
     bindA (os_MkdirAll (Dir dst)) (\<lambda>_.
       case file_bytes src f of
         Ret b \<Rightarrow> os_WriteFile dst b
       | Err e \<Rightarrow> bindA (os_WriteFile dst []) (\<lambda>_. errA e)
       | Panic p \<Rightarrow> liftA (Panic p)
       | Diverge \<Rightarrow> liftA Diverge))"

text \<open>\<open>filepath.Rel\<close>: the steps up from the base and down to the target.\<close>

fun strip_common :: "string list \<Rightarrow> string list \<Rightarrow> string list \<times> string list" where
  "strip_common (b # bs) (t # ts) = (if b = t then strip_common bs ts else (b # bs, t # ts))"
| "strip_common bs ts = (bs, ts)"

definition Rel :: "string \<Rightarrow> string \<Rightarrow> goerr + string" where
  "Rel basepath targpath =
     (let (bs, ts) = strip_common (clean_comps basepath) (clean_comps targpath);
          fail = Inl (FmtError (''Rel: can'' @ [CHR 0x27] @ ''t make '' @ targpath @ '' relative to '' @ basepath))
      in if rooted basepath \<noteq> rooted targpath then fail
         else if bs \<noteq> [] \<and> hd bs = ''..'' then fail
         else if bs = [] \<and> ts = [] then Inr ''.''
         else Inr (join_slash (replicate (length bs) ''..'' @ ts)))"

type_synonym 'x visitor = "string \<Rightarrow> node \<Rightarrow> goerr option \<Rightarrow> ('x os_state_scheme, unit) act"

function walk :: "nat \<Rightarrow> 'x visitor \<Rightarrow> string \<Rightarrow> node \<Rightarrow> ('x os_state_scheme, unit) act"
  and walkNames :: "nat \<Rightarrow> 'x visitor \<Rightarrow> string \<Rightarrow> string list \<Rightarrow> ('x os_state_scheme, unit) act" where
  "walk n fn path info =
     (if n = 0 then liftA Diverge
      else if info \<noteq> DirN then fn path info None
      else bindA (tryA (os_ReadDir path)) (\<lambda>r. case r of
        Inl err \<Rightarrow> fn path info (Some err)
      | Inr ents \<Rightarrow> bindA (fn path info None) (\<lambda>_. walkNames (n - 1) fn path (map fst ents))))"
| "walkNames n fn path [] = retA ()"
| "walkNames n fn path (name # names) =
     bindA (tryA (os_Stat (Join path name))) (\<lambda>r. case r of
       Inl err \<Rightarrow> bindA (fn (Join path name) DirN (Some err)) (\<lambda>_. walkNames n fn path names)
     | Inr info \<Rightarrow> bindA (walk n fn (Join path name) info) (\<lambda>_. walkNames n fn path names))"
  by pat_completeness auto

termination
  by (relation "measures [\<lambda>p. case p of Inl (n, _) \<Rightarrow> n | Inr (n, _) \<Rightarrow> n,
      \<lambda>p. case p of Inl _ \<Rightarrow> 0 | Inr (_, _, _, names) \<Rightarrow> Suc (length names)]") auto

declare walk.simps [simp del]

definition copyVisit :: "string \<Rightarrow> string \<Rightarrow> 'x visitor" where
  "copyVisit src dst path fi err =
     (case err of Some e \<Rightarrow> errA e | None \<Rightarrow>
        (case Rel src path of
           Inl e \<Rightarrow> errA e
         | Inr rel \<Rightarrow>
             let target = Join dst rel in
             if fi = DirN then os_MkdirAll target else copyFile path target))"

definition copyDir :: "nat \<Rightarrow> string \<Rightarrow> string \<Rightarrow> ('x os_state_scheme, unit) act" where
  "copyDir n src0 dst0 =
     (let src = Clean src0; dst = Clean dst0 in
      bindA (os_Stat src) (\<lambda>info.
        if info \<noteq> DirN then errA (E Invalid ''source not a directory'')
        else walk n (copyVisit src dst) src info))"

definition appendPinnedPath :: "string \<Rightarrow> string \<Rightarrow> ('x os_state_scheme, unit) act" where
  "appendPinnedPath pinFile path0 =
     (let path = Clean path0 in
      bindA (LoadPinnedPaths pinFile) (\<lambda>pinned.
        if path \<in> set pinned then retA () else os_AppendFile pinFile (bytes_of (path @ nl))))"

definition orc_Promote :: "ext \<Rightarrow> PromoteOptions \<Rightarrow> ('x os_state_scheme, unit) act" where
  "orc_Promote x opts =
     (let src = Clean (pm_Src opts); dest = Clean (pm_Dest opts) in
      if src = dest then errA (E Invalid ''source and dest are the same'')
      else
        bindA (ValidateImage x src) (\<lambda>_.
        bindA (wrapA IO ''remove dest'' (os_RemoveAll dest)) (\<lambda>_.
        bindA (wrapA IO ''copy'' (copyDir (x_depth x) src dest)) (\<lambda>_.
        bindA (tryA (ValidateImage x dest)) (\<lambda>v. case v of
          Inl err \<Rightarrow> bindA (tryA (os_RemoveAll dest)) (\<lambda>_. errA (Wrap Invalid ''dest validate'' (Some err)))
        | Inr _ \<Rightarrow>
            if pm_PinFile opts = [] then retA ()
            else wrapA IO ''pin'' (appendPinnedPath (pm_PinFile opts) dest))))))"

definition ParsePromotePin :: "string \<Rightarrow> 'x os_state_scheme \<Rightarrow> string" where
  "ParsePromotePin path0 s =
     (let path = TrimSpace path0 in if path = [] then Getenv ''CUDACKPT_PIN_FILE'' s else path)"

end
