(* ===== verification/Drift.thy ===== *)
theory Drift
  imports Go_Fmt Image_Delta_Laws Image_Meta
begin

text \<open>
  \<open>pkg/control/drift.go\<close>: the comparison of two images by their manifests and metadata,
  and its rendering.
\<close>

section \<open>Definitions\<close>

record DriftEntry =
  dr_Ptr :: u64
  dr_Field :: string
  dr_Left :: string
  dr_Right :: string

record DriftReport =
  dp_Left :: string
  dp_Right :: string
  dp_Manifest :: "DriftEntry list"
  dp_MetaDrift :: "DriftEntry list"
  dp_FlagDrift :: "DriftEntry list"

definition drift :: "u64 \<Rightarrow> string \<Rightarrow> string \<Rightarrow> string \<Rightarrow> DriftEntry" where
  "drift ptr field left right = \<lparr>dr_Ptr = ptr, dr_Field = field, dr_Left = left, dr_Right = right\<rparr>"

definition flagDrift :: "Header \<Rightarrow> Header \<Rightarrow> DriftEntry list" where
  "flagDrift lh rh =
     (if h_Flags lh \<noteq> h_Flags rh then [drift 0 ''flags'' (hex0x (h_Flags lh)) (hex0x (h_Flags rh))] else [])"

definition countDrift :: "Header \<Rightarrow> Header \<Rightarrow> DriftEntry list" where
  "countDrift lh rh =
     (if h_Count lh \<noteq> h_Count rh then [drift 0 ''count'' (word_dec (h_Count lh)) (word_dec (h_Count rh))] else [])"

text \<open>Metadata is compared only when both sides have it.\<close>

definition metaDrift :: "goerr + Meta \<Rightarrow> goerr + Meta \<Rightarrow> DriftEntry list" where
  "metaDrift l r =
     (case (l, r) of
        (Inr lm, Inr rm) \<Rightarrow>
          (if m_Dev lm \<noteq> m_Dev rm then [drift 0 ''dev'' (word_dec (m_Dev lm)) (word_dec (m_Dev rm))] else []) @
          (if m_Visible lm \<noteq> m_Visible rm then [drift 0 ''cuda_visible'' (m_Visible lm) (m_Visible rm)] else [])
      | _ \<Rightarrow> [])"

definition entryDrift :: "(u64 \<Rightarrow> Entry option) \<Rightarrow> Entry \<Rightarrow> DriftEntry list" where
  "entryDrift ptrs a =
     (case ptrs (e_Ptr a) of
        None \<Rightarrow> [drift (e_Ptr a) ''missing'' (''size='' @ word_dec (e_Size a)) ''absent'']
      | Some b \<Rightarrow>
          (if e_Size a \<noteq> e_Size b
           then [drift (e_Ptr a) ''size'' (word_dec (e_Size a)) (word_dec (e_Size b))] else []) @
          (if e_CRC32C a \<noteq> e_CRC32C b
           then [drift (e_Ptr a) ''crc32c'' (hex08 (e_CRC32C a)) (hex08 (e_CRC32C b))] else []))"

text \<open>Only as many entries of the left image are looked at as the right one has.\<close>

definition CompareImages :: "string \<Rightarrow> string \<Rightarrow> ('x os_state_scheme, DriftReport) act" where
  "CompareImages left right =
     bindA (ReadManifest (Join left ''manifest.bin'')) (\<lambda>(le, lh).
     bindA (ReadManifest (Join right ''manifest.bin'')) (\<lambda>(re, rh).
     bindA (tryA (ReadMeta (Join left ''meta.bin''))) (\<lambda>lm.
     bindA (tryA (ReadMeta (Join right ''meta.bin''))) (\<lambda>rm.
       retA \<lparr>dp_Left = left, dp_Right = right,
         dp_Manifest = countDrift lh rh @
           concat (map (entryDrift (byPtr re)) (take (min (length le) (length re)) le)),
         dp_MetaDrift = metaDrift lm rm, dp_FlagDrift = flagDrift lh rh\<rparr>))))"

definition driftLine :: "DriftEntry \<Rightarrow> string" where
  "driftLine d =
     (if dr_Ptr d \<noteq> 0 then ''  ptr='' @ hex0x (dr_Ptr d) @ '' '' @ dr_Field d else ''  '' @ dr_Field d) @
     '' left='' @ dr_Left d @ '' right='' @ dr_Right d @ [CHR 0x0A]"

definition writeDrift :: "string \<Rightarrow> DriftEntry list \<Rightarrow> string" where
  "writeDrift title rows =
     (if rows = [] then [] else title @ [CHR 0x0A] @ concat (map driftLine rows))"

definition FormatDrift :: "DriftReport \<Rightarrow> string" where
  "FormatDrift r =
     ''compare '' @ dp_Left r @ '' vs '' @ dp_Right r @ [CHR 0x0A] @
     writeDrift ''flags'' (dp_FlagDrift r) @ writeDrift ''meta'' (dp_MetaDrift r) @
     writeDrift ''manifest'' (dp_Manifest r) @
     (if dp_FlagDrift r = [] \<and> dp_MetaDrift r = [] \<and> dp_Manifest r = [] then ''no drift'' @ [CHR 0x0A] else [])"

end
