(* ===== verification/Command.thy ===== *)
theory Command
  imports Agent Reports Promote Drift
begin

text \<open>
  \<open>cmd/cudackpt\<close>: the command line. A command returns the exit status; \<open>die\<close> prints an
  error and exits with 1, a wrong number of arguments prints the usage and exits with 2.
  \<open>args\<close> is \<open>os.Args\<close> without the program's name.
\<close>

section \<open>Helpers\<close>

type_synonym status = int

definition usageLines :: "string list" where
  "usageLines = [
     ''usage: cudackpt checkpoint <pid> [dir]'',
     ''       cudackpt restore <image>'',
     ''       cudackpt rollback <image> [--stop <pid>]'',
     ''       cudackpt promote <src> <dest> [--pin file]'',
     ''       cudackpt gc [--root dir] [--older-than 14d] [--pin file] [--dry-run]'',
     ''       cudackpt metrics [--listen addr]'',
     ''       cudackpt agent [--listen addr]'',
     ''       cudackpt freeze|ping|resume|status <pid>'',
     ''       cudackpt watch <pid>'',
     ''       cudackpt bench <pid> [count]'',
     ''       cudackpt diff <image-a> <image-b>'',
     ''       cudackpt snapshot <pid> <dir>'',
     ''       cudackpt gpu-restore <pid> <dir>'',
     ''       cudackpt list [root]'',
     ''       cudackpt ps [-v]'',
     ''       cudackpt inspect <image>'',
     ''       cudackpt validate <image>'',
     ''       cudackpt report <image>'',
     ''       cudackpt stats <pid>'',
     ''       cudackpt health [-d]'',
     ''       cudackpt version'',
     ''       cudackpt serve'',
     ''       cudackpt completion bash|zsh'']"

definition usage :: "status hact" where
  "usage = bindA (eprintA (concat (map (\<lambda>l. l @ nl) usageLines))) (\<lambda>_. retA 2)"

definition die :: "goerr \<Rightarrow> status hact" where
  "die err = bindA (eprintA (''cudackpt: '' @ Error err @ nl)) (\<lambda>_. retA 1)"

text \<open>\<open>if err != nil { die(err) }\<close>.\<close>

definition orDie :: "'a hact \<Rightarrow> ('a \<Rightarrow> status hact) \<Rightarrow> status hact" where
  "orDie m k = bindA (tryA m) (\<lambda>r. case r of Inl err \<Rightarrow> die err | Inr a \<Rightarrow> k a)"

definition println :: "string \<Rightarrow> status hact" where
  "println s = bindA (printA (s @ nl)) (\<lambda>_. retA 0)"

definition parseA :: "goerr + 'a \<Rightarrow> ('a \<Rightarrow> status hact) \<Rightarrow> status hact" where
  "parseA r k = (case r of Inl err \<Rightarrow> die err | Inr a \<Rightarrow> k a)"

definition parseAge :: "string \<Rightarrow> goerr + Duration" where
  "parseAge s =
     (if HasSuffix s ''d'' then
        (case atoi (butlast s) of Inl e \<Rightarrow> Inl e | Inr n \<Rightarrow> Inr (word_of_int n * 24 * Hour))
      else ParseDuration s)"

definition config_Load :: "Config hact" where
  "config_Load =
     bindA (readA (\<lambda>h. Ret (LoadWithWarnings h))) (\<lambda>r.
     bindA (eprintA (concat (map (\<lambda>w. ''cudackpt config warning: '' @ w @ nl) (l_Warnings r)))) (\<lambda>_.
       retA (l_Config r)))"

definition version_String :: string where "version_String = ''0.1.0-dev''"

section \<open>Commands\<close>

definition cmd_checkpoint :: "ext \<Rightarrow> Orchestrator \<Rightarrow> string list \<Rightarrow> status hact" where
  "cmd_checkpoint x orc args =
     (case args of
        [] \<Rightarrow> usage
      | p # rest \<Rightarrow> parseA (atoi p) (\<lambda>pid.
          orDie (EnqueueCheckpoint x orc pid (case rest of [] \<Rightarrow> [] | out # _ \<Rightarrow> out)) (\<lambda>_. println ''checkpoint ok'')))"

definition cmd_restore :: "ext \<Rightarrow> Orchestrator \<Rightarrow> string list \<Rightarrow> status hact" where
  "cmd_restore x orc args =
     (case args of
        [] \<Rightarrow> usage
      | img # _ \<Rightarrow> orDie (orc_Restore x orc img) (\<lambda>pid. println (''restore ok pid='' @ Itoa pid)))"

text \<open>The flag loops; unknown arguments are skipped by the first two.\<close>

fun stopFlag :: "int \<Rightarrow> string list \<Rightarrow> goerr + int" where
  "stopFlag pid [] = Inr pid"
| "stopFlag pid [a] = Inr pid"
| "stopFlag pid (a # v # as) =
     (if a = ''--stop'' then (case atoi v of Inl e \<Rightarrow> Inl e | Inr n \<Rightarrow> stopFlag n as) else stopFlag pid (v # as))"

definition cmd_rollback :: "ext \<Rightarrow> Orchestrator \<Rightarrow> string list \<Rightarrow> status hact" where
  "cmd_rollback x orc args =
     (case args of
        [] \<Rightarrow> usage
      | img # rest \<Rightarrow> parseA (stopFlag 0 rest) (\<lambda>stopPID.
          orDie (Rollback x orc img stopPID) (\<lambda>pid. println (''rollback ok pid='' @ Itoa pid))))"

fun pinFlag :: "string \<Rightarrow> string list \<Rightarrow> string" where
  "pinFlag pin [] = pin"
| "pinFlag pin [a] = pin"
| "pinFlag pin (a # v # as) = (if a = ''--pin'' then pinFlag v as else pinFlag pin (v # as))"

definition cmd_promote :: "ext \<Rightarrow> string list \<Rightarrow> status hact" where
  "cmd_promote x args =
     (case args of
        src # dest # rest \<Rightarrow>
          bindA (readA (\<lambda>h. Ret (pinFlag (ParsePromotePin [] h) rest))) (\<lambda>pin.
            orDie (orc_Promote x \<lparr>pm_Src = src, pm_Dest = dest, pm_PinFile = pin\<rparr>) (\<lambda>_. println ''promote ok''))
      | _ \<Rightarrow> usage)"

record gcFlags =
  gf_root :: string
  gf_maxAge :: Duration
  gf_pin :: string
  gf_dryRun :: bool

fun gcArgs :: "gcFlags \<Rightarrow> string list \<Rightarrow> goerr + gcFlags" where
  "gcArgs f [] = Inr f"
| "gcArgs f (a # as) =
     (if a = ''--root'' then
        (case as of [] \<Rightarrow> Inl (FmtError ''gc: missing value for --root'') | v # as' \<Rightarrow> gcArgs (f\<lparr>gf_root := v\<rparr>) as')
      else if a = ''--older-than'' then
        (case as of [] \<Rightarrow> Inl (FmtError ''gc: missing value for --older-than'')
         | v # as' \<Rightarrow> (case parseAge v of Inl e \<Rightarrow> Inl e | Inr d \<Rightarrow> gcArgs (f\<lparr>gf_maxAge := d\<rparr>) as'))
      else if a = ''--pin'' then
        (case as of [] \<Rightarrow> Inl (FmtError ''gc: missing value for --pin'') | v # as' \<Rightarrow> gcArgs (f\<lparr>gf_pin := v\<rparr>) as')
      else if a = ''--dry-run'' then gcArgs (f\<lparr>gf_dryRun := True\<rparr>) as
      else Inl (FmtError (''gc: unknown flag '' @ Quote a)))"

definition cmd_gc :: "Config \<Rightarrow> string list \<Rightarrow> status hact" where
  "cmd_gc cfg args =
     bindA (readA (\<lambda>h. Ret \<lparr>gf_root = c_ImageRoot cfg, gf_maxAge = 14 * 24 * Hour,
         gf_pin = Getenv ''CUDACKPT_PIN_FILE'' h, gf_dryRun = False\<rparr>)) (\<lambda>f0.
     parseA (gcArgs f0 args) (\<lambda>f.
     orDie (RunImageGC \<lparr>g_Root = gf_root f, g_MaxAge = sint (gf_maxAge f), g_PinFile = gf_pin f, g_Now = None\<rparr>
         (gf_dryRun f)) (\<lambda>(_, removed, err).
       case err of Some e \<Rightarrow> die e | None \<Rightarrow>
         bindA (printA (concat (map (\<lambda>p. p @ nl) removed))) (\<lambda>_.
         bindA (metricA (reg_Add GCRemovedTotal (word_of_nat (length removed)))) (\<lambda>_.
         bindA (RefreshGauges cfg) (\<lambda>_.
         bindA (eprintA ((if gf_dryRun f then ''gc dry-run: would remove '' else ''gc removed '') @
             nat_dec (length removed) @ '' paths'' @ nl)) (\<lambda>_. retA 0)))))))"

definition cmd_shim :: "ext \<Rightarrow> Orchestrator \<Rightarrow> string \<Rightarrow> string list \<Rightarrow> status hact" where
  "cmd_shim x orc cmd args =
     (case args of
        [] \<Rightarrow> usage
      | p # _ \<Rightarrow> parseA (atoi p) (\<lambda>pid.
          if cmd = ''status'' then
            orDie (orc_Status x orc pid) (\<lambda>st. println (StateName st @ '' ('' @ word_dec st @ '')''))
          else
            orDie (if cmd = ''ping'' then orc_Ping x orc pid
                   else if cmd = ''freeze'' then orc_Freeze x orc pid else orc_Resume x orc pid)
              (\<lambda>_. println (cmd @ '' ok''))))"

fun watchArgs :: "WatchOptions \<Rightarrow> string list \<Rightarrow> goerr + WatchOptions" where
  "watchArgs w [] = Inr w"
| "watchArgs w (a # as) =
     (if a = ''--until-running'' then watchArgs (w\<lparr>w_UntilRunning := True\<rparr>) as
      else if a = ''--timeout'' then
        (case as of [] \<Rightarrow> Inl (FmtError ''--timeout requires duration'')
         | v # as' \<Rightarrow> (case ParseDuration v of Inl e \<Rightarrow> Inl e | Inr d \<Rightarrow> watchArgs (w\<lparr>w_Timeout := d\<rparr>) as'))
      else Inl (FmtError (''unknown flag: '' @ a)))"

definition cmd_watch :: "ext \<Rightarrow> Config \<Rightarrow> Orchestrator \<Rightarrow> string list \<Rightarrow> status hact" where
  "cmd_watch x cfg orc args =
     (case args of
        [] \<Rightarrow> usage
      | p # rest \<Rightarrow> parseA (atoi p) (\<lambda>pid.
          parseA (watchArgs \<lparr>w_UntilRunning = False, w_Timeout = 0\<rparr> rest) (\<lambda>opts.
            orDie (WatchShimWith x orc pid (c_ShimPoll cfg) opts (x_stop x)) (\<lambda>_. retA 0))))"

definition cmd_bench :: "ext \<Rightarrow> Config \<Rightarrow> string list \<Rightarrow> status hact" where
  "cmd_bench x cfg args =
     (case args of
        [] \<Rightarrow> usage
      | p # rest \<Rightarrow>
          (case atoi p of Inl e \<Rightarrow> die e | Inr pid \<Rightarrow>
             (case (case rest of [] \<Rightarrow> Inr 100 | c # _ \<Rightarrow> atoi c) of
                Inl e \<Rightarrow> die e
              | Inr n \<Rightarrow>
                  bindA (bench_Ping (x_cuda x) (c_RunDir cfg) pid n) (\<lambda>ping.
                  bindA (bench_Status (x_cuda x) (c_RunDir cfg) pid n) (\<lambda>st.
                  bindA (printA (FormatTable [ping, st])) (\<lambda>_. retA 0))))))"

definition cmd_diff :: "string list \<Rightarrow> status hact" where
  "cmd_diff args =
     (case args of
        a # b # _ \<Rightarrow> orDie (CompareImages a b) (\<lambda>rep. bindA (printA (FormatDrift rep)) (\<lambda>_. retA 0))
      | _ \<Rightarrow> usage)"

definition cmd_image_of :: "ext \<Rightarrow> Orchestrator \<Rightarrow> string \<Rightarrow> string list \<Rightarrow> status hact" where
  "cmd_image_of x orc cmd args =
     (case args of
        p # dir # _ \<Rightarrow> parseA (atoi p) (\<lambda>pid.
          orDie (if cmd = ''snapshot'' then orc_Snapshot x orc pid dir else orc_GpuRestore x orc pid dir)
            (\<lambda>_. println (cmd @ '' ok'')))
      | _ \<Rightarrow> usage)"

definition cmd_list :: "Config \<Rightarrow> string list \<Rightarrow> status hact" where
  "cmd_list cfg args =
     orDie (ListImages (case args of [] \<Rightarrow> c_ImageRoot cfg | r # _ \<Rightarrow> r)) (\<lambda>imgs.
       bindA (printA (concat (map (\<lambda>p. p @ nl) imgs))) (\<lambda>_. retA 0))"

fun psLoop :: "ext \<Rightarrow> Orchestrator \<Rightarrow> bool \<Rightarrow> int list \<Rightarrow> unit hact" where
  "psLoop x orc verbose [] = retA ()"
| "psLoop x orc verbose (p # ps) =
     bindA (if \<not> verbose then printA (Itoa p @ nl)
            else bindA (tryA (orc_Status x orc p)) (\<lambda>r. case r of
              Inl _ \<Rightarrow> printA (Itoa p @ '' offline'' @ nl)
            | Inr st \<Rightarrow> printA (Itoa p @ '' '' @ StateName st @ nl))) (\<lambda>_.
       psLoop x orc verbose ps)"

definition cmd_ps :: "ext \<Rightarrow> Config \<Rightarrow> Orchestrator \<Rightarrow> string list \<Rightarrow> status hact" where
  "cmd_ps x cfg orc args =
     orDie (ListShims (c_RunDir cfg)) (\<lambda>pids.
       bindA (psLoop x orc (args \<noteq> [] \<and> hd args = ''-v'') pids) (\<lambda>_. retA 0))"

definition cmd_inspect :: "string list \<Rightarrow> status hact" where
  "cmd_inspect args = (case args of [] \<Rightarrow> usage | dir # _ \<Rightarrow> orDie (InspectImage dir) (\<lambda>_. retA 0))"

definition cmd_validate :: "ext \<Rightarrow> string list \<Rightarrow> status hact" where
  "cmd_validate x args =
     (case args of [] \<Rightarrow> usage | dir # _ \<Rightarrow> orDie (ValidateImage x dir) (\<lambda>_. println ''validate ok''))"

definition cmd_report :: "string list \<Rightarrow> status hact" where
  "cmd_report args =
     (case args of [] \<Rightarrow> usage | dir # _ \<Rightarrow>
        orDie (RenderImage dir) (\<lambda>out. bindA (printA out) (\<lambda>_. retA 0)))"

definition cmd_stats :: "ext \<Rightarrow> Orchestrator \<Rightarrow> string list \<Rightarrow> status hact" where
  "cmd_stats x orc args =
     (case args of
        [] \<Rightarrow> usage
      | p # _ \<Rightarrow> parseA (atoi p) (\<lambda>pid.
          orDie (orc_Stats x orc pid) (\<lambda>st. println
            (''state='' @ word_dec (st_State st) @ '' allocs='' @ word_dec (st_AllocCount st) @ '' bytes='' @
             word_dec (st_TotalBytes st) @ '' streams='' @ word_dec (st_StreamCount st) @ '' modules='' @
             word_dec (st_ModuleCount st) @ '' symbols='' @ word_dec (st_SymbolCount st) @ '' events='' @
             word_dec (st_EventCount st) @ '' ctxs='' @ word_dec (st_CtxCount st) @ '' unsupported='' @
             word_dec (st_UnsupportedCode st)))))"

definition cmd_health :: "ext \<Rightarrow> Config \<Rightarrow> string list \<Rightarrow> status hact" where
  "cmd_health x cfg args =
     bindA (if args \<noteq> [] \<and> hd args = ''-d'' then DeepProbeWith x (c_RunDir cfg) else ProbeWith x (c_RunDir cfg)) (\<lambda>st.
     bindA (printA (health_Format st)) (\<lambda>_. retA (if hs_OK st then 0 else 1)))"

definition runServe :: "ext \<Rightarrow> Config \<Rightarrow> Orchestrator \<Rightarrow> unit hact" where
  "runServe x cfg orc =
     (let cmd = (if TrimSpace (x_stdin x) = [] then ''ps'' else TrimSpace (x_stdin x)) in
      if cmd = ''ps'' then bindA (ListShims (c_RunDir cfg)) (\<lambda>pids. psLoop x orc True pids)
      else if cmd = ''health'' then
        bindA (ProbeWith x (c_RunDir cfg)) (\<lambda>st.
        bindA (printA (health_Format st)) (\<lambda>_.
          if \<not> hs_OK st then errA (FmtError ''health degraded'') else retA ()))
      else errA (FmtError (''unknown serve command '' @ Quote cmd)))"

fun listenFlag :: "string \<Rightarrow> string \<Rightarrow> string list \<Rightarrow> goerr + string" where
  "listenFlag cmd addr [] = Inr addr"
| "listenFlag cmd addr (a # as) =
     (if a = ''--listen'' then
        (case as of
           [] \<Rightarrow> Inl (FmtError (if cmd = ''agent'' then ''agent: missing value for --listen''
               else ''metrics: unknown flag '' @ Quote a))
         | v # as' \<Rightarrow> listenFlag cmd v as')
      else Inl (FmtError (cmd @ '': unknown flag '' @ Quote a)))"

definition cmd_metrics :: "ext \<Rightarrow> Config \<Rightarrow> string list \<Rightarrow> status hact" where
  "cmd_metrics x cfg args =
     parseA (listenFlag ''metrics'' '':9090'' args) (\<lambda>addr.
     bindA (RefreshGauges cfg) (\<lambda>_.
     bindA (eprintA (''metrics listening on '' @ addr @ ''/metrics'' @ nl)) (\<lambda>_.
       orDie (ServeContext x addr) (\<lambda>_. retA 0))))"

definition cmd_agent :: "ext \<Rightarrow> Config \<Rightarrow> string list \<Rightarrow> status hact" where
  "cmd_agent x cfg args =
     bindA (readA (\<lambda>h. Ret (OptionsFromConfig cfg h))) (\<lambda>opts.
     parseA (listenFlag ''agent'' (a_Listen opts) args) (\<lambda>addr.
       orDie (agent_Run x (opts\<lparr>a_Listen := addr\<rparr>)) (\<lambda>_. retA 0)))"

section \<open>completion.go\<close>

definition completionCommands :: "string list" where
  "completionCommands = [
     ''checkpoint'', ''restore'', ''rollback'', ''promote'', ''gc'', ''metrics'', ''agent'',
     ''serve'', ''freeze'', ''ping'', ''resume'', ''status'', ''watch'', ''bench'', ''diff'',
     ''snapshot'', ''gpu-restore'', ''list'', ''ps'', ''inspect'', ''validate'', ''report'',
     ''stats'', ''health'', ''version'', ''completion'']"

definition bashLines :: "string list" where
  \<open>bashLines = [
     ''# cudackpt bash completion'',
     ''_cudackpt_completions() {'',
     ''  local cur prev'',
     ''  cur="${COMP_WORDS[COMP_CWORD]}"'',
     ''  prev="${COMP_WORDS[COMP_CWORD-1]}"'',
     ''  local commands="'' @ join '' '' completionCommands @ ''"'',
     ''  local flags="--until-running --timeout --listen --dry-run --stop --pin --root --older-than"'',
     ''  if ['' @ ''[ ${COMP_CWORD} -eq 1 ]'' @ '']; then'',
     ''    COMPREPLY=( $(compgen -W "${commands}" -- "${cur}") )'',
     ''    return'',
     ''  fi'',
     ''  case "${prev}" in'',
     ''    completion)'',
     ''      COMPREPLY=( $(compgen -W "bash zsh" -- "${cur}") )'',
     ''      return'',
     ''    *)'',
     ''      COMPREPLY=( $(compgen -W "${flags}" -- "${cur}") )'',
     ''      ;;'',
     ''  esac'',
     ''}'',
     ''complete -F _cudackpt_completions cudackpt'']\<close>

definition zshLines :: "string list" where
  \<open>zshLines = [
     ''#compdef cudackpt'',
     ''_cudackpt() {'',
     ''  local -a commands flags'',
     ''  commands=('' @ join '' '' completionCommands @ '')'',
     ''  flags=(--until-running --timeout --listen --dry-run --stop --pin --root --older-than)'',
     ''  if (( CURRENT == 2 )); then'',
     ''    _describe command commands'',
     ''  elif ['' @ ''[ ${words[2]} == completion ]'' @ '']; then'',
     ''    _describe shell '' @ [CHR 0x27] @ ''bash zsh'' @ [CHR 0x27] @ '''',
     ''  else'',
     ''    _describe flag flags'',
     ''  fi'',
     ''}'',
     ''_cudackpt'']\<close>

definition completionLine :: "string \<Rightarrow> string" where
  "completionLine line = line @ nl"

definition emitCompletion :: "string \<Rightarrow> unit hact" where
  "emitCompletion shell =
     (if shell = ''bash'' then printA (concat (map completionLine bashLines))
      else if shell = ''zsh'' then printA (concat (map completionLine zshLines))
      else errA (FmtError (''unsupported shell '' @ Quote shell @ '' (use bash or zsh)'')))"

definition cmd_completion :: "string list \<Rightarrow> status hact" where
  "cmd_completion args =
     (case args of
        [] \<Rightarrow> die (FmtError ''usage: cudackpt completion bash|zsh'')
      | shell # _ \<Rightarrow> orDie (emitCompletion shell) (\<lambda>_. retA 0))"

section \<open>main\<close>

definition dispatch :: "ext \<Rightarrow> Config \<Rightarrow> Orchestrator \<Rightarrow> string \<Rightarrow> string list \<Rightarrow> status hact" where
  "dispatch x cfg orc cmd args =
     (if cmd = ''checkpoint'' then cmd_checkpoint x orc args
      else if cmd = ''restore'' then cmd_restore x orc args
      else if cmd = ''rollback'' then cmd_rollback x orc args
      else if cmd = ''promote'' then cmd_promote x args
      else if cmd = ''gc'' then cmd_gc cfg args
      else if cmd \<in> {''freeze'', ''ping'', ''resume'', ''status''} then cmd_shim x orc cmd args
      else if cmd = ''watch'' then cmd_watch x cfg orc args
      else if cmd = ''bench'' then cmd_bench x cfg args
      else if cmd = ''diff'' then cmd_diff args
      else if cmd \<in> {''snapshot'', ''gpu-restore''} then cmd_image_of x orc cmd args
      else if cmd = ''list'' then cmd_list cfg args
      else if cmd = ''ps'' then cmd_ps x cfg orc args
      else if cmd = ''inspect'' then cmd_inspect args
      else if cmd = ''validate'' then cmd_validate x args
      else if cmd = ''report'' then cmd_report args
      else if cmd = ''stats'' then cmd_stats x orc args
      else if cmd = ''health'' then cmd_health x cfg args
      else if cmd = ''version'' then println version_String
      else if cmd = ''completion'' then cmd_completion args
      else if cmd = ''serve'' then orDie (runServe x cfg orc) (\<lambda>_. retA 0)
      else if cmd = ''metrics'' then cmd_metrics x cfg args
      else if cmd = ''agent'' then cmd_agent x cfg args
      else usage)"

definition main :: "ext \<Rightarrow> string list \<Rightarrow> status hact" where
  "main x args =
     (case args of
        [] \<Rightarrow> usage
      | cmd # rest \<Rightarrow>
          bindA config_Load (\<lambda>cfg.
          bindA (readA (\<lambda>h. Ret (orc_New x cfg h))) (\<lambda>orc.
            dispatch x cfg orc cmd rest)))"

end
