(* ===== verification/Host_Invariant.thy ===== *)
theory Host_Invariant
  imports Os_Invariant Command
begin

text \<open>
  The same one level up: what every program over the host keeps. The locale
  \<open>host_inv\<close> extends \<open>os_inv\<close> by the other things a host can do (move bytes on a
  connection, let a server answer, print, count, sleep) and \<open>signal_inv\<close> by signals;
  inside them every operation of the orchestrator, the agent and the command line keeps the
  property, provided the parts that are parameters (the \<open>criu\<close> backend, running
  programs) do.
\<close>

section \<open>Servers\<close>

context os_inv
begin

lemma mockSnapshot: "keeps P (mockSnapshot dir)"
  unfolding mockSnapshot_def by (intro rules manifest)

lemma shimSnapshot: "keeps P (shimSnapshot cu dir)"
  unfolding shimSnapshot_def by (intro rules keeps_write_image keeps_shim_fail)

lemma shimRestore: "keeps P (shimRestore cu dir)"
  by (rule keeps_shimRestore) (intro rules)+

lemma mock_step: "serveMockConn st a inp s = Some (v, s') \<Longrightarrow> P s \<Longrightarrow> P s'"
  using keepsD [OF mockSnapshot]
  by (auto simp: serveMockConn_def mockAuth_def mockRequest_def Let_def
      split: if_splits option.splits prod.splits outcome.splits)

lemma shim_step: "handle_client cu st a inp s = Some (v, s') \<Longrightarrow> P s \<Longrightarrow> P s'"
  using handle_client_files [of cu st a inp s v s'] shimSnapshot shimRestore unfolding keeps_def by blast

lemma server_step: "server_step cu srv a inp s = Some (v, s') \<Longrightarrow> P s \<Longrightarrow> P s'"
  by (cases srv) (auto simp: server_step_def dest: mock_step shim_step)

end

section \<open>Writing and printing\<close>

text \<open>What writing to files and printing keep, the log and the restore events keep.\<close>

locale log_inv =
  fixes P :: "host \<Rightarrow> bool"
  assumes written: "keeps P (os_write keep name b)"
    and printed: "P h \<Longrightarrow> P (h\<lparr>h_stdout := x\<rparr>)" "P h \<Longrightarrow> P (h\<lparr>h_stderr := x\<rparr>)"
begin

lemma emit: "keeps P (emit level name err fs)"
  unfolding keeps_def
proof (intro allI impI)
  fix h assume P: "P h"
  have "P h'" if "os_AppendFile p b h = (r, h')" for p b r h'
    using keepsD [OF written P that] .
  then show "P (snd (emit level name err fs h))"
    using P by (auto simp: emit_def Let_def printed split: prod.split)
qed

lemma log: "keeps P (log_Info name fs)" "keeps P (log_Error name err fs)"
  unfolding log_Info_def log_Error_def by (intro emit)+

lemma append: "keeps P (appendRestorePhaseEvent dir phase pid extra)"
  using written by (simp add: keeps_def appendRestorePhaseEvent_def Let_def)

lemma phase: "keeps P (logRestorePhase dir ph pid extra)"
  unfolding logRestorePhase_def by (intro keeps_structure keeps_ignoreA log append)

lemma recordPID: "keeps P (recordRestorePID dir pid)"
  unfolding recordRestorePID_def writeRestoreHandoff_def by (intro keeps_structure written phase)

end

section \<open>The locale\<close>

locale io_inv = os_inv P for P :: "host \<Rightarrow> bool" +
  assumes conns: "P h \<Longrightarrow> P (h\<lparr>conns := cs\<rparr>)"
    and step: "P h \<Longrightarrow> conn_step cu k h = Some h' \<Longrightarrow> P h'"
    and shown: "P h \<Longrightarrow> P (h\<lparr>h_stdout := x\<rparr>)" "P h \<Longrightarrow> P (h\<lparr>h_stderr := x\<rparr>)"
    and sleep: "P h \<Longrightarrow> P (sleepH d h)"

sublocale io_inv \<subseteq> log_inv P
  by unfold_locales (rule WriteFile, (erule shown)+)

context io_inv
begin

lemma pump: "P h \<Longrightarrow> P (pump cu k h)"
proof (induction cu k h rule: pump.induct)
  case (1 cu k h)
  then show ?case by (subst pump.simps) (auto dest: step split: option.splits)
qed

lemma set_conn: "P h \<Longrightarrow> P (set_conn k c h)"
  by (simp add: set_conn_def conns)

lemma conn: "keeps P (conn_Write k b)" "keeps P (conn_ReadFull cu k n)" "keeps P (conn_Close k)"
    "keeps P (net_Dial path)"
  by (auto simp: keeps_def conn_Write_def conn_ReadFull_def conn_Close_def net_Dial_def Let_def
      intro!: set_conn pump conns)

lemma plumbing: "keeps P (doA (sleepH d))" "keeps P (printA s)" "keeps P (eprintA s)"
  by (simp_all add: keeps_def sleep printed)

lemmas irules = rules conn plumbing keeps_deferA keeps_ignoreA manifest sidecars

lemma words: "keeps P (writeU32 k v)" "keeps P (readU32 cu k)" "keeps P (writeStr k s)"
  unfolding writeU32_def readU32_def writeStr_def by (intro irules)+

lemma dial: "keeps P (DialPathWithSecret cu path secret)" "keeps P (client_Close k)"
  unfolding DialPathWithSecret_def authenticate_def client_Close_def by (intro irules words)+

lemma call: "keeps P (call cu k op path)"
  unfolding call_def by (intro irules words)

lemma calls: "keeps P (Ping cu k)" "keeps P (Status cu k)" "keeps P (Freeze cu k)" "keeps P (Snapshot cu k dir)"
    "keeps P (Restore cu k dir)" "keeps P (Resume cu k)" "keeps P (client_Stats cu k)"
  unfolding Ping_def Status_def Freeze_def Snapshot_def Restore_def Resume_def client_Stats_def expect_zero_def
  by (intro irules words call)+

lemma handoff: "keeps P (recordRestorePID dir pid)" "keeps P (readRestoredPID dir)"
    "keeps P (shimSocketReady rd pid)" "keeps P (sortedShims rd)" "keeps P (ListShims rd)" "keeps P (ListImages root)"
    "keeps P (resolveRestorePID dir pid pids)"
  unfolding readRestoredPID_def shimSocketReady_def
    sortedShims_def ListShims_def ListImages_def resolveRestorePID_def
  by (intro irules recordPID)+

lemma verify: "keeps P (verifyImage x dir)"
  unfolding verifyImage_def by (intro irules Ensure)

lemma statAll: "keeps P (statAll dir names)"
  by (induction names) (simp_all only: statAll.simps irules)

lemma images: "keeps P (ValidateImage x dir)" "keeps P (PreflightRestore dir)"
  unfolding ValidateImage_def PreflightRestore_def by (intro irules verify statAll)+

lemma with_client: "(\<And>c. keeps P (m c)) \<Longrightarrow> keeps P (with_client x oc pid m)"
  unfolding with_client_def orc_dial_def by (intro irules dial)

lemma shim: "keeps P (orc_Ping x oc pid)" "keeps P (orc_Status x oc pid)" "keeps P (orc_Stats x oc pid)"
    "keeps P (orc_Freeze x oc pid)" "keeps P (orc_Snapshot x oc pid dir)" "keeps P (orc_GpuRestore x oc pid dir)"
    "keeps P (orc_Resume x oc pid)" "keeps P (tryShimRestore x oc dir pid)"
  unfolding orc_Ping_def orc_Status_def orc_Stats_def orc_Freeze_def orc_Snapshot_def orc_GpuRestore_def
    orc_Resume_def tryShimRestore_def
  by (intro irules with_client calls verify log phase Ensure)+

lemma checkpointBody: "(\<And>pid dir. keeps P (b_Dump (o_criu oc) pid dir)) \<Longrightarrow>
    keeps P (checkpointBody x oc pid opts staging)"
  unfolding checkpointBody_def by (intro irules shim ProcessImage)

lemma doCheckpoint: "(\<And>pid dir. keeps P (b_Dump (o_criu oc) pid dir)) \<Longrightarrow> keeps P (doCheckpoint x oc pid out)"
  unfolding doCheckpoint_def by (intro irules log WriteStaging checkpointBody)

lemma retryLoop: "(\<And>i. keeps P (f i)) \<Longrightarrow> keeps P (retryLoop sleepH n i b f stop)"
proof (induction n arbitrary: i)
  case 0
  then show ?case by (subst retryLoop.simps) (simp only: simp_thms if_True, intro irules)
next
  case (Suc n)
  then show ?case by (subst retryLoop.simps) (intro irules, auto intro!: irules)
qed

end

text \<open>With counting.\<close>

locale host_inv = io_inv +
  assumes metrics: "P h \<Longrightarrow> P (h\<lparr>h_metrics := r\<rparr>)"
begin

lemma metricA: "keeps P (metricA f)"
  by (simp add: keeps_def metrics)

lemmas hrules = irules metricA

lemma checkpoint:
  assumes "\<And>pid dir. keeps P (b_Dump (o_criu oc) pid dir)"
  shows "keeps P (Checkpoint x oc pid out)" "keeps P (CheckpointWithRetry x oc pid out policy)"
    "keeps P (EnqueueCheckpoint x oc pid out)"
  unfolding EnqueueCheckpoint_def Checkpoint_def CheckpointWithRetry_def reportCheckpoint_def applyRetry_def
  by (intro hrules log doCheckpoint retryLoop assms)+

lemma tryCandidates: "keeps P (tryCandidates x oc dir attempt ps)"
proof (induction ps)
  case (Cons p ps)
  show ?case unfolding tryCandidates.simps by (intro hrules handoff shim phase Cons)
qed (simp only: tryCandidates.simps hrules)

lemma restoreRound: "keeps P (restoreRound x oc dir pid attempt)"
  unfolding restoreRound_def orc_sortedShims_def by (intro hrules handoff phase tryCandidates)

lemma restoreLoop: "keeps P (restoreLoop n x oc dir pid deadline attempt)"
proof (induction n arbitrary: attempt)
  case (Suc n)
  show ?case unfolding restoreLoop.simps by (intro hrules restoreRound Suc)
qed (simp only: restoreLoop.simps hrules)

lemma waitForShim: "keeps P (waitForShim x oc dir pid)"
  unfolding waitForShim_def by (intro hrules restoreLoop log phase)

lemma restore:
  assumes "\<And>dir logFile vars. keeps P (b_Restore (o_criu oc) dir logFile vars)"
  shows "keeps P (orc_Restore x oc dir)"
  unfolding orc_Restore_def restoreFail_def restoreEnv_def settlePID_def
  by (intro hrules phase images Ensure log waitForShim handoff assms)

lemma watchLoop: "keeps P (watchLoop n x oc pid iv u dl st prev)"
proof (induction n arbitrary: prev)
  case (Suc n)
  show ?case unfolding watchLoop.simps by (intro hrules shim Suc)
qed (simp only: watchLoop.simps hrules)

lemma watch: "keeps P (WatchShimWith x oc pid iv opts st)"
  unfolding WatchShimWith_def by (intro hrules watchLoop)

subsection \<open>Promotion, agent and reports\<close>

lemma walk:
  assumes "\<And>p i e. keeps P (fn p i e)"
  shows "keeps P (walk n fn path info)" and "keeps P (walkNames n fn path names)"
  using assms
proof (induction n fn path info and n fn path names rule: walk_walkNames.induct)
  case (1 n fn path info)
  then show ?case by (subst walk.simps) (intro hrules, auto)
next
  case (2 n fn path)
  show ?case by (simp only: walkNames.simps hrules)
next
  case (3 n fn path name names)
  then show ?case unfolding walkNames.simps by (intro hrules) auto
qed

lemma promote: "keeps P (orc_Promote x opts)"
  unfolding orc_Promote_def copyDir_def copyVisit_def copyFile_def appendPinnedPath_def Let_def
  by (intro hrules images walk LoadPinnedPaths)

lemma agent: "keeps P (RefreshGauges cfg)" "keeps P (runGC opts)"
  unfolding runGC_def RefreshGauges_def Let_def by (intro hrules handoff RunImageGC log)+

lemma probes:
  assumes "\<And>c bin as. keeps P (x_exec x c bin as)"
  shows "keeps P (ProbeWith x rd)" and "keeps P (DeepProbeWith x rd)"
  unfolding ProbeWith_def DeepProbeWith_def probeCRIU_def probeRunDir_def probeNvidiaDriver_def
    probeCRIUFeatures_def
  by (intro hrules assms)+

lemma agentLoop:
  assumes "\<And>c bin as. keeps P (x_exec x c bin as)"
  shows "keeps P (agentLoop x opts evs out)"
proof (induction evs arbitrary: out)
  case (Cons ev evs)
  have "keeps P (agentStep x opts ev)"
    by (cases ev) (simp_all only: agentStep_def agent_event.case healthHandler_def, (intro hrules agent probes assms)+)
  with Cons show ?case unfolding agentLoop.simps by (intro hrules)
qed (simp only: agentLoop.simps hrules)

lemma serve:
  assumes "\<And>c bin as. keeps P (x_exec x c bin as)"
  shows "keeps P (agent_Run x opts)" and "keeps P (ServeContext x addr)"
  unfolding agent_Run_def ServeContext_def Let_def by (intro hrules agent agentLoop assms)+

lemma reports: "keeps P (InspectImage dir)" "keeps P (RenderImage dir)" "keeps P (CompareImages a b)"
  unfolding InspectImage_def RenderImage_def CompareImages_def showFile_def by (intro hrules)+

lemma dialRun: "keeps P (DialRunDir cu rd pid)"
  unfolding DialRunDir_def DialPath_def by (intro hrules dial)

lemma benchLoops: "keeps P (pingLoop cu rd pid m errs)" "keeps P (statusLoop cu cli m errs)"
proof -
  show "keeps P (pingLoop cu rd pid m errs)"
    by (induction m arbitrary: errs) (simp_all only: pingLoop.simps, (intro hrules dialRun calls dial | assumption)+)
  show "keeps P (statusLoop cu cli m errs)"
    by (induction m arbitrary: errs) (simp_all only: statusLoop.simps, (intro hrules calls | assumption)+)
qed

lemma bench: "keeps P (bench_Ping cu rd pid n)" "keeps P (bench_Status cu rd pid n)"
  unfolding bench_Ping_def bench_Status_def benchResult_def Let_def by (intro hrules dialRun dial benchLoops)+

lemma psLoop: "keeps P (psLoop x oc v pids)"
  by (induction pids) (simp_all only: psLoop.simps, (intro hrules shim | assumption)+)

end

section \<open>Signals and the command line\<close>

text \<open>Only \<open>rollback\<close> signals processes; whatever does not is covered by the first locale.\<close>

locale signal_inv = host_inv +
  assumes procs: "P h \<Longrightarrow> P (h\<lparr>h_procs := ps\<rparr>)"
begin

lemma signals: "keeps P (doA (sigterm pid))" "keeps P (sigkill pid)"
  by (simp_all add: keeps_def sigterm_def sigkill_def procs)

lemma stopLoop: "keeps P (stopLoop n pid deadline)"
  by (induction n) (simp_all only: stopLoop.simps, (intro hrules | assumption)+)

lemma stopProcess: "keeps P (stopProcess pid)"
  unfolding stopProcess_def by (intro hrules signals stopLoop)

lemma rollback:
  assumes "\<And>dir logFile vars. keeps P (b_Restore (o_criu oc) dir logFile vars)"
  shows "keeps P (Rollback x oc dir pid)"
  unfolding Rollback_def Let_def by (intro hrules log stopProcess images restore assms)

lemma ends: "keeps P usage" "keeps P (die err)" "keeps P (println s)"
  unfolding usage_def die_def println_def by (intro hrules)+

lemma orDie: "keeps P m \<Longrightarrow> (\<And>a. keeps P (k a)) \<Longrightarrow> keeps P (orDie m k)"
  unfolding orDie_def by (intro hrules ends)

lemma parseA: "(\<And>a. keeps P (k a)) \<Longrightarrow> keeps P (parseA r k)"
  unfolding parseA_def by (intro hrules ends)

lemmas crules = hrules ends orDie parseA

lemma backend:
  assumes "\<And>c bin as. keeps P (x_exec x c bin as)"
  shows "keeps P (b_Dump (o_criu (orc_New x cfg h)) pid dir)"
    and "keeps P (b_Restore (o_criu (orc_New x cfg h)) dir logFile vars)"
proof -
  have b: "o_criu (orc_New x cfg h) = wrapperBackend (x_exec x) (criu_New h)"
    by (simp add: orc_New_def NewWithCRIU_def)
  have "keeps P (wrapper_Dump (x_exec x) w pid dir)" "keeps P (wrapper_Restore (x_exec x) w dir logFile vars)" for w
    unfolding wrapper_Dump_def wrapper_Restore_def Let_def by (intro hrules assms)+
  then show "keeps P (b_Dump (o_criu (orc_New x cfg h)) pid dir)"
    "keeps P (b_Restore (o_criu (orc_New x cfg h)) dir logFile vars)"
    by (simp_all add: b wrapperBackend_def)
qed

lemma commands:
  assumes "\<And>c bin as. keeps P (x_exec x c bin as)"
    and "\<And>pid dir. keeps P (b_Dump (o_criu orc) pid dir)"
    and "\<And>dir logFile vars. keeps P (b_Restore (o_criu orc) dir logFile vars)"
  shows "keeps P (cmd_checkpoint x orc args)" "keeps P (cmd_restore x orc args)"
    "keeps P (cmd_rollback x orc args)" "keeps P (cmd_promote x args)" "keeps P (cmd_gc cfg args)"
    "keeps P (cmd_shim x orc cmd args)" "keeps P (cmd_watch x cfg orc args)" "keeps P (cmd_bench x cfg args)"
    "keeps P (cmd_diff args)" "keeps P (cmd_image_of x orc cmd args)" "keeps P (cmd_list cfg args)"
    "keeps P (cmd_ps x cfg orc args)" "keeps P (cmd_inspect args)" "keeps P (cmd_validate x args)"
    "keeps P (cmd_report args)" "keeps P (cmd_stats x orc args)" "keeps P (cmd_health x cfg args)"
    "keeps P (runServe x cfg orc)" "keeps P (cmd_metrics x cfg args)" "keeps P (cmd_agent x cfg args)"
    "keeps P (cmd_completion args)"
  unfolding cmd_checkpoint_def cmd_restore_def cmd_rollback_def cmd_promote_def cmd_gc_def cmd_shim_def
    cmd_watch_def cmd_bench_def cmd_diff_def cmd_image_of_def cmd_list_def cmd_ps_def cmd_inspect_def
    cmd_validate_def cmd_report_def cmd_stats_def cmd_health_def runServe_def cmd_metrics_def cmd_agent_def
    cmd_completion_def emitCompletion_def Let_def
  by (intro crules checkpoint restore rollback shim watch promote agent RunImageGC bench reports psLoop probes
      serve handoff images assms)+

lemma dispatch:
  assumes "\<And>c bin as. keeps P (x_exec x c bin as)"
    and "\<And>pid dir. keeps P (b_Dump (o_criu orc) pid dir)"
    and "\<And>dir logFile vars. keeps P (b_Restore (o_criu orc) dir logFile vars)"
  shows "keeps P (dispatch x cfg orc cmd args)"
  unfolding dispatch_def by (intro crules commands [where x = x and orc = orc, OF assms])

lemma main_keeps:
  assumes "\<And>c bin as. keeps P (x_exec x c bin as)"
  shows "keeps P (main x args)"
proof -
  have "keeps P (dispatch x cfg (orc_New x cfg h) cmd as)" for cfg h cmd as
    using dispatch backend assms by blast
  then have run: "keeps P (bindA (readA (\<lambda>h. Ret (orc_New x cfg h))) (\<lambda>orc. dispatch x cfg orc cmd as))" for cfg cmd as
    by (intro keeps_bind_read) auto
  have "keeps P config_Load" unfolding config_Load_def by (intro crules)
  then show ?thesis
    unfolding main_def by (intro keeps_case_list keeps_bindA ends run)
qed

end

section \<open>Interpretations\<close>

lemma conn_step_keeps:
  fixes P :: "host \<Rightarrow> bool"
  assumes "os_inv P" and "\<And>h cs. P h \<Longrightarrow> P (h\<lparr>conns := cs\<rparr>)" and "\<And>h ss. P h \<Longrightarrow> P (h\<lparr>servers := ss\<rparr>)"
    and "P h" and "conn_step cu k h = Some h'"
  shows "P h'"
  using assms(5,4) os_inv.server_step [OF assms(1)]
  by (auto simp: conn_step_def Let_def set_conn_def intro!: assms(2,3) split: if_splits option.splits)

text \<open>A property of what no call on files touches.\<close>

lemma keeps_off:
  assumes "\<And>x. keeps (\<lambda>s. off_disk s = x) m" and "\<And>s s'. off_disk s = off_disk s' \<Longrightarrow> P s = P s'"
  shows "keeps P m"
  unfolding keeps_def
proof (intro allI impI)
  fix s assume "P s"
  moreover have "off_disk (snd (m s)) = off_disk s" using assms(1) by (simp add: keeps_def)
  ultimately show "P (snd (m s))" using assms(2) by blast
qed

lemma off_os_inv:
  assumes "\<And>s s'. off_disk s = off_disk s' \<Longrightarrow> P s = P s'"
  shows "os_inv P"
  by (intro os_inv.intro keeps_off [OF _ assms] off.WriteFile off.MkdirAll off.RemoveAll off.Remove off.Rename)

lemma off_disk_host:
  fixes g h :: host
  assumes "off_disk g = off_disk h"
  shows "clock g = clock h" "env g = env h" "servers g = servers h" "h_procs g = h_procs h"
    "h_arrivals g = h_arrivals h" "h_metrics g = h_metrics h"
  using assms by (cases g; cases h; simp add: off_disk_def)+

lemma node_at_fields [simp]:
  "node_at (h\<lparr>servers := ss\<rparr>) = node_at h" "node_at (h\<lparr>conns := cs\<rparr>) = node_at h"
  by (simp_all add: fun_eq_iff node_at_def)

lemma node_at_clock [simp]: "node_at (s\<lparr>clock := c\<rparr>) = node_at s"
  by (simp add: fun_eq_iff node_at_def)

lemma node_at_host [simp]:
  fixes g :: host
  shows "node_at (g\<lparr>h_stdout := x\<rparr>) = node_at g"
  "node_at (g\<lparr>h_stderr := x\<rparr>) = node_at g" "node_at (g\<lparr>h_metrics := r\<rparr>) = node_at g"
  "node_at (g\<lparr>h_procs := ps\<rparr>) = node_at g" "node_at (g\<lparr>h_arrivals := as\<rparr>) = node_at g"
  by (simp_all add: fun_eq_iff node_at_def)

lemma node_at_sleepA [simp]: "node_at (sleepA d h) = node_at h"
  by (simp add: sleepA_def)

lemma wf_os_cong: "node_at h = node_at g \<Longrightarrow> wf_os h = wf_os g"
  by (simp add: wf_os_def)

lemma wf_os_arrive: "wf_os h \<Longrightarrow> wf_os (arrive h a)"
proof -
  assume wf: "wf_os h"
  obtain t p srv where a: "a = (t, p, srv)" by (cases a)
  show ?thesis
  proof (cases "Suc 0 < length p \<and> node_at h (butlast p) = Some DirN \<and> node_at h p \<noteq> Some DirN")
    case True
    let ?g = "put_node p SockN (h\<lparr>servers := AList.update p srv (servers h)\<rparr>)"
    have n: "node_at ?g q = (if q = p then Some SockN else node_at h q)" for q
      using True node_at_put_node [of p SockN "h\<lparr>servers := AList.update p srv (servers h)\<rparr>" q] by simp
    have "node_at ?g (butlast q) = Some DirN" if "Suc 0 < length q" "node_at ?g q \<noteq> None" for q
    proof (cases "q = p")
      case True
      then show ?thesis using n \<open>Suc 0 < length p \<and> _\<close>
        by (metis append_butlast_last_id butlast.simps(1) length_append_singleton less_not_refl2 n_not_Suc_n)
    next
      case False
      then have "node_at h (butlast q) = Some DirN" using that n wf by (auto simp: wf_os_def split: if_splits)
      then show ?thesis using True n by (auto split: if_splits)
    qed
    then have "wf_os ?g" by (simp add: wf_os_def)
    then show ?thesis using True a by (simp add: arrive_def)
  qed (auto simp: a arrive_def wf)
qed

lemma wf_os_settle: "wf_os h \<Longrightarrow> wf_os (settle h)"
proof -
  have "wf_os g \<Longrightarrow> wf_os (foldl arrive g as)" for g as
    by (induction as arbitrary: g) (simp_all add: wf_os_arrive)
  then show "wf_os h \<Longrightarrow> wf_os (settle h)"
    using wf_os_cong [of "h\<lparr>h_arrivals := _\<rparr>" h] by (simp add: settle_def Let_def)
qed

lemma settle_off [simp]: "clock (settle h) = clock h" "env (settle h) = env h" "h_procs (settle h) = h_procs h"
proof -
  have "clock (foldl arrive g as) = clock g" "env (foldl arrive g as) = env g" "h_procs (foldl arrive g as) = h_procs g" for g as
    by (induction as arbitrary: g) (simp_all add: arrive_def put_node_def split: prod.split)
  then show "clock (settle h) = clock h" "env (settle h) = env h" "h_procs (settle h) = h_procs h" by (simp_all add: settle_def Let_def)
qed

lemma sleepH_clock: "clock (sleepH d h) = clock h + max 0 (sint d)" "h_procs (sleepH d h) = h_procs h"
  by (simp_all add: sleepH_def sleepA_def)

interpretation hwf: signal_inv wf_os
proof (unfold_locales, goal_cases)
  case (2 h cu k h')
  show ?case
    using conn_step_keeps [OF wf.os_inv_axioms _ _ 2] wf_os_cong [OF node_at_fields(1)] wf_os_cong [OF node_at_fields(2)]
    by metis
next
  case (5 h d)
  then show ?case by (simp add: sleepH_def wf_os_settle wf_os_cong [OF node_at_sleepA])
qed (simp_all add: wf_os_def)

text \<open>A property that neither files, connections, servers nor output matter to.\<close>

lemma off_io_inv:
  fixes P :: "host \<Rightarrow> bool"
  assumes "\<And>s s'. off_disk s = off_disk s' \<Longrightarrow> P s = P s'"
    and "\<And>h cs. P (h\<lparr>conns := cs\<rparr>) = P h" and "\<And>h ss. P (h\<lparr>servers := ss\<rparr>) = P h"
    and "\<And>h x. P (h\<lparr>h_stdout := x\<rparr>) = P h" and "\<And>h x. P (h\<lparr>h_stderr := x\<rparr>) = P h"
    and "\<And>h d. P h \<Longrightarrow> P (sleepH d h)"
  shows "io_inv P"
proof (intro io_inv.intro io_inv_axioms.intro)
  show os: "os_inv P" by (rule off_os_inv) (rule assms(1))
  show "P h'" if "P h" and "conn_step cu k h = Some h'" for h h' cu k
    using conn_step_keeps [OF os _ _ that] assms(2,3) by blast
qed (simp_all add: assms(2-6))

lemma off_host_inv:
  fixes Q :: "int \<Rightarrow> (string \<times> string) list \<Rightarrow> (int \<times> proc) list \<Rightarrow> bool"
  assumes "\<And>c e p d. Q c e p \<Longrightarrow> 0 \<le> d \<Longrightarrow> Q (c + d) e p"
  shows "host_inv (\<lambda>h. Q (clock h) (env h) (h_procs h))"
proof -
  let ?P = "\<lambda>h :: host. Q (clock h) (env h) (h_procs h)"
  have off: "?P s = ?P s'" if "off_disk s = off_disk s'" for s s' :: host
    using off_disk_host [OF that] by simp
  have slp: "?P (sleepH d h)" if "?P h" for h d
    using that assms by (simp add: sleepH_def sleepA_def)
  have "io_inv ?P" by (rule off_io_inv, erule off, simp_all, erule slp)
  then show ?thesis by (intro host_inv.intro host_inv_axioms.intro) simp_all
qed

lemma settle_metrics [simp]: "h_metrics (settle h) = h_metrics h"
proof -
  have "h_metrics (foldl arrive g as) = h_metrics g" for g as
    by (induction as arbitrary: g) (simp_all add: arrive_def put_node_def split: prod.split)
  then show ?thesis by (simp add: settle_def Let_def)
qed

interpretation hmetrics: io_inv "\<lambda>h. h_metrics h = r" for r
proof (rule off_io_inv)
  show "(h_metrics s = r) = (h_metrics s' = r)" if "off_disk s = off_disk s'" for s s' :: host
    using off_disk_host [OF that] by simp
qed (simp_all add: sleepH_def sleepA_def)

interpretation hclock: signal_inv "\<lambda>h. c \<le> clock h" for c
  by (intro signal_inv.intro signal_inv_axioms.intro off_host_inv [of "\<lambda>t e ps. c \<le> t"]) simp_all

interpretation henv: signal_inv "\<lambda>h. env h = e" for e
  by (intro signal_inv.intro signal_inv_axioms.intro off_host_inv [of "\<lambda>t e' ps. e' = e"]) simp_all

interpretation hprocs: host_inv "\<lambda>h. h_procs h = ps \<and> c \<le> clock h" for ps c
  by (rule off_host_inv [of "\<lambda>t e ps'. ps' = ps \<and> c \<le> t"]) simp

end
