(* ===== verification/Rpc_Laws.thy ===== *)
theory Rpc_Laws
  imports Rpc_Client
begin

text \<open>
  Requests and replies. The locale \<open>word_server\<close> is the contract both servers offer for
  the operations that answer with one word: a complete request is consumed exactly and
  answered by exactly one word, an incomplete one is waited for. The client's
  \<open>call\<close> is proved against it once; the mock server and the shim are its
  interpretations, one keeping the connection and one closing it.
\<close>

section \<open>What the file system calls leave of the world\<close>

lemma more_put_node [simp]: "os_state.more (put_node p n s) = os_state.more s"
  by (simp add: put_node_def)

lemma more_touch [simp]: "os_state.more (touch p s) = os_state.more s"
  by (simp add: touch_def)

lemma more_pop_fault [simp]: "os_state.more (pop_fault s) = os_state.more s"
  by (simp add: pop_fault_def)

lemma more_store_file [simp]: "os_state.more (store_file p b s) = os_state.more s"
  by (simp add: store_file_def)

lemma more_foldl_mkdir [simp]: "os_state.more (foldl mkdir_step s ps) = os_state.more s"
  by (induction ps arbitrary: s) (simp_all add: mkdir_step_def)

lemma more_trees [simp]:
  "os_state.more (make_dirs p s) = os_state.more s" "os_state.more (remove_tree p s) = os_state.more s"
  "os_state.more (move_tree p q s) = os_state.more s"
  by (simp_all add: make_dirs_def remove_tree_def move_tree_def Let_def touch_def)

definition same_more :: "'m \<Rightarrow> 'm os_state_scheme \<Rightarrow> bool" where
  "same_more m s \<longleftrightarrow> os_state.more s = m"

lemma keeps_more:
  "keeps (same_more m) (os_write keep name b)" "keeps (same_more m) (os_MkdirAll name)"
  "keeps (same_more m) (os_RemoveAll name)" "keeps (same_more m) (os_Remove name)"
  "keeps (same_more m) (os_Rename old new)"
  by (auto simp: keeps_def same_more_def os_write_def os_MkdirAll_def os_RemoveAll_def os_Remove_def
      os_Rename_def Let_def split: outcome.splits fault.splits)

lemmas keeps_more_rules = keeps_rules keeps_wf_os_reads keeps_more

lemma more_world:
  fixes w w' :: "'x world_scheme"
  assumes "os_state.more w' = os_state.more w"
  shows "conns w' = conns w" and "servers w' = servers w"
  using assms by (cases w; cases w'; simp)+

lemma keeps_more_run:
  fixes w w' :: "'x world_scheme"
  assumes "\<And>m. keeps (same_more m) a" and "a w = (r, w')"
  shows "conns w' = conns w" and "servers w' = servers w"
proof -
  have "same_more (os_state.more w) w'"
    using keepsD [OF assms(1) _ assms(2)] by (simp add: same_more_def)
  then show "conns w' = conns w" "servers w' = servers w"
    using more_world [of w' w] by (simp_all add: same_more_def)
qed

lemma keeps_more_mockSnapshot: "keeps (same_more m) (mockSnapshot dir)"
  unfolding mockSnapshot_def WriteManifest_def WriteManifestFlags_def by (intro keeps_more_rules)

lemma keeps_more_shimSnapshot: "keeps (same_more m) (shimSnapshot cu dir)"
  unfolding shimSnapshot_def by (auto intro!: keeps_write_image keeps_shim_fail keeps_more split: sum.split)

lemma keeps_more_shimRestore: "keeps (same_more m) (shimRestore cu dir)"
  by (rule keeps_shimRestore) (rule keeps_more)+

section \<open>Requests\<close>

definition request :: "u32 \<Rightarrow> string \<Rightarrow> bytes" where
  "request op path = word op @
     (if op = OpSnapshot \<or> op = OpRestore then word (word_of_nat (length path)) @ bytes_of path else [])"

definition word_ops :: "u32 set" where
  "word_ops = {OpPing, OpStatus, OpFreeze, OpSnapshot, OpRestore, OpResume}"

lemma length_word [simp]: "length (word v) = 4"
  by (simp add: word_def)

lemma word_neq_Nil [simp]: "word v \<noteq> []"
  by (simp flip: length_0_conv)

lemma be_get_word [simp]: "be_get (word v) = v"
  by (simp add: word_def be_get_put_full)

lemma get_word_word [simp]: "get_word (word v @ r) = Some (v, r)"
  using be32.dec_enc [of v r] by (simp add: get_word_def word_def)

lemma get_word_short: "length inp < 4 \<Longrightarrow> get_word inp = None"
  using be32.dec_short [of inp] by (auto simp: get_word_def is_short_def split: sum.splits)

lemma get_str_str:
  "length s < 2 ^ 32 \<Longrightarrow> get_str (word (word_of_nat (length s)) @ bytes_of s @ r) = Some (s, r)"
  by (simp add: get_str_def unat_of_nat)

lemma cstr_id: "CHR 0x00 \<notin> set s \<Longrightarrow> cstr s = s"
  by (simp add: cstr_def takeWhile_eq_all_conv) metis

lemma read_str_str:
  "length s < 512 \<Longrightarrow> CHR 0x00 \<notin> set s \<Longrightarrow>
   read_str 512 (word (word_of_nat (length s)) @ bytes_of s @ r) = CStr s r"
  by (simp add: read_str_def unat_of_nat cstr_id)

text \<open>A connection the client may call on: nothing in flight, and the server past its
  authentication.\<close>

fun admits :: "server \<Rightarrow> bool \<Rightarrow> bool" where
  "admits (Mock st) authed \<longleftrightarrow> mk_secret st = [] \<or> authed"
| "admits (Shim st) authed \<longleftrightarrow> sh_secret st = [] \<or> authed"

definition synced :: "Client \<Rightarrow> server \<Rightarrow> 'x world_scheme \<Rightarrow> bool" where
  "synced k srv w \<longleftrightarrow> k < length (conns w) \<and>
     (let c = conns w ! k in \<not> c_closed c \<and> c_in c = [] \<and> c_out c = [] \<and>
        server_at w (c_srv c) = Some srv \<and> admits srv (c_authed c))"

lemma set_conn_simps [simp]:
  "k < length (conns w) \<Longrightarrow> conns (set_conn k c w) ! k = c"
  "length (conns (set_conn k c w)) = length (conns w)" "servers (set_conn k c w) = servers w"
  "server_at (set_conn k c w) p = server_at w p" "set_conn k c (set_conn k d w) = set_conn k c w"
  by (simp_all add: set_conn_def server_at_def)

text \<open>Loading the request into the connection.\<close>

definition loaded :: "Client \<Rightarrow> bytes \<Rightarrow> 'x world_scheme \<Rightarrow> 'x world_scheme" where
  "loaded k b w = set_conn k ((conns w ! k)\<lparr>c_in := b\<rparr>) w"

lemma conn_update_order:
  "(c :: conn)\<lparr>c_closed := b, c_out := x\<rparr> = c\<lparr>c_out := x, c_closed := b\<rparr>"
  "(c :: conn)\<lparr>c_out := x, c_in := y\<rparr> = c\<lparr>c_in := y, c_out := x\<rparr>"
  "(c :: conn)\<lparr>c_closed := b, c_in := y\<rparr> = c\<lparr>c_in := y, c_closed := b\<rparr>"
  by simp_all

lemma loaded_simps [simp]:
  "k < length (conns w) \<Longrightarrow> conns (loaded k b w) ! k = (conns w ! k)\<lparr>c_in := b\<rparr>"
  "length (conns (loaded k b w)) = length (conns w)" "servers (loaded k b w) = servers w"
  "server_at (loaded k b w) p = server_at w p"
  by (simp_all add: loaded_def)

lemma call_write_open:
  assumes "k < length (conns w)" and "\<not> c_closed (conns w ! k)" and "c_in (conns w ! k) = []"
  shows "call cu k op path w = readU32 cu k (loaded k (request op path) w)"
proof -
  have w1: "conn_Write k b w = (Ret (), loaded k b w)" for b
    using assms by (simp add: conn_Write_def Let_def loaded_def)
  have w2: "conn_Write k b (loaded k a w) = (Ret (), loaded k (a @ b) w)" for a b
    using assms by (simp add: conn_Write_def Let_def loaded_def)
  show ?thesis
    by (cases "path = []") (simp_all add: call_def writeU32_def writeStr_def bindA_step w1 w2 request_def word_def)
qed

lemma call_write: "synced k srv w \<Longrightarrow> call cu k op path w = readU32 cu k (loaded k (request op path) w)"
  by (rule call_write_open) (simp_all add: synced_def Let_def)

section \<open>One round of the server\<close>

text \<open>When the server's next round takes all the input and leaves it idle, waiting for a reply
  runs exactly that round.\<close>

lemma pump_once:
  fixes w w1 :: "'x world_scheme"
  assumes k: "k < length (conns w)" and opn: "\<not> c_closed (conns w ! k)" and b: "b \<noteq> []"
    and at: "server_at w (c_srv (conns w ! k)) = Some srv"
    and step: "server_step cu srv (c_authed (conns w ! k)) b (loaded k b w) = Some ((srv', au, [], out, cl), w1)"
    and fr: "conns w1 = conns (loaded k b w)" "servers w1 = servers w"
    and idle: "\<And>w :: 'x world_scheme. \<not> cl \<Longrightarrow> server_step cu srv' au [] w = None"
  shows "pump cu k (loaded k b w) =
    set_conn k ((conns w ! k)\<lparr>c_authed := au, c_in := [], c_out := c_out (conns w ! k) @ out, c_closed := cl\<rparr>)
       (w1\<lparr>servers := AList.update (c_srv (conns w ! k)) srv' (servers w)\<rparr>)"
    (is "_ = ?w2")
proof -
  let ?w0 = "loaded k b w" and ?c = "conns w ! k"
  have kl: "k < length (conns w1)" using fr k by simp
  have st: "conn_step cu k ?w0 = Some ?w2"
    using k opn at step fr by (simp add: conn_step_def Let_def)
  have c2: "conns ?w2 ! k = ?c\<lparr>c_authed := au, c_in := [], c_out := c_out ?c @ out, c_closed := cl\<rparr>"
    using kl by (simp add: set_conn_def)
  have "server_at ?w2 (c_srv ?c) = Some srv'"
    by (simp add: server_at_def update_conv)
  then have "conn_step cu k ?w2 = None"
    using idle by (simp add: conn_step_def Let_def c2)
  then have "pump cu k ?w2 = ?w2" by (simp add: pump.simps)
  then show ?thesis
    unfolding pump.simps [of cu k ?w0] st using k c2 b by simp
qed

section \<open>The contract of a server\<close>

locale word_server =
  fixes cu :: cuda
    and live :: "server \<Rightarrow> bool"
    and ok :: "string \<Rightarrow> bool"
    and answer :: "server \<Rightarrow> u32 \<Rightarrow> string \<Rightarrow> 'x world_scheme \<Rightarrow> u32 \<times> bool \<times> server \<times> 'x world_scheme"
  assumes serve: "live srv \<Longrightarrow> admits srv a \<Longrightarrow> op \<in> word_ops \<Longrightarrow> ok path \<Longrightarrow>
      answer srv op path w = (v, cl, srv', w') \<Longrightarrow>
      server_step cu srv a (request op path @ r) w = Some ((srv', True, r, word v, cl), w')"
    and wait: "live srv \<Longrightarrow> length inp < 4 \<Longrightarrow> server_step cu srv a inp w = None"
    and frame: "live srv \<Longrightarrow> answer srv op path w = (v, cl, srv', w') \<Longrightarrow>
      live srv' \<and> admits srv' True \<and> conns w' = conns w \<and> servers w' = servers w"
begin

definition after :: "Client \<Rightarrow> bool \<Rightarrow> server \<Rightarrow> 'x world_scheme \<Rightarrow> 'x world_scheme \<Rightarrow> 'x world_scheme" where
  "after k cl srv' w w1 =
     set_conn k ((conns w ! k)\<lparr>c_authed := True, c_in := [], c_out := [], c_closed := cl\<rparr>)
       (w1\<lparr>servers := AList.update (c_srv (conns w ! k)) srv' (servers w)\<rparr>)"

lemma pump_call:
  assumes syn: "synced k srv w" and live: "live srv" and op: "op \<in> word_ops" and path: "ok path"
    and ans: "answer srv op path (loaded k (request op path) w) = (v, cl, srv', w1)"
  shows "pump cu k (loaded k (request op path) w) =
    set_conn k ((conns w ! k)\<lparr>c_authed := True, c_in := [], c_out := word v, c_closed := cl\<rparr>)
       (w1\<lparr>servers := AList.update (c_srv (conns w ! k)) srv' (servers w)\<rparr>)"
    (is "_ = ?w2")
proof -
  let ?w0 = "loaded k (request op path) w" and ?c = "conns w ! k"
  have k: "k < length (conns w)" "\<not> c_closed ?c" "c_out ?c = []" "server_at w (c_srv ?c) = Some srv"
    "admits srv (c_authed ?c)"
    using syn by (simp_all add: synced_def Let_def)
  have fr: "live srv'" "conns w1 = conns ?w0" "servers w1 = servers w"
    using frame [OF live ans] by simp_all
  have step: "server_step cu srv (c_authed ?c) (request op path) ?w0 = Some ((srv', True, [], word v, cl), w1)"
    using serve [OF live k(5) op path ans, of "[]"] by simp
  have "request op path \<noteq> []" by (simp add: request_def)
  from pump_once [OF k(1,2) this k(4) step fr(2,3)] wait [OF fr(1)] k(3) show ?thesis by simp
qed

lemma call_answer:
  assumes syn: "synced k srv w" and live: "live srv" and op: "op \<in> word_ops" and path: "ok path"
    and ans: "answer srv op path (loaded k (request op path) w) = (v, cl, srv', w1)"
  shows "call cu k op path w = (Ret v, after k cl srv' w w1)"
    and "\<not> cl \<Longrightarrow> synced k srv' (after k cl srv' w w1)"
    and "cl \<Longrightarrow> c_closed (conns (after k cl srv' w w1) ! k)"
    and "live srv'"
proof -
  let ?w0 = "loaded k (request op path) w" and ?c = "conns w ! k"
  have k: "k < length (conns w)" "c_out ?c = []" using syn by (simp_all add: synced_def Let_def)
  have fr: "live srv'" "admits srv' True" "conns w1 = conns ?w0" using frame [OF live ans] by simp_all
  have kl: "k < length (conns w1)" using fr k by simp
  let ?w2 = "set_conn k (?c\<lparr>c_authed := True, c_in := [], c_out := word v, c_closed := cl\<rparr>)
       (w1\<lparr>servers := AList.update (c_srv ?c) srv' (servers w)\<rparr>)"
  have "conns ?w2 ! k = ?c\<lparr>c_authed := True, c_in := [], c_out := word v, c_closed := cl\<rparr>"
    using kl by (simp add: set_conn_def)
  then have "conn_ReadFull cu k 4 ?w0 = (Ret (word v), after k cl srv' w w1)"
    using pump_call [OF syn live op path ans] k by (simp add: conn_ReadFull_def Let_def after_def conn_update_order)
  then show "call cu k op path w = (Ret v, after k cl srv' w w1)"
    by (simp add: call_write [OF syn] readU32_def bindA_step)
  have c2: "conns (after k cl srv' w w1) ! k =
      ?c\<lparr>c_authed := True, c_in := [], c_out := [], c_closed := cl\<rparr>"
    using kl by (simp add: after_def set_conn_def)
  show "\<not> cl \<Longrightarrow> synced k srv' (after k cl srv' w w1)"
    using kl fr by (simp add: synced_def Let_def c2) (simp add: after_def server_at_def update_conv)
  show "cl \<Longrightarrow> c_closed (conns (after k cl srv' w w1) ! k)" using c2 by simp
  show "live srv'" by (rule fr(1))
qed

end

text \<open>A call on a connection the server has closed fails at the first write.\<close>

lemma call_closed:
  "c_closed (conns w ! k) \<Longrightarrow> call cu k op path w = (Err (FmtError ''write unix: broken pipe''), w)"
  by (simp add: call_def writeU32_def conn_Write_def Let_def bindA_step)

section \<open>The mock server\<close>

fun is_mock :: "server \<Rightarrow> bool" where
  "is_mock (Mock st) = True"
| "is_mock (Shim st) = False"

definition short_path :: "string \<Rightarrow> bool" where
  "short_path p \<longleftrightarrow> length p < 2 ^ 32"

text \<open>What the mock answers, as a function of its state: the specification of its handler.\<close>

definition mock_answer :: "server \<Rightarrow> u32 \<Rightarrow> string \<Rightarrow> 'x os_state_scheme \<Rightarrow> u32 \<times> bool \<times> server \<times> 'x os_state_scheme" where
  "mock_answer srv op path s =
     (case srv of Shim _ \<Rightarrow> (0, False, srv, s) | Mock st \<Rightarrow>
        if op = OpFreeze \<and> 0 < mk_failFreezeUntil st
          then (1, False, Mock (st\<lparr>mk_failFreezeUntil := mk_failFreezeUntil st - 1\<rparr>), s)
        else if op = OpStatus then (fst (mockStatus st), False, Mock (snd (mockStatus st)), s)
        else if op = OpSnapshot \<and> path \<noteq> [] then
          (if \<exists>u. fst (mockSnapshot path s) = Ret u then (0, False, srv, snd (mockSnapshot path s))
           else (1, True, srv, snd (mockSnapshot path s)))
        else (0, False, srv, s))"

lemma mockStatus_secret [simp]: "mk_secret (snd (mockStatus st)) = mk_secret st"
  by (simp add: mockStatus_def Let_def)

interpretation mock: word_server cu is_mock short_path mock_answer for cu
proof
  fix srv srv' :: server and w w' :: "'x world_scheme" and a :: bool and op v :: u32
    and path :: string and cl :: bool and r inp :: bytes
  assume live: "is_mock srv"
  then obtain st where srv: "srv = Mock st" by (cases srv) simp_all
  show "server_step cu srv a inp w = None" if "length inp < 4"
    using that get_word_short [of inp]
    by (simp add: srv server_step_def serveMockConn_def mockAuth_def mockRequest_def)
  {
    assume ans: "mock_answer srv op path w = (v, cl, srv', w')"
    have snap: "conns (snd (mockSnapshot path w)) = conns w" "servers (snd (mockSnapshot path w)) = servers w"
      using keeps_more_run [OF keeps_more_mockSnapshot, of path w] by (metis prod.collapse)+
    show "is_mock srv' \<and> admits srv' True \<and> conns w' = conns w \<and> servers w' = servers w"
      using ans snap by (auto simp: srv mock_answer_def split: if_splits)
    assume adm: "admits srv a" and op: "op \<in> word_ops" and path: "short_path path"
    have "mockRequest st (request op path @ r) w = map_option (\<lambda>((s', x), w'). ((st', x), w'))
        (Some ((srv', True, r, word v, cl), w'))" if "srv' = Mock st'" for st'
      using op ans that path get_str_str [of path r]
      by (auto simp: word_ops_def srv mock_answer_def mockRequest_def request_def op_defs short_path_def
          Let_def split: prod.splits outcome.splits if_splits)
    moreover obtain st' where "srv' = Mock st'"
      using ans by (auto simp: srv mock_answer_def split: if_splits)
    moreover have "serveMockConn st a (request op path @ r) w = mockRequest st (request op path @ r) w"
      using adm by (auto simp: srv serveMockConn_def)
    ultimately show "server_step cu srv a (request op path @ r) w = Some ((srv', True, r, word v, cl), w')"
      by (simp add: srv server_step_def)
  }
qed

section \<open>The shim\<close>

fun is_shim :: "server \<Rightarrow> bool" where
  "is_shim (Mock st) = False"
| "is_shim (Shim st) = True"

text \<open>A path that fits the shim's buffer and is a C string.\<close>

definition c_path_ok :: "string \<Rightarrow> bool" where
  "c_path_ok p \<longleftrightarrow> length p < 512 \<and> CHR 0x00 \<notin> set p"

definition shim_answer :: "cuda \<Rightarrow> server \<Rightarrow> u32 \<Rightarrow> string \<Rightarrow> 'x os_state_scheme
    \<Rightarrow> u32 \<times> bool \<times> server \<times> 'x os_state_scheme" where
  "shim_answer cu srv op path s =
     (case srv of Mock _ \<Rightarrow> (0, True, srv, s) | Shim st \<Rightarrow>
        if op = OpStatus then (phase_num (sh_state st), True, srv, s)
        else if op = OpFreeze then
          (if cu_quiesce cu then (0, True, Shim (st\<lparr>sh_state := ST_FROZEN\<rparr>), s) else (1, True, srv, s))
        else if op = OpSnapshot then
          (if \<exists>u. fst (shimSnapshot cu path s) = Ret u
           then (0, True, Shim (st\<lparr>sh_state := ST_SNAPPED\<rparr>), snd (shimSnapshot cu path s))
           else (1, True, srv, snd (shimSnapshot cu path s)))
        else if op = OpRestore then
          (if \<exists>u. fst (shimRestore cu path s) = Ret u
           then (0, True, Shim (st\<lparr>sh_state := ST_RESTORED\<rparr>), snd (shimRestore cu path s))
           else (1, True, srv, snd (shimRestore cu path s)))
        else if op = OpResume then (0, True, Shim (st\<lparr>sh_state := ST_RUNNING\<rparr>), s)
        else (0, True, srv, s))"

interpretation shim: word_server cu is_shim c_path_ok "shim_answer cu" for cu
proof
  fix srv srv' :: server and w w' :: "'x world_scheme" and a :: bool and op v :: u32
    and path :: string and cl :: bool and r inp :: bytes
  assume live: "is_shim srv"
  then obtain st where srv: "srv = Shim st" by (cases srv) simp_all
  show "server_step cu srv a inp w = None" if "length inp < 4"
    using that get_word_short [of inp]
    by (simp add: srv server_step_def handle_client_def require_auth_def handle_request_def)
  {
    assume ans: "shim_answer cu srv op path w = (v, cl, srv', w')"
    have snap: "conns (snd (shimSnapshot cu path w)) = conns w" "servers (snd (shimSnapshot cu path w)) = servers w"
      using keeps_more_run [OF keeps_more_shimSnapshot, of cu path w] by (metis prod.collapse)+
    have rest: "conns (snd (shimRestore cu path w)) = conns w" "servers (snd (shimRestore cu path w)) = servers w"
      using keeps_more_run [OF keeps_more_shimRestore, of cu path w] by (metis prod.collapse)+
    show "is_shim srv' \<and> admits srv' True \<and> conns w' = conns w \<and> servers w' = servers w"
      using ans snap rest by (auto simp: srv shim_answer_def split: if_splits)
    assume adm: "admits srv a" and op: "op \<in> word_ops" and path: "c_path_ok path"
    have "handle_request cu st (request op path @ r) w = map_option (\<lambda>((s', x), w'). ((st', x), w'))
        (Some ((srv', True, r, word v, cl), w'))" if "srv' = Shim st'" for st'
      using op ans that path read_str_str [of path r]
      by (auto simp: word_ops_def srv shim_answer_def handle_request_def request_def op_defs c_path_ok_def
          Let_def split: prod.splits outcome.splits if_splits)
    moreover obtain st' where "srv' = Shim st'"
      using ans by (auto simp: srv shim_answer_def split: if_splits)
    moreover have "handle_client cu st a (request op path @ r) w = handle_request cu st (request op path @ r) w"
      using adm by (auto simp: srv handle_client_def)
    ultimately show "server_step cu srv a (request op path @ r) w = Some ((srv', True, r, word v, cl), w')"
      by (simp add: srv server_step_def)
  }
qed

lemma shim_answer_closes: "is_shim srv \<Longrightarrow> shim_answer cu srv op path w = (v, cl, srv', w') \<Longrightarrow> cl"
  by (cases srv) (auto simp: shim_answer_def split: if_splits)

end
