(* ===== verification/Rpc_Dial.thy ===== *)
theory Rpc_Dial
  imports Rpc_Laws
begin

text \<open>
  Dialling with a secret: what the client writes before its first call, the one round the
  server makes on it, and the state a dial leaves. The two servers differ only in that round,
  so a dial is computed once (\<open>dial_reply\<close>) for any server whose first round is known.
\<close>

section \<open>The authentication request\<close>

definition auth_request :: "string \<Rightarrow> bytes" where
  "auth_request secret = word OpAuth @ word (word_of_nat (length secret)) @ bytes_of secret"

lemma authenticate_read:
  assumes "k < length (conns w)" and "\<not> c_closed (conns w ! k)" and "c_in (conns w ! k) = []"
    and "secret \<noteq> []"
  shows "authenticate cu k secret w = bindA (readU32 cu k)
    (\<lambda>rc. if rc \<noteq> 0 then errA (rc_error ''auth'' rc) else retA ()) (loaded k (auth_request secret) w)"
proof -
  have w1: "conn_Write k b w = (Ret (), loaded k b w)" for b
    using assms by (simp add: conn_Write_def Let_def loaded_def)
  have w2: "conn_Write k b (loaded k a w) = (Ret (), loaded k (a @ b) w)" for a b
    using assms by (simp add: conn_Write_def Let_def loaded_def)
  show ?thesis
    using assms(4)
    by (simp add: authenticate_def writeU32_def writeStr_def bindA_step w1 w2 auth_request_def word_def)
qed

lemma mockAuth_request:
  assumes "length secret < 2 ^ 32"
  shows "mockAuth st (auth_request secret) s = Some ((st, secret = mk_secret st, [],
    word (if secret = mk_secret st then 0 else 1), secret \<noteq> mk_secret st), s)"
  using get_str_str [OF assms, of "[]"] by (simp add: mockAuth_def auth_request_def)

section \<open>A first round that leaves the world as it is\<close>

lemma AList_update_same: "map_of l p = Some v \<Longrightarrow> AList.update p v l = l"
  by (induction l) (auto split: if_splits)

text \<open>The connection a dial opens, after a round.\<close>

definition fresh :: "path \<Rightarrow> conn" where
  "fresh p = \<lparr>c_srv = p, c_authed = False, c_in = [], c_out = [], c_closed = False\<rparr>"

definition dialled :: "path \<Rightarrow> bool \<Rightarrow> bytes \<Rightarrow> bool \<Rightarrow> 'x world_scheme \<Rightarrow> 'x world_scheme" where
  "dialled p au r cl w = w\<lparr>conns := conns w @ [\<lparr>c_srv = p, c_authed = au, c_in = r, c_out = [], c_closed = cl\<rparr>]\<rparr>"

lemma dialled_simps [simp]:
  "conns (dialled p au r cl w) ! length (conns w) = \<lparr>c_srv = p, c_authed = au, c_in = r, c_out = [], c_closed = cl\<rparr>"
  "length (conns (dialled p au r cl w)) = Suc (length (conns w))" "servers (dialled p au r cl w) = servers w"
  "server_at (dialled p au r cl w) q = server_at w q"
  by (simp_all add: dialled_def server_at_def)

lemma net_Dial_fresh:
  assumes "node_at w (path_of path) = Some SockN" and "server_at w (path_of path) \<noteq> None"
  shows "net_Dial path w = (Ret (length (conns w)), dialled (path_of path) False [] False w)"
  using assms by (simp add: net_Dial_def dialled_def)

text \<open>A reply of one word to what was written on a fresh connection.\<close>

lemma first_reply:
  fixes w :: "'x world_scheme"
  assumes at: "server_at w p = Some srv" and b: "b \<noteq> []"
    and step: "server_step cu srv False b (loaded (length (conns w)) b (dialled p False [] False w)) =
      Some ((srv, au, r, word v, cl), loaded (length (conns w)) b (dialled p False [] False w))"
    and rest: "cl \<or> (r = [] \<and> (\<forall>w :: 'x world_scheme. server_step cu srv au [] w = None))"
  shows "readU32 cu (length (conns w)) (loaded (length (conns w)) b (dialled p False [] False w)) =
    (Ret v, dialled p au r cl w)"
proof -
  let ?k = "length (conns w)" and ?w0 = "loaded (length (conns w)) b (dialled p False [] False w)"
  let ?c = "\<lparr>c_srv = p, c_authed = au, c_in = r, c_out = word v, c_closed = cl\<rparr>"
  let ?w2 = "w\<lparr>conns := conns w @ [?c]\<rparr>"
  have up: "AList.update p srv (servers w) = servers w"
    using at by (intro AList_update_same) (simp add: server_at_def)
  have st: "conn_step cu ?k ?w0 = Some ?w2"
    using at step up by (simp add: conn_step_def Let_def loaded_def set_conn_def dialled_def server_at_def)
  have "conn_step cu ?k ?w2 = None"
    using rest at by (auto simp: conn_step_def server_at_def Let_def)
  then have "pump cu ?k ?w2 = ?w2" by (simp add: pump.simps)
  then have pumped: "pump cu ?k ?w0 = ?w2" unfolding pump.simps [of cu ?k ?w0] st by simp
  have "c_out (conns ?w0 ! ?k) = []" by (simp add: loaded_def set_conn_def dialled_def)
  then show ?thesis
    using pumped by (simp add: readU32_def conn_ReadFull_def Let_def bindA_def set_conn_def dialled_def)
qed

lemma dial_reply:
  fixes w :: "'x world_scheme"
  assumes sock: "node_at w (path_of path) = Some SockN" and at: "server_at w (path_of path) = Some srv"
    and secret: "secret \<noteq> []"
    and step: "\<And>u :: 'x world_scheme. server_step cu srv False (auth_request secret) u = Some ((srv, au, r, word v, cl), u)"
    and rest: "cl \<or> (r = [] \<and> (\<forall>w :: 'x world_scheme. server_step cu srv au [] w = None))"
  shows "DialPathWithSecret cu path secret w =
    (if v = 0 then Ret (length (conns w)) else Err (rc_error ''auth'' v), dialled (path_of path) au r (cl \<or> v \<noteq> 0) w)"
proof -
  let ?k = "length (conns w)" and ?d = "dialled (path_of path) False [] False w"
  have b: "auth_request secret \<noteq> []" by (simp add: auth_request_def)
  have "authenticate cu ?k secret ?d =
      (if v = 0 then Ret () else Err (rc_error ''auth'' v), dialled (path_of path) au r cl w)"
    using authenticate_read [of ?k ?d secret cu] secret first_reply [OF at b step rest] by (simp add: bindA_step)
  then show ?thesis
    using net_Dial_fresh [OF sock] at
    by (cases "v = 0")
      (simp_all add: DialPathWithSecret_def bindA_step tryA_step conn_Close_def set_conn_def dialled_def)
qed

section \<open>Without a secret\<close>

lemma dial_open:
  assumes "node_at w (path_of path) = Some SockN" and "server_at w (path_of path) \<noteq> None"
  shows "DialPathWithSecret cu path [] w = (Ret (length (conns w)), dialled (path_of path) False [] False w)"
  by (simp add: DialPathWithSecret_def authenticate_def bindA_step tryA_step net_Dial_fresh [OF assms])

lemma synced_dialled:
  assumes "server_at w p = Some srv" and "admits srv au"
  shows "synced (length (conns w)) srv (dialled p au [] False w)"
  using assms by (simp add: synced_def Let_def)

section \<open>The mock server\<close>

lemma dial_mock:
  fixes w :: "'x world_scheme"
  assumes "node_at w (path_of path) = Some SockN" and "server_at w (path_of path) = Some (Mock st)"
    and "mk_secret st \<noteq> []" and "secret \<noteq> []" and "length secret < 2 ^ 32"
  shows "DialPathWithSecret cu path secret w =
    (if secret = mk_secret st then Ret (length (conns w)) else Err (rc_error ''auth'' 1),
     dialled (path_of path) (secret = mk_secret st) [] (secret \<noteq> mk_secret st) w)"
proof -
  have "server_step cu (Mock st) False (auth_request secret) u =
      Some ((Mock st, secret = mk_secret st, [], word (if secret = mk_secret st then 0 else 1), secret \<noteq> mk_secret st), u)"
    for u :: "'x world_scheme"
    using assms(3) by (simp add: server_step_def serveMockConn_def mockAuth_request [OF assms(5)] split del: if_split)
  moreover have "\<forall>u :: 'x world_scheme. server_step cu (Mock st) au [] u = None" for au
    by (simp add: mock.wait)
  ultimately show ?thesis using dial_reply [OF assms(1,2,4)] by auto
qed

section \<open>The shim\<close>

text \<open>A shim that lets a client in is at the start of its one request, with nothing left over.\<close>

lemma shim_auth:
  fixes u :: "'x world_scheme"
  assumes "length secret < 2 ^ 32"
  obtains v au r cl where
    "\<And>u :: 'x world_scheme. server_step cu (Shim st) False (auth_request secret) u = Some ((Shim st, au, r, word v, cl), u)"
    and "if v = 0 then au \<and> r = [] \<and> \<not> cl else cl"
proof (cases "sh_secret st = []")
  case True
  then show ?thesis
    by (intro that [of True _ 1 True])
      (simp_all add: server_step_def handle_client_def handle_request_def auth_request_def op_defs)
next
  case False
  have step: "server_step cu (Shim st) False (auth_request secret) u =
      map_option (\<lambda>((st', y), s'). ((Shim st', y), s')) (require_auth st (auth_request secret) u)" for u :: "'x world_scheme"
    using False by (simp add: server_step_def handle_client_def)
  have len: "unat (word_of_nat (length secret) :: u32) = length secret"
    using assms by (simp add: unat_of_nat)
  consider "512 \<le> length secret" | "length secret < 512" "secrets_match (sh_secret st) (cstr secret)"
    | "length secret < 512" "\<not> secrets_match (sh_secret st) (cstr secret)"
    by linarith
  then show ?thesis
  proof cases
    case 1
    then have "read_str 512 (word (word_of_nat (length secret)) @ bytes_of secret) = CBad (bytes_of secret)"
      using len by (simp add: read_str_def)
    then show ?thesis
      by (intro that [of False "bytes_of secret" 1 True]) (simp_all only: step, simp_all add: require_auth_def auth_request_def)
  next
    case 2
    then have "read_str 512 (word (word_of_nat (length secret)) @ bytes_of secret) = CStr (cstr secret) []"
      using len by (simp add: read_str_def read_full_def)
    then show ?thesis using 2
      by (intro that [of True "[]" 0 False]) (simp_all only: step, simp_all add: require_auth_def auth_request_def)
  next
    case 3
    then have "read_str 512 (word (word_of_nat (length secret)) @ bytes_of secret) = CStr (cstr secret) []"
      using len by (simp add: read_str_def read_full_def)
    then show ?thesis using 3
      by (intro that [of False "[]" 1 True]) (simp_all only: step, simp_all add: require_auth_def auth_request_def)
  qed
qed

lemma dial_shim:
  fixes w w' :: "'x world_scheme"
  assumes sock: "node_at w (path_of path) = Some SockN" and at: "server_at w (path_of path) = Some (Shim st)"
    and len: "length secret < 2 ^ 32" and ok: "DialPathWithSecret cu path secret w = (Ret k, w')"
  shows "k = length (conns w) \<and> w' = dialled (path_of path) (secret \<noteq> []) [] False w"
proof (cases "secret = []")
  case True
  then show ?thesis using ok at by (simp add: dial_open [OF sock])
next
  case False
  obtain v au r cl where st: "\<And>u :: 'x world_scheme. server_step cu (Shim st) False (auth_request secret) u =
      Some ((Shim st, au, r, word v, cl), u)" and fin: "if v = 0 then au \<and> r = [] \<and> \<not> cl else cl"
    using shim_auth [OF len, of cu st] by metis
  have "\<forall>u :: 'x world_scheme. server_step cu (Shim st) au [] u = None"
    by (simp add: shim.wait)
  then show ?thesis
    using ok False fin dial_reply [OF sock at False st] by (auto split: if_splits)
qed

section \<open>One request per connection\<close>

lemma DialPathWithSecret_Ret:
  assumes "DialPathWithSecret cu path secret w = (Ret k, w')"
  shows "node_at w (path_of path) = Some SockN" and "server_at w (path_of path) \<noteq> None"
  using assms by (auto simp: DialPathWithSecret_def net_Dial_def bindA_def split: if_splits)

text \<open>After a successful ping the shim has closed the connection, so the next call fails.\<close>

lemma shim_ping_closes:
  assumes "DialPathWithSecret cu path secret w = (Ret k, w1)" and "server_at w (path_of path) = Some (Shim st)"
    and "length secret < 2 ^ 32" and "Ping cu k w1 = (Ret (), w2)"
  shows "c_closed (conns w2 ! k)"
proof -
  let ?p = "path_of path" and ?au = "secret \<noteq> []"
  have k: "k = length (conns w)" and w1: "w1 = dialled ?p ?au [] False w"
    using dial_shim [OF DialPathWithSecret_Ret(1) [OF assms(1)] assms(2,3,1)] by simp_all
  obtain v where call: "call cu k OpPing [] w1 = (Ret v, w2)" and v: "v = 0"
    using assms(4) by (auto simp: Ping_def expect_zero_def elim!: bindA_RetE split: if_splits)
  show ?thesis
  proof (cases "admits (Shim st) ?au")
    case True
    have syn: "synced k (Shim st) w1" using synced_dialled [OF assms(2) True] k w1 by simp
    obtain u cl srv' t where ans: "shim_answer cu (Shim st) OpPing [] (loaded k (request OpPing []) w1) = (u, cl, srv', t)"
      by (metis prod_cases4)
    have "OpPing \<in> word_ops" "c_path_ok []" "is_shim (Shim st)" by (simp_all add: word_ops_def c_path_ok_def)
    from shim.call_answer(1,3) [OF syn this(3,1,2) ans] shim_answer_closes [OF this(3) ans] call show ?thesis by simp
  next
    case False
    then have st: "sh_secret st \<noteq> []" and "secret = []" by simp_all
    have b: "request OpPing [] = word OpPing" by (simp add: request_def op_defs)
    have "server_step cu (Shim st) False (word OpPing) u = Some ((Shim st, False, [], word 2, True), u)" for u :: "'a world_scheme"
      using st get_word_word [of OpPing "[]"]
      by (simp add: server_step_def handle_client_def require_auth_def op_defs)
    from first_reply [OF assms(2) word_neq_Nil this] have "v = 2"
      using call call_write_open [of k w1 cu OpPing "[]"] \<open>secret = []\<close> k w1 b by simp
    then show ?thesis using v by simp
  qed
qed

end
