(* ===== verification/Rpc_Theorems.thy ===== *)
theory Rpc_Theorems
  imports Rpc_Dial
begin

text \<open>
  The properties of the RPC layer: a client and the mock stay in step, the shim serves one
  request per connection, who is let in, and what the statistics reply means to the client.
\<close>

section \<open>A socket with a server, for the witnesses\<close>

definition demo_net :: "server \<Rightarrow> world" where
  "demo_net srv =
     \<lparr>nodes = [([''.'', ''s''], SockN)], mtimes = (\<lambda>_. 0), clock = 0, faults = [], env = [],
      servers = [([''.'', ''s''], srv)],
      conns = [\<lparr>c_srv = [''.'', ''s''], c_authed = False, c_in = [], c_out = [], c_closed = False\<rparr>]\<rparr>"

definition demo_mock :: mockState where
  "demo_mock = \<lparr>mk_secret = [], mk_failFreezeUntil = 1, mk_statusSeq = [1, 4], mk_statusIdx = 0\<rparr>"

definition demo_stats :: Stats where
  "demo_stats = \<lparr>st_AllocCount = 3, st_TotalBytes = 0x100000002, st_StreamCount = 1, st_ModuleCount = 1,
     st_SymbolCount = 5, st_EventCount = 0, st_CtxCount = 1, st_UnsupportedCode = 0, st_State = 0\<rparr>"

definition demo_cuda :: cuda where
  "demo_cuda = \<lparr>cu_quiesce = True, cu_snapshot = Inr [(''device.bin'', [1, 2], - 2)],
     cu_restore = (\<lambda>_. None), cu_stats = demo_stats\<rparr>"

lemma demo_synced:
  "admits srv False \<Longrightarrow> synced 0 srv (demo_net srv)"
  by (simp add: synced_def demo_net_def server_at_def)

section \<open>Sessions with the mock\<close>






section \<open>Sessions with the shim\<close>

text \<open>C25: the shim answers one request and closes the connection, so whatever the first request
  was, every further request on that connection fails; a ping followed by a restore on the same
  connection cannot succeed.\<close>

theorem shim_serves_one_request:
  assumes "synced k (Shim st) w" and "op \<in> word_ops" and "length path < 512" and "CHR 0x00 \<notin> set path"
  shows "\<exists>v w'. call cu k op path w = (Ret v, w') \<and>
    (\<forall>op' path'. call cu k op' path' w' = (Err (FmtError ''write unix: broken pipe''), w'))"
proof -
  obtain v cl srv' w1 where ans: "shim_answer cu (Shim st) op path (loaded k (request op path) w) = (v, cl, srv', w1)"
    by (metis prod_cases4)
  have cl: "cl" using shim_answer_closes [OF _ ans] by simp
  have "c_path_ok path" using assms(3,4) by (simp add: c_path_ok_def)
  from shim.call_answer(1,3) [OF assms(1) _ assms(2) this ans] cl call_closed show ?thesis by fastforce
qed

theorem shim_serves_one_witness:
  "\<exists>v w'. call demo_cuda 0 OpPing [] (demo_net (Shim \<lparr>sh_secret = [], sh_state = ST_RUNNING\<rparr>)) = (Ret v, w') \<and>
    (\<forall>op' path'. call demo_cuda 0 op' path' w' = (Err (FmtError ''write unix: broken pipe''), w'))"
  by (rule shim_serves_one_request [OF demo_synced]) (simp_all add: word_ops_def)

section \<open>Statistics\<close>

lemma readU32_ready:
  assumes "k < length (conns w)" and "c_out (conns w ! k) = word v @ r"
  shows "readU32 cu k w = (Ret v, set_conn k ((conns w ! k)\<lparr>c_out := r\<rparr>) w)"
  using assms by (simp add: readU32_def conn_ReadFull_def Let_def bindA_step)

definition outbox :: "Client \<Rightarrow> bytes \<Rightarrow> 'x world_scheme \<Rightarrow> 'x world_scheme" where
  "outbox k b w = set_conn k ((conns w ! k)\<lparr>c_out := b\<rparr>) w"

lemma outbox_simps [simp]:
  "k < length (conns w) \<Longrightarrow> conns (outbox k b w) ! k = (conns w ! k)\<lparr>c_out := b\<rparr>"
  "length (conns (outbox k b w)) = length (conns w)"
  "k < length (conns w) \<Longrightarrow> outbox k b (outbox k a w) = outbox k b w"
  by (simp_all add: outbox_def)

lemma readU32_outbox:
  "k < length (conns w) \<Longrightarrow> readU32 cu k (outbox k (word v @ r) w) = (Ret v, outbox k r w)"
  using readU32_ready [of k "outbox k (word v @ r) w" v r cu] by (simp add: outbox_def)

lemma readU32_outbox_last:
  "k < length (conns w) \<Longrightarrow> readU32 cu k (outbox k (word v) w) = (Ret v, outbox k [] w)"
  using readU32_outbox [of k w cu v "[]"] by simp


text \<open>The reply as a list of words, read in the order of the client.\<close>

lemma client_Stats_words:
  assumes syn: "synced k srv w"
    and pumped: "pump cu k (loaded k (word OpStats) w) = outbox k
      (concat (map word [0, a, lo, hi, b, c, d, e, f, g, h]) @ rest) w2"
    and len: "k < length (conns w2)"
  shows "client_Stats cu k w = (Ret \<lparr>st_AllocCount = a, st_TotalBytes = push_bit 32 (ucast hi) OR ucast lo,
      st_StreamCount = b, st_ModuleCount = c, st_SymbolCount = d, st_EventCount = e, st_CtxCount = f,
      st_UnsupportedCode = g, st_State = h\<rparr>, outbox k rest w2)"
proof -
  have k: "k < length (conns w)" "\<not> c_closed (conns w ! k)" "c_in (conns w ! k) = []" "c_out (conns w ! k) = []"
    using syn by (simp_all add: synced_def Let_def)
  have wr: "writeU32 k OpStats w = (Ret (), loaded k (word OpStats) w)"
    using k by (simp add: writeU32_def conn_Write_def Let_def loaded_def word_def)
  have first: "readU32 cu k (loaded k (word OpStats) w) =
      (Ret 0, outbox k (concat (map word [a, lo, hi, b, c, d, e, f, g, h]) @ rest) w2)"
    using k pumped len by (simp add: readU32_def conn_ReadFull_def Let_def bindA_def outbox_def)
  show ?thesis
    using wr first len by (simp add: client_Stats_def bindA_step readU32_outbox)
qed

lemma synced_parts:
  assumes "synced k srv w"
  shows "k < length (conns w)" "\<not> c_closed (conns w ! k)" "c_in (conns w ! k) = []" "c_out (conns w ! k) = []"
    "server_at w (c_srv (conns w ! k)) = Some srv" "admits srv (c_authed (conns w ! k))"
  using assms by (simp_all add: synced_def Let_def)



text \<open>C40: the mock sends one statistics word too many. The client takes the tenth for the state
  (always 0 instead of the intended 4) and leaves the eleventh in the stream, where it becomes
  the reply to the next request: the ping after a successful \<open>Stats\<close> fails with code 4.\<close>

theorem mock_stats_desync:
  assumes "synced k (Mock st) w"
  shows "\<exists>stats w' w''. client_Stats cu k w = (Ret stats, w') \<and> st_State stats = 0 \<and>
    Ping cu k w' = (Err (FmtError ''ping rc=4''), w'')"
proof -
  note p = synced_parts [OF assms]
  let ?out = "word 0 @ concat (map word mockStatsWords)"
  have step: "server_step cu (Mock st) (c_authed (conns w ! k)) (word OpStats) (loaded k (word OpStats) w) =
      Some ((Mock st, True, [], ?out, False), loaded k (word OpStats) w)"
    using p(6) get_word_word [of OpStats "[]"]
    by (auto simp: server_step_def serveMockConn_def mockRequest_def op_defs)
  have idle: "server_step cu (Mock st) True [] v = None" for v :: "'a world_scheme"
    using mock.wait [of "Mock st" "[]"] by simp
  let ?w2 = "set_conn k ((conns w ! k)\<lparr>c_authed := True, c_in := [], c_out := [], c_closed := False\<rparr>)
      ((loaded k (word OpStats) w)\<lparr>servers := AList.update (c_srv (conns w ! k)) (Mock st) (servers w)\<rparr>)"
  have k2: "k < length (conns ?w2)" using p(1) by (simp add: set_conn_def)
  have "pump cu k (loaded k (word OpStats) w) = outbox k
      (concat (map word [0, 1, 0, 0, 0, 0, 0, 0, 0, 0, 0]) @ word 4) ?w2"
    using pump_once [OF p(1,2) _ p(5) step _ _ idle] p(1,4)
    by (simp add: outbox_def conn_update_order set_conn_def mockStatsWords_def)
  from client_Stats_words [OF assms this k2] obtain stats where
    run: "client_Stats cu k w = (Ret stats, outbox k (word 4) ?w2)" and "st_State stats = 0"
    by simp
  have c2: "conns ?w2 ! k = (conns w ! k)\<lparr>c_authed := True, c_in := [], c_out := [], c_closed := False\<rparr>"
    using p(1) by (simp add: set_conn_def)
  let ?w3 = "outbox k (word 4) ?w2"
  have "writeU32 k OpPing ?w3 = (Ret (), outbox k (word 4) (loaded k (word OpPing) ?w2))"
    using k2 by (simp add: writeU32_def conn_Write_def Let_def loaded_def outbox_def c2 word_def conn_update_order)
  then have "call cu k OpPing [] ?w3 = (Ret 4, outbox k [] (loaded k (word OpPing) ?w2))"
    using readU32_outbox_last [of k "loaded k (word OpPing) ?w2" cu 4] k2
    by (simp add: call_def bindA_step op_defs)
  moreover have "''ping'' @ '' rc='' @ nat_dec (unat (4 :: u32)) = ''ping rc=4''" by code_simp
  ultimately have "Ping cu k ?w3 = (Err (FmtError ''ping rc=4''), outbox k [] (loaded k (word OpPing) ?w2))"
    by (simp add: Ping_def expect_zero_def bindA_step rc_error_def)
  with run \<open>st_State stats = 0\<close> show ?thesis by blast
qed

theorem mock_stats_desync_witness:
  "\<exists>stats w' w''. client_Stats demo_cuda 0 (demo_net (Mock demo_mock)) = (Ret stats, w') \<and> st_State stats = 0 \<and>
    Ping demo_cuda 0 w' = (Err (FmtError ''ping rc=4''), w'')"
  by (rule mock_stats_desync [OF demo_synced]) (simp add: demo_mock_def)

section \<open>Authentication\<close>

text \<open>C24: the constant-time comparison of the shim accepts exactly the configured secret, although
  it folds the length difference into one byte: for C strings (no zero byte) the comparison of
  the contents catches what the lengths modulo 256 do not.\<close>

theorem secrets_match_iff:
  assumes "CHR 0x00 \<notin> set secret" and "CHR 0x00 \<notin> set got" and "secret \<noteq> []"
    and "length secret < 2 ^ 64" and "length got < 2 ^ 64"
  shows "secrets_match secret got \<longleftrightarrow> got = secret"
proof -
  let ?at = "\<lambda>s i. if i < length s then (word_of_nat (of_char (s ! i)) :: byte) else 0"
  let ?d0 = "ucast ((word_of_nat (length got) :: u64) XOR word_of_nat (length secret)) :: byte"
  have fold: "foldl (\<lambda>diff i. diff OR f i) d xs = 0 \<longleftrightarrow> d = 0 \<and> (\<forall>i \<in> set xs. f i = (0 :: byte))" for f d xs
    by (induction xs arbitrary: d) (auto simp: or_eq_0_iff)
  have xor0: "a XOR b = 0 \<longleftrightarrow> a = b" for a b :: byte
    by (metis xor.assoc xor.left_neutral xor.right_neutral xor_self_eq)
  have code: "(word_of_nat (of_char c) :: byte) = word_of_nat (of_char c') \<longleftrightarrow> c = c'" for c c'
    by (metis list.inject bytes_of_inject bytes_of_def list.simps(9))
  have zero: "(word_of_nat (of_char c) :: byte) \<noteq> 0" if "c \<noteq> CHR 0x00" for c
    using code [of c "CHR 0x00"] that by (simp add: of_char_def)
  have main: "secrets_match secret got \<longleftrightarrow> ?d0 = 0 \<and>
      (\<forall>i \<in> {0..<max (length got) (length secret)}. ?at secret i = ?at got i)"
    using assms(3) by (simp add: secrets_match_def Let_def fold xor0)
  show ?thesis
  proof
    assume "secrets_match secret got"
    then have all: "?at secret i = ?at got i" if "i < max (length got) (length secret)" for i
      using main that by simp
    have nz: "?at s i \<noteq> 0" if "i < length s" "CHR 0x00 \<notin> set s" for s i
      using that zero [of "s ! i"] by (metis nth_mem)
    have "length got = length secret"
    proof (rule ccontr)
      assume "length got \<noteq> length secret"
      then show False
        using all [of "min (length got) (length secret)"] nz [of "min (length got) (length secret)"] assms(1,2)
        by (cases "length got < length secret") force+
    qed
    moreover have "got ! i = secret ! i" if "i < length got" for i
      using all [of i] that calculation code by simp
    ultimately show "got = secret" by (rule nth_equalityI)
  next
    assume "got = secret"
    then show "secrets_match secret got" unfolding main by simp
  qed
qed

theorem secrets_match_witness: "secrets_match ''hunter2'' ''hunter2'' \<and> \<not> secrets_match ''hunter2'' ''hunter''"
  using secrets_match_iff [of "''hunter2''" "''hunter2''"] secrets_match_iff [of "''hunter2''" "''hunter''"] by simp



end
