(* ===== verification/Image_Theorems.thy ===== *)
theory Image_Theorems
  imports Image_Staging Image_Meta
begin

text \<open>
  The properties of the image library (\<open>pkg/image\<close>) and of the store below it
  (\<open>pkg/storage\<close>), each with a concrete run that meets its hypotheses.
\<close>

section \<open>Concrete file systems for the witnesses\<close>

definition demo_os :: "(path \<times> node) list \<Rightarrow> os_state" where
  "demo_os ns = \<lparr>nodes = ns, mtimes = (\<lambda>_. 0), clock = 0, faults = [], env = []\<rparr>"

definition demo_entry :: "u64 \<Rightarrow> u64 \<Rightarrow> u64 \<Rightarrow> u32 \<Rightarrow> Entry" where
  "demo_entry p off n crc =
     \<lparr>e_Ptr = p, e_Size = n, e_Offset = off, e_CRC32C = crc, e_Seq = 0, e_ContentHash = 0\<rparr>"

lemma demo_os_simps [simp]:
  "nodes (demo_os ns) = ns" "faults (demo_os ns) = []" "env (demo_os ns) = []"
  by (simp_all add: demo_os_def)

lemma demo_path: "path_of ''img'' = [''.'', ''img'']" "path_of ''base'' = [''.'', ''base'']"
  "path_of ''m'' = [''.'', ''m'']"
  by (simp_all add: path_of_plain plain_def)

section \<open>Manifests\<close>

text \<open>C34: a manifest that was written without error reads back: the same header and the same
  entries (in version 1 without their content hashes, which that format does not store).\<close>

theorem manifest_roundtrip:
  assumes "WriteManifestFlags path es f v s = (Ret u, t)" and "length es < 2 ^ 32"
  shows "ReadManifest path t = (Ret (map (entryNorm v) es, manifestHeader es f v), t)"
proof -
  have "node_at t (path_of path) = Some (FileN (manifestBytes es f v))"
    using os_WriteFile_node_at [of path "manifestBytes es f v" s u t] assms(1)
    by (simp add: WriteManifestFlags_def)
  then show ?thesis
    using parseManifest_manifestBytes [OF assms(2), of f v "[]"] by (simp add: ReadManifest_Ret_iff)
qed

theorem manifest_roundtrip_witness:
  "ReadManifest ''m'' (store_file [''.'', ''m''] (manifestBytes [demo_entry 1 0 4 7] 0 1) (demo_os [])) =
     (Ret ([demo_entry 1 0 4 7], manifestHeader [demo_entry 1 0 4 7] 0 1),
      store_file [''.'', ''m''] (manifestBytes [demo_entry 1 0 4 7] 0 1) (demo_os []))"
proof -
  have "WriteManifestFlags ''m'' [demo_entry 1 0 4 7] 0 1 (demo_os []) =
      (Ret (), store_file [''.'', ''m''] (manifestBytes [demo_entry 1 0 4 7] 0 1) (demo_os []))"
    by (simp add: WriteManifestFlags_def os_WriteFile_ok can_write_def demo_path node_at_def)
  from manifest_roundtrip [OF this] show ?thesis
    by (simp add: entryNorm_def demo_entry_def)
qed

text \<open>C8: a manifest write that is cut short by the disk is noticed by the next reader: what a
  failed write leaves never parses as a manifest with fewer or different entries.\<close>

theorem torn_manifest_detected:
  assumes "next_fault s = Short n" and "n < length (manifestBytes es f v)" and "length es < 2 ^ 32"
    and "can_write s (path_of path)"
  shows "\<exists>e t. WriteManifestFlags path es f v s = (Err e, t) \<and>
    (ReadManifest path t = (Err EOF, t) \<or> ReadManifest path t = (Err UnexpectedEOF, t))"
proof -
  let ?b = "take n (manifestBytes es f v)" and ?p = "path_of path"
  let ?t = "store_file ?p ?b (pop_fault s)"
  obtain old where "open_for_write path (pop_fault s) = Ret old"
    using assms(4) by (auto simp: can_write_def open_for_write_Ret)
  then have run: "WriteManifestFlags path es f v s = (Err (PathError ''write'' path EIO), ?t)"
    using assms(1) by (simp add: WriteManifestFlags_def os_write_def Let_def)
  have "os_ReadFile path ?t = (Ret ?b, ?t)"
    using can_write_length [OF assms(4)] by (simp add: os_ReadFile_file node_at_store_file)
  moreover have "is_short (parseManifest ?b)" using parseManifest_truncated [OF assms(3,2)] .
  ultimately have "ReadManifest path ?t = (Err EOF, ?t) \<or> ReadManifest path ?t = (Err UnexpectedEOF, ?t)"
    by (auto simp: ReadManifest_def bindA_step is_short_def)
  with run show ?thesis by blast
qed

theorem torn_manifest_witness:
  "\<exists>e t. WriteManifestFlags ''m'' [demo_entry 1 0 4 7] 0 2 ((demo_os [])\<lparr>faults := [Short 30]\<rparr>) = (Err e, t) \<and>
    (ReadManifest ''m'' t = (Err EOF, t) \<or> ReadManifest ''m'' t = (Err UnexpectedEOF, t))"
proof (rule torn_manifest_detected)
  show "next_fault ((demo_os [])\<lparr>faults := [Short 30]\<rparr>) = Short 30" by (simp add: next_fault_def)
  show "30 < length (manifestBytes [demo_entry 1 0 4 7] 0 2)"
    by (simp add: length_manifestBytes headerSize_def entryWidth_def VersionV2_def)
  show "can_write ((demo_os [])\<lparr>faults := [Short 30]\<rparr>) (path_of ''m'')"
    by (simp add: can_write_def demo_path node_at_def)
qed simp

text \<open>The exported constant \<open>EntrySize\<close> is eight bytes larger than what an entry takes
  in the file, in both versions.\<close>

lemma EntrySize_off_by_eight: "EntrySize v = length (writeEntry e v) + 8"
  by (simp add: EntrySize_def entryV1Size_def entryV2Size_def length_writeEntry entryWidth_def)

section \<open>Checksums\<close>

text \<open>C17: \<open>VerifyChunk\<close> accepts a chunk with its own checksum and rejects it after any
  change confined to four consecutive bytes of the chunk, whatever surrounds the chunk.\<close>

theorem VerifyChunk_detects_burst:
  assumes "length d = length d'" and "length d \<le> 4" and "d \<noteq> d'"
    and "length (a @ d @ z) \<le> 2 ^ 48"
  shows "VerifyChunk name (FileN (pre @ (a @ d @ z) @ post)) (int (length pre)) (int (length (a @ d @ z)))
           (CRC32C (a @ d @ z)) = Ret True \<and>
         VerifyChunk name (FileN (pre @ (a @ d' @ z) @ post)) (int (length pre)) (int (length (a @ d @ z)))
           (CRC32C (a @ d @ z)) = Ret False"
proof -
  have n: "makeslice_ok (int (length (a @ d @ z)))"
    using assms(4) by (simp add: makeslice_ok_def)
  have "d \<noteq> []" using assms(1,3) by auto
  then have at: "file_ReadAt name (FileN (pre @ (a @ x @ z) @ post)) (int (length pre)) (length (a @ d @ z)) =
      Ret (a @ x @ z)" if "length x = length d" for x
    using that by (simp add: file_ReadAt_def chunk_def)
  have "CRC32C (a @ d' @ z) \<noteq> CRC32C (a @ d @ z)" using CRC32C_burst [OF assms(1-3), of a z] by metis
  then show ?thesis
    using n at [of d] at [of d'] assms(1)
    by (simp only: VerifyChunk_def nat_int bindO_simps simp_thms if_False)
qed

theorem VerifyChunk_burst_witness:
  "VerifyChunk ''device.bin'' (FileN ([9] @ ([1] @ [2, 3] @ [4]) @ [])) 1 4 (CRC32C ([1] @ [2, 3] @ [4])) = Ret True \<and>
   VerifyChunk ''device.bin'' (FileN ([9] @ ([1] @ [0, 3] @ [4]) @ [])) 1 4 (CRC32C ([1] @ [2, 3] @ [4])) = Ret False"
  using VerifyChunk_detects_burst [of "[2, 3]" "[0, 3]" "[1]" "[4]" "''device.bin''" "[9]" "[]"] by simp

section \<open>Sidecar metadata\<close>

text \<open>C35: \<open>meta.bin\<close> round trip: \<open>ReadMeta\<close> returns what \<open>WriteMeta\<close> was given, with
  the magic number and version 2 filled in.\<close>

theorem meta_roundtrip:
  assumes "WriteMeta path m s = (Ret u, t)"
    and "length (m_Preload m) < 2 ^ 32" and "length (m_Visible m) < 2 ^ 32"
  shows "ReadMeta path t = (Ret (m\<lparr>m_Magic := MetaMagic, m_Version := 2\<rparr>), t)"
proof -
  have "node_at t (path_of path) = Some (FileN (metaBytes m))"
    using os_WriteFile_node_at [of path "metaBytes m" s u t] assms(1) by (simp add: WriteMeta_def)
  then show ?thesis
    using parseMeta_metaBytes [OF assms(2,3)]
    by (simp add: ReadMeta_def bindA_step os_ReadFile_file metaClean_def)
qed

definition demo_meta :: Meta where
  "demo_meta = \<lparr>m_Magic = 0, m_Version = 0, m_Flags = 0, m_Pid = 42, m_Dev = 1,
     m_Preload = ''libshim.so'', m_Visible = ''0,1''\<rparr>"

theorem meta_roundtrip_witness:
  "ReadMeta ''m'' (store_file [''.'', ''m''] (metaBytes demo_meta) (demo_os [])) =
     (Ret (demo_meta\<lparr>m_Magic := MetaMagic, m_Version := 2\<rparr>),
      store_file [''.'', ''m''] (metaBytes demo_meta) (demo_os []))"
proof -
  have "WriteMeta ''m'' demo_meta (demo_os []) =
      (Ret (), store_file [''.'', ''m''] (metaBytes demo_meta) (demo_os []))"
    by (simp add: WriteMeta_def os_WriteFile_ok can_write_def demo_path node_at_def)
  from meta_roundtrip [OF this] show ?thesis by (simp add: demo_meta_def)
qed

text \<open>C39: a \<open>meta.bin\<close> cut anywhere inside the \<open>CUDA_VISIBLE_DEVICES\<close> text is accepted as
  complete: all other fields come back and the text is silently empty.\<close>

theorem meta_cut_accepted:
  assumes "length (m_Preload m) < 2 ^ 32" and "length (m_Visible m) < 2 ^ 32"
    and "n < length (m_Visible m)"
  shows "parseMeta (take (24 + length (m_Preload m) + n) (metaBytes m)) =
    Inr (m\<lparr>m_Magic := MetaMagic, m_Version := 2, m_Visible := []\<rparr>)"
proof -
  let ?v = "le_put 4 (word_of_nat (length (m_Visible m)) :: u32)"
  let ?r = "bytes_of (m_Preload m) @ ?v @ take n (bytes_of (m_Visible m))"
  have cut: "take (24 + length (m_Preload m) + n) (metaBytes m) = metaFixed m @ ?r"
    by (simp add: metaBytes_fixed)
  have "chunk ?r (length (m_Preload m)) 4 = ?v" by (simp add: chunk_def)
  moreover have "unat (le_get ?v :: u32) = length (m_Visible m)"
    using assms(2) by (simp add: le_get_put_full unat_of_nat)
  ultimately show ?thesis
    using parseMeta_fixed [OF assms(1), of ?r] assms(3) unfolding cut
    by (cases m) (simp add: Let_def)
qed

theorem meta_cut_witness:
  "parseMeta (take (24 + 10 + 1) (metaBytes demo_meta)) =
     Inr (demo_meta\<lparr>m_Magic := MetaMagic, m_Version := 2, m_Visible := []\<rparr>)"
  using meta_cut_accepted [of demo_meta 1] by (simp add: demo_meta_def)

section \<open>The content-addressed store\<close>

text \<open>C14: whatever the disk does, \<open>Put\<close> keeps the store sound (every object file holds
  bytes with the hash it is named by, never a partial write); a \<open>Put\<close> that returns gives the
  hash of its data and that object can be read back; and no object that could be read before
  changes.\<close>

theorem cas_Put_sound:
  assumes "cas_inv c s" and "cas_Put c d s = (r, t)"
  shows "cas_inv c t \<and>
    (\<forall>h. r = Ret h \<longrightarrow> h = Sum256 d \<and> (\<exists>d'. cas_Get c h t = (Ret d', t) \<and> Sum256 d' = h)) \<and>
    (\<forall>k b. cas_Get c k s = (Ret b, s) \<longrightarrow> cas_Get c k t = (Ret b, t))"
  using keepsD [OF cas.put_inv assms] cas.put_hash cas.put_get cas.put_frame assms by blast

definition demo_cas :: CAS where "demo_cas = \<lparr>cas_Root = ''img''\<rparr>"

lemma demo_wf: "wf_os (demo_os [([''.'', ''img''], DirN)])"
  by (simp add: wf_os_def node_at_def)

lemma demo_cas_Put: "\<exists>t. cas_Put demo_cas d (demo_os [([''.'', ''img''], DirN)]) = (Ret (Sum256 d), t)"
proof -
  have "node_at (demo_os [([''.'', ''img''], DirN)]) (path_of (cas_Root demo_cas) @ r) = None" if "r \<noteq> []" for r
    using that by (simp add: demo_cas_def demo_path node_at_def)
  then show ?thesis
    using cas_Put_empty_store [of "demo_os [([''.'', ''img''], DirN)]" demo_cas d] demo_wf
    by (auto simp: demo_cas_def demo_path node_at_def)
qed

theorem cas_Put_witness:
  "\<exists>t. cas_Put demo_cas [1, 2] (demo_os [([''.'', ''img''], DirN)]) = (Ret (Sum256 [1, 2]), t) \<and> cas_inv demo_cas t \<and>
     (\<exists>d'. cas_Get demo_cas (Sum256 [1, 2]) t = (Ret d', t) \<and> Sum256 d' = Sum256 [1, 2])"
proof -
  obtain t where put: "cas_Put demo_cas [1, 2] (demo_os [([''.'', ''img''], DirN)]) = (Ret (Sum256 [1, 2]), t)"
    using demo_cas_Put by blast
  have "cas_inv demo_cas (demo_os [([''.'', ''img''], DirN)])"
    using demo_wf by (simp add: cas_inv_def node_at_def obj_path_def demo_cas_def demo_path)
  from cas_Put_sound [OF this put] put show ?thesis by blast
qed

end
