(* ===== verification/Delta_Theorems.thy ===== *)
theory Delta_Theorems
  imports Image_Theorems
begin

text \<open>
  The properties of delta and compressed images: what \<open>EnsureDeviceMaterialized\<close>
  rebuilds, and the two ways it can go wrong that the code does not exclude.
\<close>

section \<open>A delta image without its device.bin\<close>

text \<open>What the calls of a delta round trip leave of the files they need.\<close>

lemma os_Remove_file:
  assumes "faults s = []" and "node_at s (path_of name) = Some (FileN b)"
  shows "os_Remove name s = (Ret (), remove_tree (path_of name) s)"
proof -
  have "\<not> length (path_of name) \<le> 1" using assms(2) by (cases "length (path_of name) \<le> 1") auto
  with assms show ?thesis by (simp add: os_Remove_def Let_def)
qed

lemma removed_device_frame:
  assumes "wf_os s" and "has_file s dir ''device.bin'' dev" and "node_at s q \<noteq> None"
    and "q \<noteq> path_of dir @ [''device.bin'']"
  shows "\<not> prefix (path_of dir @ [''device.bin'']) q"
  using wf_os_below [OF assms(1), of "path_of dir @ [''device.bin'']" q] assms(2-)
  by (auto simp: has_file_def)

lemma node_at_remove_in:
  "node_at (remove_tree (path_of dir @ [f]) s) q = (if prefix (path_of dir @ [f]) q then None else node_at s q)"
  by (simp add: node_at_remove_tree)

lemma has_file_node: "has_file s d f b \<Longrightarrow> node_at s (path_of d @ [f]) = Some (FileN b)"
  by (simp add: has_file_def)

lemma removed_keeps_file:
  assumes "wf_os s" and "has_file s dir ''device.bin'' dev" and "has_file s d f b"
    and "\<not> (path_of d = path_of dir \<and> f = ''device.bin'')"
  shows "has_file (remove_tree (path_of dir @ [''device.bin'']) s) d f b"
  using removed_device_frame [OF assms(1,2), of "path_of d @ [f]"] assms(3,4)
  by (simp add: has_file_def node_at_remove_in)

lemma removed_keeps_manifest:
  assumes "wf_os s" and "has_file s dir ''device.bin'' dev" and "has_manifest s d es h"
  shows "has_manifest (remove_tree (path_of dir @ [''device.bin'']) s) d es h"
proof -
  have "node_at s (path_of d @ [''manifest.bin'']) \<noteq> None"
    using assms(3) by (auto simp: has_manifest_def split: option.splits)
  then show ?thesis
    using removed_device_frame [OF assms(1,2), of "path_of d @ [''manifest.bin'']"] assms(3)
    by (simp add: has_manifest_def node_at_remove_in)
qed

text \<open>The state between writing the delta and rebuilding the device.\<close>

lemma delta_state_ready:
  fixes ces :: "Entry list"
  assumes wf: "wf_os s" and no_faults: "faults s = []"
    and img: "image_at s dir es h dev" "plain_flags h"
    and par: "image_at s par pes ph pdev" and apart: "path_of par \<noteq> path_of dir"
    and room: "can_write s (path_of dir @ [''device.patch''])" "can_write s (path_of dir @ [''delta.bin''])"
  defines "t \<equiv> delta_state dir par es h ces dev s"
  defines "u \<equiv> remove_tree (path_of dir @ [''device.bin'']) t"
  shows "os_Remove (Join dir ''device.bin'') t = (Ret (), u)"
    and "delta_image u dir par es (manifestHeader es (h_Flags h OR FlagDelta) (h_Version h)) ces dev"
    and "image_at u par pes ph pdev" and "faults u = []"
    and "can_write u (path_of dir @ [''device.bin''])"
proof -
  have man: "has_manifest s dir es h" "has_manifest s par pes ph" and dfile: "has_file s dir ''device.bin'' dev"
    and pfile: "has_file s par ''device.bin'' pdev"
    using img(1) par by (simp_all add: image_at_def)
  note wm = has_manifest_can_write [OF man(1)]
  have wft: "wf_os t"
    unfolding t_def delta_state_def
    by (intro wf_os_store_file wf) (simp_all add: room wm can_write_store_in)
  have dt: "has_file t dir ''device.bin'' dev" "has_file t par ''device.bin'' pdev"
    "has_manifest t par pes ph" "has_file t dir ''delta.bin'' (deltaBytes par (deltaRecs 0 ces))"
    "has_file t dir ''device.patch'' (concat (map (e_chunk dev) ces))"
    using dfile pfile man(2) apart by (simp_all add: t_def delta_state_def image_store)
  have mt: "has_manifest t dir es (manifestHeader es (h_Flags h OR FlagDelta) (h_Version h))"
    using has_manifest_rewrite [OF man(1)] by (simp add: t_def delta_state_def image_store)
  have ft: "faults t = []" using no_faults by (simp add: t_def delta_state_def)
  show "os_Remove (Join dir ''device.bin'') t = (Ret (), u)"
    using os_Remove_file [OF ft, of "Join dir ''device.bin''"] has_file_node [OF dt(1)] by (simp add: u_def)
  show "faults u = []" using ft by (simp add: u_def)
  show "delta_image u dir par es (manifestHeader es (h_Flags h OR FlagDelta) (h_Version h)) ces dev"
    using removed_keeps_manifest [OF wft dt(1) mt] removed_keeps_file [OF wft dt(1)] dt(4,5) img(2)
    by (simp add: delta_image_def u_def plain_flags_def)
  show "image_at u par pes ph pdev"
    using removed_keeps_manifest [OF wft dt(1,3)] removed_keeps_file [OF wft dt(1,2)] apart
    by (simp add: image_at_def u_def)
  have "node_at t (path_of dir) = Some DirN"
    using wf_osD [OF wft, of "path_of dir @ [''device.bin'']"] has_file_node [OF dt(1)] by simp
  moreover have "\<not> prefix (path_of dir @ [''device.bin'']) (path_of dir)" by (auto dest: prefix_length_le)
  ultimately show "can_write u (path_of dir @ [''device.bin''])"
    by (simp add: can_write_def u_def node_at_remove_in)
qed

text \<open>
  \<open>rebuilt\<close>: write the delta, delete the full device, and ask for it back. The fuel is
  the length of the parent chain: one call for the image, one for its plain parent.
\<close>

definition rebuilt :: "nat \<Rightarrow> zstd \<Rightarrow> string \<Rightarrow> string \<Rightarrow> ('x os_state_scheme, bytes) act" where
  "rebuilt n z dir par =
     bindA (WriteDelta (Suc n) z dir par) (\<lambda>_.
     bindA (os_Remove (Join dir ''device.bin'')) (\<lambda>_.
     bindA (EnsureDeviceMaterialized (Suc (Suc n)) z dir) (\<lambda>_.
       os_ReadFile (Join dir ''device.bin''))))"

lemma rebuilt_run:
  assumes wf: "wf_os s" and no_faults: "faults s = []"
    and img: "image_at s dir es h dev" "plain_flags h"
    and par: "image_at s par pes ph pdev" "plain_flags ph"
    and apart: "path_of par \<noteq> path_of dir" and name: "par \<noteq> []" "length par < 2 ^ 32"
    and ok: "layout_ok dev es" and plen: "length pdev \<le> 2 ^ 48"
    and room: "can_write s (path_of dir @ [''device.patch''])" "can_write s (path_of dir @ [''delta.bin''])"
    and ces: "ces = changed (byPtr pes) es" "ces \<noteq> []"
  shows "\<exists>dev' t. rebuilt n z dir par s = (Ret dev', t) \<and>
      (\<forall>e \<in> set es. fits (length dev') e) \<and>
      (\<forall>i < length dev'. i < length pdev \<or> covered ces i \<longrightarrow>
         dev' ! i = (if covered ces i then dev ! i else pdev ! i))"
proof -
  let ?t = "delta_state dir par es h ces dev s"
  note ready = delta_state_ready [OF wf no_faults img par(1) apart room, of ces]
  obtain dev' where run: "EnsureDeviceMaterialized (Suc (Suc n)) z dir
        (remove_tree (path_of dir @ [''device.bin'']) ?t) =
      (Ret (), store_file (path_of dir @ [''device.bin'']) dev' (remove_tree (path_of dir @ [''device.bin'']) ?t))"
    and fit: "\<forall>e \<in> set es. fits (length dev') e"
    and at: "\<forall>i < length dev'. i < length pdev \<or> covered ces i \<longrightarrow>
         dev' ! i = (if covered ces i then dev ! i else pdev ! i)"
    using Ensure_delta_run [OF ready(2,3) par(2) ok plen name ready(4,5)] ces(1)
    unfolding changed_def by blast
  show ?thesis
    using WriteDelta_run [OF img par ok no_faults room ces, of n z] ready(1) run fit at
    by (auto simp: rebuilt_def bindA_step os_ReadFile_file node_at_store_in
        simp del: EnsureDeviceMaterialized.simps)
qed

section \<open>Properties\<close>

text \<open>A codec that meets the laws of the zstd library the properties rely on: a one-byte frame in front of the data.\<close>

definition demo_zstd :: zstd where
  "demo_zstd = \<lparr>z_Encode = (\<lambda>d. Inr (1 # d)),
     z_Decode = (\<lambda>c. if c \<noteq> [] \<and> hd c = 1 then Inr (tl c) else Inl (FmtError ''invalid input''))\<rparr>"

text \<open>Two images side by side, for the witnesses.\<close>

definition demo_pair :: "Entry list \<Rightarrow> bytes \<Rightarrow> Entry list \<Rightarrow> bytes \<Rightarrow> os_state" where
  "demo_pair pes pdev es dev = demo_os
     [([''.'', ''base''], DirN), ([''.'', ''base'', ''manifest.bin''], FileN (manifestBytes pes 0 2)),
      ([''.'', ''base'', ''device.bin''], FileN pdev),
      ([''.'', ''img''], DirN), ([''.'', ''img'', ''manifest.bin''], FileN (manifestBytes es 0 2)),
      ([''.'', ''img'', ''device.bin''], FileN dev)]"

lemma demo_parse:
  "length es < 2 ^ 32 \<Longrightarrow> parseManifest (manifestBytes es f 2) = Inr (es, manifestHeader es f 2)"
  using parseManifest_manifestBytes [of es f 2 "[]"] entryNorm_v2 [of 2] by (simp add: VersionV2_def)

lemma demo_plain_flags [simp]: "plain_flags (manifestHeader es 0 v)"
  by (simp add: plain_flags_def HasFlag_def)

lemma demo_pair_facts:
  assumes "length pes < 2 ^ 32" and "length es < 2 ^ 32"
  shows "wf_os (demo_pair pes pdev es dev)" and "faults (demo_pair pes pdev es dev) = []"
    and "image_at (demo_pair pes pdev es dev) ''img'' es (manifestHeader es 0 2) dev"
    and "image_at (demo_pair pes pdev es dev) ''base'' pes (manifestHeader pes 0 2) pdev"
    and "can_write (demo_pair pes pdev es dev) (path_of ''img'' @ [''device.patch''])"
    and "can_write (demo_pair pes pdev es dev) (path_of ''img'' @ [''delta.bin''])"
    and "can_write (demo_pair pes pdev es dev) (path_of ''img'' @ [''device.zst''])"
  using assms
  by (auto simp: demo_pair_def wf_os_def node_at_def image_at_def has_manifest_def has_file_def
      demo_path demo_parse can_write_def split: if_splits)

lemmas demo_layout = layout_ok_def fits_def e_lo_def e_len_def demo_entry_def e_chunk_def chunk_def
  changed_def unchanged_def byPtr_def covered_def



text \<open>C37: the comparison with the parent ignores where an allocation lies. An entry with the
  parent's pointer, size and checksum is left out of the delta even if its offset moved; when
  the parent has other bytes at the new offset, the rebuilt device holds those instead.\<close>

theorem delta_moved_entry_lost:
  assumes wf: "wf_os s" and no_faults: "faults s = []"
    and img: "image_at s dir es h dev" "plain_flags h"
    and par: "image_at s par pes ph pdev" "plain_flags ph"
    and apart: "path_of par \<noteq> path_of dir" and name: "par \<noteq> []" "length par < 2 ^ 32"
    and ok: "layout_ok dev es" and plen: "length pdev \<le> 2 ^ 48"
    and room: "can_write s (path_of dir @ [''device.patch''])" "can_write s (path_of dir @ [''delta.bin''])"
    and some: "changed (byPtr pes) es \<noteq> []"
    and e: "e \<in> set es" "unchanged (byPtr pes) e" "fits (length pdev) e"
    and alone: "\<forall>i < e_len e. \<not> covered (changed (byPtr pes) es) (e_lo e + i)"
    and moved: "e_chunk pdev e \<noteq> e_chunk dev e"
  shows "\<exists>dev' t. rebuilt n z dir par s = (Ret dev', t) \<and> e_chunk dev' e = e_chunk pdev e \<and>
    e_chunk dev' e \<noteq> e_chunk dev e"
proof -
  obtain dev' t where run: "rebuilt n z dir par s = (Ret dev', t)"
    and fit: "\<forall>e \<in> set es. fits (length dev') e"
    and at: "\<forall>i < length dev'. i < length pdev \<or> covered (changed (byPtr pes) es) i \<longrightarrow>
         dev' ! i = (if covered (changed (byPtr pes) es) i then dev ! i else pdev ! i)"
    using rebuilt_run [OF wf no_faults img par apart name ok plen room refl some, of n z] by blast
  have f: "fits (length dev') e" using fit e(1) by blast
  have "dev' ! (e_lo e + i) = pdev ! (e_lo e + i)" if "i < e_len e" for i
    using at that alone f e(3) by (simp add: fits_def)
  then have "e_chunk dev' e = e_chunk pdev e" using e_chunk_eq_iff [OF f e(3)] by blast
  with run moved show ?thesis by metis
qed

theorem delta_moved_witness:
  "\<exists>dev' t. rebuilt 0 demo_zstd ''img'' ''base''
       (demo_pair [demo_entry 1 0 2 7, demo_entry 3 2 2 8] [1, 2, 5, 6]
          [demo_entry 2 0 1 9, demo_entry 1 1 2 7] [3, 1, 2]) = (Ret dev', t) \<and>
     e_chunk dev' (demo_entry 1 1 2 7) = [2, 5] \<and> e_chunk [3, 1, 2] (demo_entry 1 1 2 7) = [1, 2 :: byte]"
proof -
  let ?pes = "[demo_entry 1 0 2 7, demo_entry 3 2 2 8]" and ?es = "[demo_entry 2 0 1 9, demo_entry 1 1 2 7]"
  have n: "length ?pes < 2 ^ 32" "length ?es < 2 ^ 32" by simp_all
  note facts = demo_pair_facts [OF n, of "[1, 2, 5, 6]" "[3, 1, 2]"]
  have "\<exists>dev' t. rebuilt 0 demo_zstd ''img'' ''base'' (demo_pair ?pes [1, 2, 5, 6] ?es [3, 1, 2]) = (Ret dev', t) \<and>
     e_chunk dev' (demo_entry 1 1 2 7) = e_chunk [1, 2, 5, 6] (demo_entry 1 1 2 7) \<and>
     e_chunk dev' (demo_entry 1 1 2 7) \<noteq> e_chunk [3, 1, 2] (demo_entry 1 1 2 7)"
    by (rule delta_moved_entry_lost [OF facts(1,2,3) _ facts(4) _ _ _ _ _ _ facts(5,6)])
      (simp_all add: demo_path demo_layout)
  then show ?thesis by (auto simp: demo_layout)
qed

text \<open>C36: a delta image that names itself as its parent, which is what finishing a checkpoint
  into the directory it was told to use as parent produces, sends
  \<open>EnsureDeviceMaterialized\<close> into a recursion that never returns: no amount of fuel gives an
  outcome other than \<open>Diverge\<close>.\<close>

theorem delta_self_parent_diverges:
  assumes "has_manifest s dir es h" and "HasFlag (h_Flags h) FlagDelta"
    and "has_file s dir ''delta.bin'' (deltaBytes dir recs)" and "dir \<noteq> []" and "length dir < 2 ^ 32"
  shows "EnsureDeviceMaterialized n z dir s = (Diverge, s)"
proof (induction n)
  case (Suc n)
  have "os_Open (Join dir ''delta.bin'') s = (Ret (FileN (deltaBytes dir recs)), s)"
    using assms(3) by (simp add: has_file_def os_Open_def)
  then show ?case
    using Suc assms(2,4,5) has_manifest_header [OF assms(1)]
    by (simp add: bindA_step tryA_step ApplyDelta_with_def Let_def parseDelta_deltaBytes)
qed simp

definition demo_self :: os_state where
  "demo_self = demo_os
     [([''.'', ''img''], DirN), ([''.'', ''img'', ''manifest.bin''], FileN (manifestBytes [] 8 2)),
      ([''.'', ''img'', ''delta.bin''], FileN (deltaBytes ''img'' []))]"

theorem delta_self_parent_witness: "EnsureDeviceMaterialized 5 demo_zstd ''img'' demo_self = (Diverge, demo_self)"
proof (rule delta_self_parent_diverges)
  show "has_manifest demo_self ''img'' [] (manifestHeader [] 8 2)"
    by (simp add: has_manifest_def demo_self_def node_at_def demo_path demo_parse)
  show "HasFlag (h_Flags (manifestHeader [] 8 2)) FlagDelta" by (simp add: HasFlag_def FlagDelta_def)
  show "has_file demo_self ''img'' ''delta.bin'' (deltaBytes ''img'' [])"
    by (simp add: has_file_def demo_self_def node_at_def demo_path)
qed simp_all

text \<open>C30: compressing an image, deleting its \<open>device.bin\<close> and materialising it again gives
  back the same device bytes and clears the compressed flag, for a codec that decodes what it
  encoded.\<close>

theorem compress_roundtrip:
  assumes wf: "wf_os s" and no_faults: "faults s = []"
    and img: "image_at s dir es h dev" "plain_flags h"
    and enc: "z_Encode z dev = Inr c" and dec: "z_Decode z c = Inr dev"
    and room: "can_write s (path_of dir @ [''device.zst''])"
  shows "\<exists>t. bindA (CompressDevice z dir) (\<lambda>_. bindA (os_Remove (Join dir ''device.bin'')) (\<lambda>_.
      EnsureDeviceMaterialized (Suc n) z dir)) s = (Ret (), t) \<and>
    (\<exists>h'. image_at t dir es h' dev \<and> plain_flags h')"
proof -
  have man: "has_manifest s dir es h" and dfile: "has_file s dir ''device.bin'' dev"
    using img(1) by (simp_all add: image_at_def)
  let ?f = "h_Flags h OR FlagCompressed" and ?v = "h_Version h"
  let ?s1 = "store_file (path_of dir @ [''device.zst'']) c s"
  let ?s2 = "store_file (path_of dir @ [''manifest.bin'']) (manifestBytes es ?f ?v) ?s1"
  let ?s3 = "remove_tree (path_of dir @ [''device.bin'']) ?s2"
  have wm: "can_write s (path_of dir @ [''manifest.bin''])" using has_manifest_can_write [OF man] .
  have man1: "has_manifest ?s1 dir es h" using man by (simp add: image_store)
  have run1: "CompressDevice z dir s = (Ret (), ?s2)"
    using has_file_read [OF dfile] has_manifest_read [OF man1] enc no_faults room wm
    by (simp add: CompressDevice_def bindA_step deviceZst_def os_WriteFile_ok WriteManifestFlags_def
        can_write_store_in)
  have wf2: "wf_os ?s2" using wf room wm by (intro wf_os_store_file) (simp_all add: can_write_store_in)
  have d2: "has_file ?s2 dir ''device.bin'' dev" "has_file ?s2 dir ''device.zst'' c"
    using dfile by (simp_all add: image_store)
  have m2: "has_manifest ?s2 dir es (manifestHeader es ?f ?v)"
    using has_manifest_rewrite [OF man] by (simp add: image_store)
  have run2: "os_Remove (Join dir ''device.bin'') ?s2 = (Ret (), ?s3)"
    using os_Remove_file [of ?s2 "Join dir ''device.bin''"] has_file_node [OF d2(1)] no_faults by simp
  have m3: "has_manifest ?s3 dir es (manifestHeader es ?f ?v)"
    using removed_keeps_manifest [OF wf2 d2(1) m2] .
  have z3: "has_file ?s3 dir ''device.zst'' c" using removed_keeps_file [OF wf2 d2] by simp
  have dir2: "node_at ?s2 (path_of dir) = Some DirN"
    using wf_osD [OF wf2, of "path_of dir @ [''device.bin'']"] has_file_node [OF d2(1)] by simp
  have "\<not> prefix (path_of dir @ [''device.bin'']) (path_of dir)" by (auto dest: prefix_length_le)
  then have w3: "can_write ?s3 (path_of dir @ [''device.bin''])"
    using dir2 by (simp add: can_write_def node_at_remove_in)
  let ?s4 = "store_file (path_of dir @ [''device.bin'']) dev ?s3"
  let ?s5 = "store_file (path_of dir @ [''manifest.bin'']) (manifestBytes es (?f AND NOT FlagCompressed) ?v) ?s4"
  have "DecompressDevice z dir ?s3 = (Ret (), ?s5)"
    using has_manifest_read [OF m3] has_file_read [OF z3] dec w3 no_faults has_manifest_can_write [OF m3]
    by (simp add: DecompressDevice_def bindA_step deviceZst_def os_WriteFile_ok WriteManifestFlags_def
        can_write_store_in)
  then have run3: "EnsureDeviceMaterialized (Suc n) z dir ?s3 = (Ret (), ?s5)"
    using has_manifest_header [OF m3] img(2) by (simp add: bindA_step plain_flags_def)
  have "image_at ?s5 dir es (manifestHeader es (?f AND NOT FlagCompressed) ?v) dev"
    using has_manifest_rewrite [OF man] by (simp add: image_at_def image_store)
  moreover have "plain_flags (manifestHeader es (?f AND NOT FlagCompressed) ?v)"
    using img(2) by (simp add: plain_flags_def)
  ultimately show ?thesis using run1 run2 run3 by (auto simp: bindA_step simp del: EnsureDeviceMaterialized.simps)
qed

theorem compress_roundtrip_witness:
  "\<exists>t. bindA (CompressDevice demo_zstd ''img'') (\<lambda>_. bindA (os_Remove (Join ''img'' ''device.bin'')) (\<lambda>_.
      EnsureDeviceMaterialized 1 demo_zstd ''img'')) (demo_pair [] [] [demo_entry 1 0 2 7] [1, 2]) = (Ret (), t) \<and>
    (\<exists>h'. image_at t ''img'' [demo_entry 1 0 2 7] h' [1, 2] \<and> plain_flags h')"
  using compress_roundtrip [of "demo_pair [] [] [demo_entry 1 0 2 7] [1, 2]" "''img''"
      "[demo_entry 1 0 2 7]" "manifestHeader [demo_entry 1 0 2 7] 0 2" "[1, 2]" demo_zstd "[1, 1, 2]" 0]
    demo_pair_facts [of "[]" "[demo_entry 1 0 2 7]" "[]" "[1, 2]"]
  by (simp add: demo_zstd_def)

end
