(* ===== verification/Demo_Host.thy ===== *)
theory Demo_Host
  imports Host_Invariant Rpc_Theorems Delta_Theorems
begin

text \<open>A small host and a set of parameters for the witnesses of the theories about it.\<close>

text \<open>Process 7 exits 2.95 s after a \<open>SIGTERM\<close>, process 8 never does.\<close>

definition demo_host :: "(path \<times> node) list \<Rightarrow> host" where
  "demo_host ns =
     \<lparr>nodes = ns, mtimes = (\<lambda>_. 0), clock = 0, faults = [], env = [], servers = [], conns = [], h_stdout = [],
      h_stderr = [], h_metrics = NewRegistry,
      h_procs = [(7, \<lparr>pr_exits = Some 2950000000, pr_gone = None\<rparr>), (8, \<lparr>pr_exits = None, pr_gone = None\<rparr>)],
      h_arrivals = []\<rparr>"

definition demo_ext :: ext where
  "demo_ext = \<lparr>x_cuda = demo_cuda, x_zstd = demo_zstd, x_chain = 4, x_rounds = 100, x_depth = 8,
     x_exec = (\<lambda>_ _ _. retA ([], None)), x_look = (\<lambda>_. True), x_bind = (\<lambda>_. None), x_events = [],
     x_stdin = [], x_stop = None\<rparr>"

text \<open>An orchestrator on the fake backend.\<close>

definition demo_orc :: Orchestrator where
  "demo_orc = \<lparr>o_criu = fakeBackend \<lparr>f_RestorePID = 9, f_DumpErr = None, f_RestoreErr = None\<rparr>, o_cfg = builtin\<rparr>"

end
