(* ===== verification/Validate_Theorems.thy ===== *)
theory Validate_Theorems
  imports Demo_Host
begin

text \<open>
  What checking an image establishes: \<open>verifyImage\<close> of \<open>orchestrator.go\<close> and
  \<open>validate.go\<close>, and what \<open>preflight.go\<close> then still asks for. After the device file
  has been materialised the checks only read.
\<close>

section \<open>Reading\<close>

definition reads_only :: "('s, 'a) act \<Rightarrow> bool" where
  "reads_only m \<longleftrightarrow> (\<forall>s. keeps (\<lambda>t. t = s) m)"

lemma reads_onlyD: "reads_only m \<Longrightarrow> m s = (r, t) \<Longrightarrow> t = s"
  by (metis (mono_tags, lifting) keepsD reads_only_def)

lemma statAll_reads: "keeps P (statAll dir names)"
  by (induction names) (simp_all only: statAll.simps, (intro keeps_structure | assumption)+)

lemma sidecar_reads: "keeps P (ReadMeta path)" "keeps P (ReadManifest path)" "keeps P (IsComplete dir)" "keeps P (os_Stat path)"
  unfolding ReadMeta_def ReadManifest_def IsComplete_def by (intro keeps_structure)+

lemma checks_read: "reads_only (statAll dir names)" "reads_only (ReadMeta path)" "reads_only (IsComplete dir)"
    "reads_only (PreflightRestore dir)" "reads_only (os_Stat path)"
  unfolding reads_only_def PreflightRestore_def by (intro allI keeps_structure statAll_reads sidecar_reads)+

section \<open>Chunks\<close>

text \<open>The bytes of an entry are in the device file and have the checksum the manifest gives.\<close>

fun node_bytes :: "node \<Rightarrow> bytes" where
  "node_bytes (FileN b) = b"
| "node_bytes _ = []"

definition entry_intact :: "bytes \<Rightarrow> Entry \<Rightarrow> bool" where
  "entry_intact dev e \<longleftrightarrow>
     (unat (e_Size e) \<noteq> 0 \<longrightarrow> unat (e_Offset e) + unat (e_Size e) \<le> length dev) \<and>
     CRC32C (take (unat (e_Size e)) (drop (unat (e_Offset e)) dev)) = e_CRC32C e"

lemma VerifyChunk_intact:
  assumes "VerifyChunk name f (sint (e_Offset e)) (sint (e_Size e)) (e_CRC32C e) = Ret True"
  shows "entry_intact (node_bytes f) e"
proof -
  have "0 \<le> sint (e_Size e)" "0 \<le> sint (e_Offset e)"
    using assms by (auto simp: VerifyChunk_def makeslice_ok_def file_ReadAt_def split: if_splits)
  then have n: "nat (sint (e_Size e)) = unat (e_Size e)" "nat (sint (e_Offset e)) = unat (e_Offset e)"
    by (simp_all add: sint_nonneg_unat)
  show ?thesis
    using assms unfolding VerifyChunk_def n
    by (cases f) (auto simp: file_ReadAt_def entry_intact_def n chunk_def split: if_splits)
qed

lemma verifyChunks_intact: "verifyChunks name f es = Ret () \<Longrightarrow> e \<in> set es \<Longrightarrow> entry_intact (node_bytes f) e"
  by (induction name f es rule: verifyChunks.induct) (auto dest: VerifyChunk_intact split: outcome.splits if_splits)

lemma verifyImage_intact:
  assumes "verifyImage x dir s = (Ret (), t)"
  obtains es hdr f where "ReadManifest (Join dir ''manifest.bin'') t = (Ret (es, hdr), t)" and "h_Magic hdr = Magic"
    and "node_at t (path_of (Join dir ''device.bin'')) = Some f" and "\<And>e. e \<in> set es \<Longrightarrow> entry_intact (node_bytes f) e"
proof -
  from assms obtain s1 tier s2 es hdr s3 f s4 where tier: "Tier_New dir s1 = (Ret tier, s2)"
    and man: "ReadManifest (ManifestPath tier) s2 = (Ret (es, hdr), s3)" and magic: "h_Magic hdr = Magic"
    and opn: "os_Open (DevicePath tier) s3 = (Ret f, s4)" and ok: "verifyChunks (DevicePath tier) f es = Ret ()" and t: "t = s4"
    by (auto simp: verifyImage_def elim!: bindA_RetE split: if_splits)
  have "t_Dir tier = dir" using tier by (auto simp: Tier_New_def elim!: bindA_RetE)
  moreover have "s3 = s2" using man ReadManifest_pure [of "ManifestPath tier" s2] by simp
  moreover have "s4 = s3" and "node_at s4 (path_of (DevicePath tier)) = Some f"
    using opn by (auto simp: os_Open_def split: option.splits node.splits)
  ultimately show ?thesis
    using that [of es hdr f] man magic t verifyChunks_intact [OF ok] by (simp add: ManifestPath_def DevicePath_def)
qed

section \<open>Validation\<close>

lemma statAll_Ret_iff:
  "statAll dir names s = (Ret (), t) \<longleftrightarrow> t = s \<and> (\<forall>n \<in> set names. node_at s (path_of (Join dir n)) \<noteq> None)"
  by (induction names) (auto simp: bindA_def wrapA_def os_Stat_def split: option.splits)

lemma statAll_Err_iff:
  "(\<exists>e. statAll dir names s = (Err e, s)) \<longleftrightarrow> \<not> (\<forall>n \<in> set names. node_at s (path_of (Join dir n)) \<noteq> None)"
  by (induction names) (auto simp: bindA_def wrapA_def os_Stat_def split: option.splits)

lemma ValidateImage_facts:
  assumes "ValidateImage x dir s = (Ret (), t)"
  obtains es hdr f m where "ReadManifest (Join dir ''manifest.bin'') t = (Ret (es, hdr), t)" and "h_Magic hdr = Magic"
    and "node_at t (path_of (Join dir ''device.bin'')) = Some f" and "\<And>e. e \<in> set es \<Longrightarrow> entry_intact (node_bytes f) e"
    and "IsComplete dir t = (Ret True, t)" and "ReadMeta (Join dir ''meta.bin'') t = (Ret m, t)" and "m_Preload m \<noteq> []"
    and "node_at t (path_of (Join dir ''meta.bin'')) \<noteq> None" and "node_at t (path_of (Join dir ''criu'')) \<noteq> None"
proof -
  from assms obtain s1 s2 s3 s4 m where "verifyImage x dir s = (Ret (), s1)"
    and st: "statAll dir [''dev.bin'', ''meta.bin'', ''criu''] s1 = (Ret (), s2)"
    and co: "IsComplete dir s2 = (Ret True, s3)" and me: "ReadMeta (Join dir ''meta.bin'') s3 = (Ret m, s4)"
    and pre: "m_Preload m \<noteq> []" and t: "t = s4"
    unfolding ValidateImage_def by (auto elim!: bindA_RetE split: if_splits simp del: statAll.simps)
  then have s1: "s2 = s1" "s3 = s1" "s4 = s1" "verifyImage x dir s = (Ret (), t)"
    using reads_onlyD [OF checks_read(1) st] reads_onlyD [OF checks_read(3) co] reads_onlyD [OF checks_read(2) me] by simp_all
  have n: "node_at t (path_of (Join dir ''meta.bin'')) \<noteq> None" "node_at t (path_of (Join dir ''criu'')) \<noteq> None"
    using st s1(1-3) t unfolding statAll_Ret_iff by simp_all
  have c: "IsComplete dir t = (Ret True, t)" "ReadMeta (Join dir ''meta.bin'') t = (Ret m, t)"
    using co me t s1(1-3) by simp_all
  show ?thesis
    by (rule verifyImage_intact [OF s1(4)]) (rule that [OF _ _ _ _ c pre n])
qed

text \<open>C3: an image that \<open>ValidateImage\<close> accepts is usable, in the state the call leaves: its
  manifest parses and has the magic number, the bytes of every entry lie inside the device file
  and have the checksum recorded for them, the image is finalised, and its metadata parses and
  names the library to preload.\<close>

theorem ValidateImage_sound:
  assumes "ValidateImage x dir s = (Ret (), t)"
  shows "\<exists>es hdr f m. ReadManifest (Join dir ''manifest.bin'') t = (Ret (es, hdr), t) \<and> h_Magic hdr = Magic \<and>
    node_at t (path_of (Join dir ''device.bin'')) = Some f \<and> (\<forall>e \<in> set es. entry_intact (node_bytes f) e) \<and>
    IsComplete dir t = (Ret True, t) \<and> ReadMeta (Join dir ''meta.bin'') t = (Ret m, t) \<and> m_Preload m \<noteq> []"
  by (rule ValidateImage_facts [OF assms]) blast

text \<open>C23: what validation and the check before a restore disagree on. A validated image passes
  \<open>PreflightRestore\<close> exactly when it has an allocation and, if its flags say compressed, still
  has the compressed file: an image of a process without GPU memory is valid and can never be
  restored.\<close>

theorem validated_preflight:
  assumes "ValidateImage x dir s = (Ret (), t)" and "ReadManifest (Join dir ''manifest.bin'') t = (Ret (es, hdr), t)"
  shows "PreflightRestore dir t = (Ret (), t) \<longleftrightarrow>
    h_Count hdr \<noteq> 0 \<and> (HasFlag (h_Flags hdr) FlagCompressed \<longrightarrow> node_at t (path_of (Join dir ''device.zst'')) \<noteq> None)"
proof -
  obtain f m where magic: "h_Magic hdr = Magic"
    and dev: "node_at t (path_of (Join dir ''device.bin'')) = Some f"
    and co: "IsComplete dir t = (Ret True, t)" and me: "ReadMeta (Join dir ''meta.bin'') t = (Ret m, t)" "m_Preload m \<noteq> []"
    and n: "node_at t (path_of (Join dir ''meta.bin'')) \<noteq> None" "node_at t (path_of (Join dir ''criu'')) \<noteq> None"
    by (rule ValidateImage_facts [OF assms(1)]) (use assms(2) in auto)
  have "node_at t (path_of (Join dir ''manifest.bin'')) \<noteq> None" using assms(2) by (auto simp: ReadManifest_Ret_iff)
  with n have "statAll dir [''manifest.bin'', ''meta.bin'', ''criu''] t = (Ret (), t)" by (simp only: statAll_Ret_iff) simp
  then have "PreflightRestore dir t = (if h_Magic hdr \<noteq> Magic \<or> h_Count hdr = 0 then errA (E Invalid ''empty manifest'')
      else if HasFlag (h_Flags hdr) FlagCompressed then
        bindA (wrapA Invalid ''device.zst'' (os_Stat (Join dir ''device.zst''))) (\<lambda>_. retA ())
      else bindA (tryA (os_Stat (Join dir ''device.bin''))) (\<lambda>r. case r of
        Inl err \<Rightarrow> if \<not> HasFlag (h_Flags hdr) FlagDelta then errA (Wrap Invalid ''device.bin'' (Some err)) else retA ()
      | Inr _ \<Rightarrow> retA ())) t"
    using co me assms(2) by (simp add: PreflightRestore_def bindA_step wrapA_step del: statAll.simps)
  then show ?thesis
    using magic dev by (auto simp: os_Stat_def bindA_def wrapA_def tryA_step split: option.splits)
qed

section \<open>Witnesses\<close>

text \<open>A finished image of one allocation of two bytes.\<close>

definition demo_image_meta :: Meta where
  "demo_image_meta = \<lparr>m_Magic = MetaMagic, m_Version = 1, m_Flags = 0, m_Pid = 7, m_Dev = 0, m_Preload = ''shim.so'', m_Visible = []\<rparr>"

definition demo_image :: "Entry list \<Rightarrow> os_state" where
  "demo_image es = demo_os
     [([''.'', ''img''], DirN), ([''.'', ''img'', ''manifest.bin''], FileN (manifestBytes es 0 2)),
      ([''.'', ''img'', ''device.bin''], FileN [1, 2]), ([''.'', ''img'', ''dev.bin''], FileN [0, 0, 0, 0]),
      ([''.'', ''img'', ''meta.bin''], FileN (metaBytes demo_image_meta)),
      ([''.'', ''img'', ''criu''], DirN), ([''.'', ''img'', ''COMPLETE''], FileN [])]"

lemma demo_image_meta_parse: "parseMeta (metaBytes demo_image_meta) = Inr (metaClean demo_image_meta)" "m_Preload (metaClean demo_image_meta) = ''shim.so''"
  by code_simp+

lemma demo_image_valid:
  assumes "length es < 2 ^ 32" and "verifyChunks ''img/device.bin'' (FileN [1, 2]) es = Ret ()"
  shows "ValidateImage demo_ext ''img'' (demo_image es) = (Ret (), demo_image es)"
    and "ReadManifest (Join ''img'' ''manifest.bin'') (demo_image es) = (Ret (es, manifestHeader es 0 2), demo_image es)"
proof -
  let ?s = "demo_image es"
  have n: "node_at ?s [''.'', ''img'', ''manifest.bin''] = Some (FileN (manifestBytes es 0 2))"
    "node_at ?s [''.'', ''img'', ''device.bin''] = Some (FileN [1, 2])" "node_at ?s [''.'', ''img''] = Some DirN"
    "node_at ?s [''.'', ''img'', ''meta.bin''] = Some (FileN (metaBytes demo_image_meta))"
    "node_at ?s [''.'', ''img'', ''dev.bin''] \<noteq> None" "node_at ?s [''.'', ''img'', ''criu''] \<noteq> None"
    "node_at ?s [''.'', ''img'', ''COMPLETE''] \<noteq> None"
    by (simp_all add: demo_image_def demo_os_def node_at_def)
  show man: "ReadManifest (Join ''img'' ''manifest.bin'') ?s = (Ret (es, manifestHeader es 0 2), ?s)"
    using n assms(1) by (simp add: ReadManifest_Ret_iff demo_path plain_def demo_parse)
  show "ValidateImage demo_ext ''img'' ?s = (Ret (), ?s)"
  proof -
    have img: "image_at ?s ''img'' es (manifestHeader es 0 2) [1, 2]"
      using n assms(1) by (simp add: image_at_def has_manifest_def has_file_def demo_path demo_parse)
    have ens: "EnsureDeviceMaterialized (x_chain demo_ext) (x_zstd demo_ext) ''img'' ?s = (Ret (), ?s)"
      using Ensure_plain [OF img demo_plain_flags, of 3] by (simp add: demo_ext_def numeral_eq_Suc)
    have "os_MkdirAll ''img'' ?s = (Ret (), ?s)"
      by (simp add: os_MkdirAll_def Let_def demo_path make_dirs_def mkdir_step_def demo_image_def demo_os_def node_at_def
          pop_fault_def next_fault_def)
    then have tier: "Tier_New ''img'' ?s = (Ret \<lparr>t_Dir = ''img''\<rparr>, ?s)" by (simp add: Tier_New_def bindA_step)
    have opn: "os_Open (Join ''img'' ''device.bin'') ?s = (Ret (FileN [1, 2]), ?s)"
      using n by (simp add: os_Open_def demo_path plain_def)
    have name: "Join ''img'' ''device.bin'' = ''img/device.bin''" by code_simp
    have ver: "verifyImage demo_ext ''img'' ?s = (Ret (), ?s)"
      using ens tier man opn assms(2)
      by (simp add: verifyImage_def ManifestPath_def DevicePath_def bindA_step wrapA_step name manifestHeader_def)
    have st: "statAll ''img'' [''dev.bin'', ''meta.bin'', ''criu''] ?s = (Ret (), ?s)"
      using n by (simp add: statAll_Ret_iff demo_path plain_def del: statAll.simps)
    have "IsComplete ''img'' ?s = (Ret True, ?s)"
      using n by (auto simp: IsComplete_def bindA_step tryA_def os_Stat_def completeName_def demo_path plain_def)
    moreover have "ReadMeta (Join ''img'' ''meta.bin'') ?s = (Ret (metaClean demo_image_meta), ?s)"
      using n by (simp add: ReadMeta_def bindA_step os_ReadFile_file demo_path plain_def demo_image_meta_parse)
    ultimately show ?thesis
      using ver st by (simp add: ValidateImage_def bindA_step wrapA_step demo_image_meta_parse del: statAll.simps)
  qed
qed

lemma demo_chunk_ok: "verifyChunks ''img/device.bin'' (FileN [1, 2]) [demo_entry 1 0 2 (CRC32C [1, 2])] = Ret ()"
  by (simp add: VerifyChunk_def makeslice_ok_def file_ReadAt_def demo_entry_def chunk_def)

theorem ValidateImage_witness:
  "\<exists>es hdr f m. ReadManifest (Join ''img'' ''manifest.bin'') (demo_image [demo_entry 1 0 2 (CRC32C [1, 2])]) =
      (Ret (es, hdr), demo_image [demo_entry 1 0 2 (CRC32C [1, 2])]) \<and> h_Magic hdr = Magic"
  using ValidateImage_sound [OF demo_image_valid(1) [OF _ demo_chunk_ok]] by auto

theorem validated_preflight_witness:
  "PreflightRestore ''img'' (demo_image []) \<noteq> (Ret (), demo_image []) \<and>
   PreflightRestore ''img'' (demo_image [demo_entry 1 0 2 (CRC32C [1, 2])]) =
     (Ret (), demo_image [demo_entry 1 0 2 (CRC32C [1, 2])])"
proof
  show "PreflightRestore ''img'' (demo_image []) \<noteq> (Ret (), demo_image [])"
    using validated_preflight [OF demo_image_valid [of "[]"]] by (simp add: manifestHeader_def)
  show "PreflightRestore ''img'' (demo_image [demo_entry 1 0 2 (CRC32C [1, 2])]) =
      (Ret (), demo_image [demo_entry 1 0 2 (CRC32C [1, 2])])"
    using validated_preflight [OF demo_image_valid [OF _ demo_chunk_ok]] by (simp add: manifestHeader_def HasFlag_def)
qed

end
