(* ===== verification/Program_Theorems.thy ===== *)
theory Program_Theorems
  imports Validate_Theorems
begin

text \<open>
  Properties of whole commands: what any run of the program keeps of the host, and what a
  checkpoint counts.
\<close>

section \<open>Any command\<close>



section \<open>Counting checkpoints\<close>

lemma log_keeps_metrics [simp]: "h_metrics (snd (log_Info n fs h)) = h_metrics h" "h_metrics (snd (log_Error n e fs h)) = h_metrics h"
  using keepsD [OF hmetrics.log(1) refl] keepsD [OF hmetrics.log(2) refl] by (metis prod.collapse)+

lemma reportCheckpoint_counts:
  assumes "keeps (\<lambda>h. h_metrics h = h_metrics h0) m" and "h_metrics h0 = h_metrics h"
    and "reportCheckpoint pid out m h = (r, h')"
  shows "reg_count (h_metrics h') n = reg_count (h_metrics h) n +
    (if n = CheckpointsTotal \<and> r = Ret () \<or> n = CheckpointFailures \<and> (\<exists>e. r = Err e) then 1 else 0)"
proof -
  obtain o1 h1 where m: "m h = (o1, h1)" by fastforce
  have k: "h_metrics h1 = h_metrics h" using keepsD [OF assms(1) _ m] assms(2) by simp
  have ne: "CheckpointsTotal \<noteq> CheckpointFailures" by (simp add: metric_names)
  have info: "log_Info a fs g = (Ret (), snd (log_Info a fs g))" and err: "log_Error a e fs g = (Ret (), snd (log_Error a e fs g))" for a e fs g
    by (simp_all add: prod_eq_iff)
  show ?thesis
  proof (cases o1)
    case (Ret u)
    then have run: "log_Info ''checkpoint_ok'' [(''pid'', JInt pid), (''dir'', JStr out)]
        (h1\<lparr>h_metrics := reg_Inc CheckpointsTotal (h_metrics h1)\<rparr>) = (r, h')"
      using m assms(3) by (simp add: reportCheckpoint_def bindA_step tryA_step)
    from arg_cong [OF run, of fst] arg_cong [OF run, of snd] show ?thesis
      using k ne by (auto simp: reg_count_Inc)
  next
    case (Err e)
    then show ?thesis using m k assms(3) ne
      by (auto simp: reportCheckpoint_def bindA_step tryA_step bindA_step(1) [OF err] reg_count_Inc)
  qed (use m k assms(3) in \<open>auto simp: reportCheckpoint_def bindA_step tryA_step\<close>)
qed

text \<open>C19: a checkpoint is counted exactly once, however many attempts it takes: a call that
  succeeds adds one to \<open>cudackpt_checkpoints_total\<close>, one that returns an error adds one to
  \<open>cudackpt_checkpoint_failures_total\<close>, and no other counter or gauge moves, for any shim,
  disk and log. (The \<open>criu\<close> backend is assumed not to touch the registry.)\<close>

theorem checkpoint_counted_once:
  assumes "\<And>pid dir r. keeps (\<lambda>h. h_metrics h = r) (b_Dump (o_criu oc) pid dir)"
    and "EnqueueCheckpoint x oc pid out h = (r, h')"
  shows "reg_count (h_metrics h') n = reg_count (h_metrics h) n +
    (if n = CheckpointsTotal \<and> r = Ret () \<or> n = CheckpointFailures \<and> (\<exists>e. r = Err e) then 1 else 0)"
proof -
  have "keeps (\<lambda>g. h_metrics g = h_metrics h) (applyRetry sleepH policy (\<lambda>attempt.
      bindA (log_Info ''checkpoint_attempt'' [(''pid'', JInt pid), (''attempt'', JInt attempt)]) (\<lambda>_.
        doCheckpoint x oc pid out)) stopRetry)" for policy
    unfolding applyRetry_def
    by (intro hmetrics.irules hmetrics.retryLoop hmetrics.log hmetrics.doCheckpoint assms(1))
  then show ?thesis
    using reportCheckpoint_counts [OF _ refl] assms(2)
    by (fastforce simp: EnqueueCheckpoint_def CheckpointWithRetry_def Let_def)
qed

theorem checkpoint_counted_witness:
  "\<exists>r h'. EnqueueCheckpoint demo_ext demo_orc 7 ''img'' (demo_host []) = (r, h') \<and>
     reg_count (h_metrics h') CheckpointsTotal = (if r = Ret () then 1 else 0) \<and>
     reg_count (h_metrics h') CheckpointFailures = (if \<exists>e. r = Err e then 1 else 0)"
proof -
  have dump: "keeps (\<lambda>h. h_metrics h = r) (b_Dump (o_criu demo_orc) pid dir)" for pid dir r
    by (simp add: demo_orc_def fakeBackend_def fake_Dump_def) (intro hmetrics.irules)
  obtain r h' where run: "EnqueueCheckpoint demo_ext demo_orc 7 ''img'' (demo_host []) = (r, h')" by fastforce
  have "reg_count (h_metrics (demo_host [])) n = 0" for n
    by (simp add: demo_host_def NewRegistry_def reg_count_def)
  moreover have "CheckpointsTotal \<noteq> CheckpointFailures" by (simp add: metric_names)
  ultimately show ?thesis
    using run checkpoint_counted_once [OF dump run, of CheckpointsTotal]
      checkpoint_counted_once [OF dump run, of CheckpointFailures] by simp
qed

section \<open>What a checkpoint leaves\<close>

lemma WriteStaging_success:
  assumes "WriteStaging dest fn s = (Ret (), t)" and "wf_os s" and "plain (base_part dest)"
    and "keeps wf_os (fn (StageDir dest))"
  obtains s1 s2 where "fn (StageDir dest) s1 = (Ret (), s2)" and "tree_moved (path_of (StageDir dest)) (path_of dest) s2 t"
    and "off_disk s1 = off_disk s" and "wf_os s1"
proof -
  from assms(1) obtain a s0 u s1 b s2 where rm: "tryA (os_RemoveAll (StageDir dest)) s = (Ret a, s0)"
    and mk: "os_MkdirAll (StageDir dest) s0 = (Ret u, s1)" and fn: "tryA (fn (StageDir dest)) s1 = (Ret b, s2)"
    and fin: "(case b of Inl err \<Rightarrow> bindA (tryA (os_RemoveAll (StageDir dest))) (\<lambda>_. errA err)
        | Inr _ \<Rightarrow> Finalize (StageDir dest) dest) s2 = (Ret (), t)"
    by (auto simp: WriteStaging_def Let_def elim!: bindA_RetE)
  have wf1: "wf_os s1"
    using keepsD [OF keeps_wf_os_MkdirAll keepsD [OF keeps_tryA [OF keeps_wf_os_RemoveAll] assms(2) rm] mk] .
  have "off_disk s1 = off_disk s"
    using keepsD [OF off.MkdirAll keepsD [OF keeps_tryA [OF off.RemoveAll] refl rm] mk] by simp
  moreover have ok: "fn (StageDir dest) s1 = (Ret (), s2)" and "Finalize (StageDir dest) dest s2 = (Ret (), t)"
    using fn fin by (cases b; auto elim!: tryA_RetE bindA_RetE)+
  ultimately show ?thesis
    using that [OF ok _ _ wf1] Finalize_cases [OF _ keepsD [OF assms(4) wf1 ok] assms(3)] by auto
qed

lemma checkpointBody_meta:
  assumes "checkpointBody x oc pid opts staging h = (Ret (), t)"
    and "\<And>e. keeps (\<lambda>h. env h = e) (b_Dump (o_criu oc) pid staging)"
  obtains dev where "node_at t (path_of staging @ [''meta.bin'']) =
    Some (FileN (metaBytes \<lparr>m_Magic = 0, m_Version = 0, m_Flags = 0, m_Pid = word_of_int pid, m_Dev = dev,
       m_Preload = Getenv ''LD_PRELOAD'' h, m_Visible = Getenv ''CUDA_VISIBLE_DEVICES'' h\<rparr>))"
proof -
  let ?p = "\<lambda>g. env g = env h"
  from assms(1) obtain h1 h2 h3 h4 dev h5 m h6 where r1: "orc_Freeze x oc pid h = (Ret (), h1)"
    and r2: "orc_Snapshot x oc pid staging h1 = (Ret (), h2)"
    and r3: "ProcessImage (x_chain x) (x_zstd x) staging opts h2 = (Ret (), h3)"
    and r4: "b_Dump (o_criu oc) pid staging h3 = (Ret (), h4)"
    and r5: "tryA (ReadDev (Join staging ''dev.bin'')) h4 = (Ret dev, h5)"
    and r6: "readA (\<lambda>h. Ret \<lparr>m_Magic = 0, m_Version = 0, m_Flags = 0, m_Pid = word_of_int pid,
         m_Dev = (case dev of Inl _ \<Rightarrow> 0 | Inr d \<Rightarrow> d), m_Preload = Getenv ''LD_PRELOAD'' h,
         m_Visible = Getenv ''CUDA_VISIBLE_DEVICES'' h\<rparr>) h5 = (Ret m, h6)"
    and r7: "WriteMeta (Join staging ''meta.bin'') m h6 = (Ret (), t)"
    unfolding checkpointBody_def by (auto elim!: bindA_RetE simp del: readA_apply)
  have "?p h5"
    using keepsD [OF keeps_tryA [OF henv.sidecars(3)] keepsD [OF assms(2) keepsD [OF henv.ProcessImage
      keepsD [OF henv.shim(5) keepsD [OF henv.shim(4) refl r1] r2] r3] r4] r5] .
  then have "Getenv k h5 = Getenv k h" for k by (simp add: Getenv_def)
  then show ?thesis
    using that [of "case dev of Inl _ \<Rightarrow> 0 | Inr d \<Rightarrow> d"] r6 os_WriteFile_node_at [OF r7 [unfolded WriteMeta_def]] by simp
qed

text \<open>C20: what a successful checkpoint leaves at its destination: the completion mark, and metadata
  with the process number and with \<open>LD_PRELOAD\<close> and \<open>CUDA_VISIBLE_DEVICES\<close> as they are in
  the environment of the checkpointing program, not of the checkpointed process. So a
  checkpoint taken by a program that was itself started without \<open>LD_PRELOAD\<close> succeeds and can
  never be restored.\<close>

theorem checkpoint_metadata:
  assumes "doCheckpoint x oc pid out h = (Ret (), t)" and "wf_os h" and "out \<noteq> []" and "plain (base_part out)"
    and "\<And>pid dir. keeps wf_os (b_Dump (o_criu oc) pid dir)"
    and "\<And>pid dir e. keeps (\<lambda>h. env h = e) (b_Dump (o_criu oc) pid dir)"
    and "length (Getenv ''LD_PRELOAD'' h) < 2 ^ 32" and "length (Getenv ''CUDA_VISIBLE_DEVICES'' h) < 2 ^ 32"
  shows "IsComplete out t = (Ret True, t) \<and>
    (\<exists>m. ReadMeta (Join out ''meta.bin'') t = (Ret m, t) \<and> m_Pid m = word_of_int pid \<and>
      m_Preload m = Getenv ''LD_PRELOAD'' h \<and> m_Visible m = Getenv ''CUDA_VISIBLE_DEVICES'' h) \<and>
    (Getenv ''LD_PRELOAD'' h = [] \<longrightarrow> (\<exists>e. PreflightRestore out t = (Err e, t)))"
proof -
  from assms(1,3) obtain h1 opts where log: "log_Info ''checkpoint_start'' [(''pid'', JInt pid), (''dir'', JStr out)] h = (Ret (), h1)"
    and run: "WriteStaging out (checkpointBody x oc pid opts) h1 = (Ret (), t)"
    unfolding doCheckpoint_def by (auto simp: bindA_readA elim!: bindA_RetE)
  have wf1: "wf_os h1" and env1: "env h1 = env h"
    using keepsD [OF hwf.log(1) assms(2) log] keepsD [OF henv.log(1) refl log] .
  obtain s1 s2 where body: "checkpointBody x oc pid opts (StageDir out) s1 = (Ret (), s2)"
    and mv: "tree_moved (path_of (StageDir out)) (path_of out) s2 t" and off: "off_disk s1 = off_disk h1"
    using WriteStaging_success [OF run wf1 assms(4) hwf.checkpointBody [OF assms(5)]] .
  have env: "Getenv k s1 = Getenv k h" for k using off_disk_host(2) [OF off] env1 by (simp add: Getenv_def)
  obtain dev where "node_at s2 (path_of (StageDir out) @ [''meta.bin'']) =
    Some (FileN (metaBytes \<lparr>m_Magic = 0, m_Version = 0, m_Flags = 0, m_Pid = word_of_int pid, m_Dev = dev,
       m_Preload = Getenv ''LD_PRELOAD'' h, m_Visible = Getenv ''CUDA_VISIBLE_DEVICES'' h\<rparr>))" (is "_ = Some (FileN (metaBytes ?m))")
    using checkpointBody_meta [OF body assms(6)] unfolding env by blast
  then have n: "node_at t (path_of out @ [''meta.bin'']) = Some (FileN (metaBytes ?m))"
    and c: "node_at t (path_of out @ [''COMPLETE'']) \<noteq> None"
    using mv by (simp_all add: tree_moved_def)
  have co: "IsComplete out t = (Ret True, t)"
    using c by (auto simp: IsComplete_def bindA_step tryA_def os_Stat_def completeName_path)
  have me: "ReadMeta (Join out ''meta.bin'') t = (Ret (metaClean ?m), t)"
    using n parseMeta_metaBytes [of ?m] assms(7,8) by (simp add: ReadMeta_def bindA_step os_ReadFile_file plain_def)
  have "\<exists>e. PreflightRestore out t = (Err e, t)" if none: "Getenv ''LD_PRELOAD'' h = []"
  proof (cases "\<forall>n \<in> {''manifest.bin'', ''meta.bin'', ''criu''}. node_at t (path_of (Join out n)) \<noteq> None")
    case True
    then have "statAll out [''manifest.bin'', ''meta.bin'', ''criu''] t = (Ret (), t)"
      by (simp only: statAll_Ret_iff) simp
    then show ?thesis
      using co me none by (simp add: PreflightRestore_def bindA_step wrapA_step metaClean_def del: statAll.simps)
  next
    case False
    then obtain e where "statAll out [''manifest.bin'', ''meta.bin'', ''criu''] t = (Err e, t)"
      using statAll_Err_iff [of out "[''manifest.bin'', ''meta.bin'', ''criu'']" t] by auto
    then show ?thesis using co by (simp add: PreflightRestore_def bindA_step del: statAll.simps)
  qed
  then show ?thesis using co me by (auto simp: metaClean_def)
qed

text \<open>A GPU whose snapshot is an image without allocations, under process 7.\<close>

definition demo_gpu :: ext where
  "demo_gpu = demo_ext\<lparr>x_chain := Suc 0, x_cuda := demo_cuda\<lparr>cu_snapshot :=
     Inr [(''device.bin'', [], - 2), (''manifest.bin'', manifestBytes [] 0 2, - 3)]\<rparr>\<rparr>"

definition demo_gpu_orc :: Orchestrator where
  "demo_gpu_orc = demo_orc\<lparr>o_cfg := builtin\<lparr>c_RunDir := ''/r''\<rparr>\<rparr>"

definition demo_gpu_host :: host where
  "demo_gpu_host = (demo_host [([''/'', ''r''], DirN), ([''/'', ''r'', ''7.sock''], SockN)])
     \<lparr>servers := [([''/'', ''r'', ''7.sock''], Shim \<lparr>sh_secret = [], sh_state = ST_RUNNING\<rparr>)]\<rparr>"

lemma log_Info_stderr: "Getenv ''CUDACKPT_LOG'' h = [] \<Longrightarrow> \<exists>b. log_Info n fs h = (Ret (), h\<lparr>h_stderr := b\<rparr>)"
  by (auto simp: log_Info_def emit_def)

lemma demo_checkpoint_staged:
  "fst (WriteStaging ''i'' (checkpointBody demo_gpu demo_gpu_orc 7 (OptsFromEnv demo_gpu_host)) (demo_gpu_host\<lparr>h_stderr := b\<rparr>)) = Ret ()"
  by code_simp

lemma demo_checkpoint: "fst (doCheckpoint demo_gpu demo_gpu_orc 7 ''i'' demo_gpu_host) = Ret ()"
proof -
  obtain b where "log_Info ''checkpoint_start'' [(''pid'', JInt 7), (''dir'', JStr ''i'')] demo_gpu_host =
      (Ret (), demo_gpu_host\<lparr>h_stderr := b\<rparr>)"
    using log_Info_stderr [of demo_gpu_host] by (auto simp: demo_gpu_host_def demo_host_def Getenv_def)
  moreover have "OptsFromEnv (demo_gpu_host\<lparr>h_stderr := b\<rparr>) = OptsFromEnv demo_gpu_host"
    by (simp add: OptsFromEnv_def ParentFromEnv_def Getenv_def)
  ultimately show ?thesis
    using demo_checkpoint_staged [of b] by (simp add: doCheckpoint_def Let_def bindA_step bindA_readA)
qed

theorem checkpoint_metadata_witness:
  "\<exists>t m e. doCheckpoint demo_gpu demo_gpu_orc 7 ''i'' demo_gpu_host = (Ret (), t) \<and> IsComplete ''i'' t = (Ret True, t) \<and>
     ReadMeta (Join ''i'' ''meta.bin'') t = (Ret m, t) \<and> m_Pid m = 7 \<and> m_Preload m = [] \<and> PreflightRestore ''i'' t = (Err e, t)"
proof -
  have dump: "keeps P (b_Dump (o_criu demo_gpu_orc) pid dir)" if "keeps P (os_MkdirAll (Join dir ''criu''))" for P pid dir
    using that by (simp add: demo_gpu_orc_def demo_orc_def fakeBackend_def fake_Dump_def keeps_rules)
  have wf: "wf_os demo_gpu_host" by (auto simp: wf_os_def node_at_def demo_gpu_host_def demo_host_def split: if_splits)
  have env: "Getenv k demo_gpu_host = []" for k by (simp add: demo_gpu_host_def demo_host_def Getenv_def)
  obtain t where t: "doCheckpoint demo_gpu demo_gpu_orc 7 ''i'' demo_gpu_host = (Ret (), t)"
    using demo_checkpoint by (metis prod.collapse)
  have "plain (base_part ''i'')" by code_simp
  then show ?thesis
    using t checkpoint_metadata [OF t wf _ _ dump [OF keeps_wf_os_MkdirAll] dump [OF henv.MkdirAll]] by (auto simp: env)
qed

end
