(* ===== verification/Rollback_Theorems.thy ===== *)
theory Rollback_Theorems
  imports Demo_Host
begin

text \<open>
  Stopping a process and rolling back (\<open>pkg/control/rollback.go\<close>). Whether a process is
  there depends only on the table of processes and the time, and one that is gone stays gone,
  so the polling loop is described by the one instant of its last look.
\<close>

section \<open>Processes over time\<close>





section \<open>The polling loop\<close>



section \<open>Stopping\<close>







section \<open>Rolling back\<close>



end
