(* ===== verification/Pipeline_Theorems.thy ===== *)
theory Pipeline_Theorems
  imports Delta_Theorems
begin

text \<open>
  The properties of the passes over an image and of the staging protocol.
\<close>

section \<open>Sparse index\<close>

text \<open>C16: after a successful \<open>ApplySparse\<close> on an image without an index, \<open>ReadSparse\<close> lists
  exactly the allocations of at least 4096 bytes that are entirely zero, in manifest order, and
  the manifest is flagged exactly when there is one; the device and the entries are unchanged.\<close>

theorem sparse_index_exact:
  assumes wf: "wf_os s" and man: "has_manifest s dir es h" and dfile: "has_file s dir ''device.bin'' dev"
    and none: "node_at s (path_of dir @ [''sparse.bin'']) = None"
    and run: "ApplySparse dir s = (Ret u, t)"
  shows "ReadSparse (Join dir ''sparse.bin'') t = (Ret (map sparseOf (filter (zeroEntry dev) es)), t) \<and>
    (\<exists>h'. has_manifest t dir es h' \<and>
      h_Flags h' = (if filter (zeroEntry dev) es = [] then h_Flags h else h_Flags h OR FlagSparse)) \<and>
    has_file t dir ''device.bin'' dev"
proof -
  let ?m = "Join dir ''manifest.bin''" and ?d = "Join dir ''device.bin''" and ?x = "Join dir ''sparse.bin''"
  let ?zs = "map sparseOf (filter (zeroEntry dev) es)"
  have op: "os_Open ?d s = (Ret (FileN dev), s)" using dfile by (simp add: has_file_def os_Open_def)
  have dt: "has_file t dir ''device.bin'' dev"
    using sitsD [OF sparse_stage.stage_frame [of "''device.bin''"] wf run] dfile by (simp add: has_file_def)
  from run obtain zs where "sparseLoop ?d (FileN dev) es [] = Ret zs"
    and rest: "(if zs = [] then retA () else bindA (os_WriteFile ?x (sparseBytes zs))
      (\<lambda>_. WriteManifestFlags ?m es (h_Flags h OR FlagSparse) (h_Version h))) s = (Ret u, t)"
    using has_manifest_read [OF man] op
    by (auto simp: ApplySparse_def Let_def elim!: bindA_RetE)
  then have zs: "zs = ?zs" using sparseLoop_Ret [of ?d dev es "[]" zs] by simp
  have len: "length ?zs < 2 ^ 32"
    using has_manifest_count [OF man] by (simp add: order.strict_trans1 [OF length_filter_le])
  show ?thesis
  proof (cases "?zs = []")
    case True
    then have "t = s" using rest zs by simp
    moreover have "IsNotExist (PathError ''open'' ?x (missing_errno s (path_of dir @ [''sparse.bin''])))"
      using missing_errno_parent [OF wf, of "path_of dir @ [''sparse.bin'']"]
        wf_osD [OF wf, of "path_of dir @ [''device.bin'']"] dfile by (simp add: has_file_def)
    ultimately show ?thesis
      using True man dfile none
      by (auto simp: ReadSparse_def os_Open_def bindA_readA tryA_def bindA_def)
  next
    case False
    then obtain v s1 where w1: "os_WriteFile ?x (sparseBytes ?zs) s = (Ret v, s1)"
      and w2: "WriteManifestFlags ?m es (h_Flags h OR FlagSparse) (h_Version h) s1 = (Ret u, t)"
      using rest zs by (auto elim!: bindA_RetE)
    have "node_at t (path_of ?x) = Some (FileN (sparseBytes ?zs))"
      using os_WriteFile_node_at [OF w1] os_WriteFile_node_at [OF w2 [unfolded WriteManifestFlags_def]] by simp
    then have "ReadSparse ?x t = (Ret ?zs, t)"
      using parseSparse_sparseBytes [OF len, of "[]"]
      by (simp add: ReadSparse_def os_Open_def bindA_step tryA_step)
    moreover have "has_manifest t dir es (manifestHeader es (h_Flags h OR FlagSparse) (h_Version h))"
      using os_WriteFile_node_at [OF w2 [unfolded WriteManifestFlags_def]] has_manifest_rewrite [OF man]
      by (simp add: has_manifest_def)
    ultimately show ?thesis using False dt by auto
  qed
qed

lemma ApplySparse_run:
  assumes man: "has_manifest s dir es h" and dfile: "has_file s dir ''device.bin'' dev"
    and "sparseLoop (Join dir ''device.bin'') (FileN dev) es [] = Ret zs"
    and "faults s = []" and "can_write s (path_of dir @ [''sparse.bin''])"
  shows "\<exists>t. ApplySparse dir s = (Ret (), t)"
proof -
  have "os_Open (Join dir ''device.bin'') s = (Ret (FileN dev), s)"
    using dfile by (simp add: has_file_def os_Open_def)
  then show ?thesis
    using assms has_manifest_read [OF man] has_manifest_can_write [OF man]
    by (cases "zs = []") (simp_all add: ApplySparse_def Let_def bindA_step os_WriteFile_ok
        WriteManifestFlags_def can_write_store_in)
qed

text \<open>A zero allocation of one page behind a small one.\<close>

definition demo_zero :: os_state where
  "demo_zero = demo_pair [] [] [demo_entry 1 0 1 0, demo_entry 2 1 4096 0] (5 # replicate 4096 0)"

lemma demo_zero_index:
  "filter (zeroEntry (5 # replicate 4096 0)) [demo_entry 1 0 1 0, demo_entry 2 1 4096 0] = [demo_entry 2 1 4096 0]"
  by (simp add: zeroEntry_def minZeroRun_def demo_entry_def isZero_def chunk_def list_all_iff)

lemma demo_zero_facts:
  "wf_os demo_zero" "faults demo_zero = []"
  "has_manifest demo_zero ''img'' [demo_entry 1 0 1 0, demo_entry 2 1 4096 0]
     (manifestHeader [demo_entry 1 0 1 0, demo_entry 2 1 4096 0] 0 2)"
  "has_file demo_zero ''img'' ''device.bin'' (5 # replicate 4096 0)"
  using demo_pair_facts [of "[]" "[demo_entry 1 0 1 0, demo_entry 2 1 4096 0]" "[]" "5 # replicate 4096 0"]
  by (simp_all add: demo_zero_def image_at_def)

lemma demo_zero_loop:
  "sparseLoop name (FileN (5 # replicate 4096 0)) [demo_entry 1 0 1 0, demo_entry 2 1 4096 0] [] =
     Ret [\<lparr>s_Offset = 1, s_Size = 4096\<rparr>]"
  by (simp add: demo_entry_def minZeroRun_def readEntryData_def makeslice_ok_def file_ReadAt_def
      chunk_def isZero_def list_all_iff)

theorem sparse_index_witness:
  "\<exists>t. ApplySparse ''img'' demo_zero = (Ret (), t) \<and>
     ReadSparse (Join ''img'' ''sparse.bin'') t = (Ret [\<lparr>s_Offset = 1, s_Size = 4096\<rparr>], t)"
proof -
  have none: "node_at demo_zero (path_of ''img'' @ [''sparse.bin'']) = None"
    and dirn: "node_at demo_zero (path_of ''img'') = Some DirN"
    by (simp_all add: demo_zero_def demo_pair_def node_at_def demo_path)
  then have "can_write demo_zero (path_of ''img'' @ [''sparse.bin''])" by (simp add: can_write_def)
  then obtain t where run: "ApplySparse ''img'' demo_zero = (Ret (), t)"
    using ApplySparse_run [OF demo_zero_facts(3,4) demo_zero_loop demo_zero_facts(2)] by blast
  from sparse_index_exact [OF demo_zero_facts(1,3,4) none run] run show ?thesis
    unfolding demo_zero_index by (simp add: sparseOf_def demo_entry_def)
qed

section \<open>Deduplication\<close>

text \<open>The loop of \<open>DedupDevice\<close> is a sequence of reads and one \<open>put_all\<close> of the store.\<close>

lemma dedupLoop_put_all:
  assumes "dedupLoop c name (FileN dev) es s = (Ret es', t)"
  shows "\<exists>bufs. cas.put_all c bufs s = (Ret (map e_ContentHash es'), t) \<and>
    bufs = map (\<lambda>e. chunk dev (unat (e_Offset e)) (unat (e_Size e))) es'"
  using assms
proof (induction es arbitrary: s es')
  case (Cons e es)
  from Cons.prems obtain buf hash s1 es1 where rd: "readEntryData name (FileN dev) e = Ret buf"
    and put: "cas_Put c buf s = (Ret hash, s1)" and loop: "dedupLoop c name (FileN dev) es s1 = (Ret es1, t)"
    and es': "es' = e\<lparr>e_ContentHash := hash\<rparr> # es1"
    by (auto elim!: bindA_RetE)
  from Cons.IH [OF loop] have "cas.put_all c (map (\<lambda>e. chunk dev (unat (e_Offset e)) (unat (e_Size e))) es1) s1 =
      (Ret (map e_ContentHash es1), t)"
    by simp
  then show ?case using readEntryData_Ret(1) [OF rd] put es' by (simp add: bindA_step)
qed simp

lemma cas_inv_MkdirAll_root:
  assumes "cas_inv c s" and "os_MkdirAll (cas_Root c) s = (r, t)"
  shows "cas_inv c t"
proof -
  have wf: "wf_os s" using assms(1) by (simp add: cas_inv_def)
  have "node_at t (obj_path c h) = node_at s (obj_path c h)" for h
  proof -
    have "\<not> prefix (obj_path c h) (path_of (cas_Root c))" by (auto simp: obj_path_def dest: prefix_length_le)
    from sitsD [OF keeps_sits_MkdirAll [OF this] wf assms(2)] show ?thesis .
  qed
  then show ?thesis
    using assms(1) keepsD [OF keeps_wf_os_MkdirAll wf assms(2)] by (simp add: cas_inv_def)
qed

lemma cas_Get_write_other:
  assumes "os_write keep name b s = (r, t)" and "cas_Get c h s = (Ret d, s)"
    and "\<not> prefix (path_of (cas_Root c)) (path_of name)"
  shows "cas_Get c h t = (Ret d, t)"
proof -
  have "obj_path c h \<noteq> path_of name" using assms(3) prefix_root_obj by metis
  from os_write_other [OF assms(1) this] assms(2) show ?thesis by (simp add: cas_Get_Ret_iff)
qed

text \<open>C13: after a successful \<open>DedupDevice\<close> on a version 2 image every manifest entry carries
  the SHA-256 of its device bytes and the store of the image has an object under that hash whose
  contents have that hash; pointers, sizes, offsets and checksums of the entries are unchanged.\<close>

theorem dedup_entries_stored:
  assumes inv: "cas_inv \<lparr>cas_Root = Join dir ''cas''\<rparr> s" and man: "has_manifest s dir es h"
    and v2: "VersionV2 \<le> h_Version h" and dfile: "has_file s dir ''device.bin'' dev"
    and run: "DedupDevice dir s = (Ret u, t)"
  shows "\<exists>es' h'. has_manifest t dir es' h' \<and> map geom es' = map geom es \<and>
    (\<forall>e \<in> set es'. e_ContentHash e = Sum256 (chunk dev (unat (e_Offset e)) (unat (e_Size e))) \<and>
       (\<exists>d. cas_Get \<lparr>cas_Root = Join dir ''cas''\<rparr> (e_ContentHash e) t = (Ret d, t) \<and>
            Sum256 d = e_ContentHash e))"
proof -
  let ?c = "\<lparr>cas_Root = Join dir ''cas''\<rparr>" and ?m = "Join dir ''manifest.bin''"
  have "os_Open (Join dir ''device.bin'') s = (Ret (FileN dev), s)"
    using dfile by (simp add: has_file_def os_Open_def)
  with run has_manifest_read [OF man] obtain u1 s1 es' s2 u2 s3
    where mk: "os_MkdirAll (Join dir ''cas'') s = (Ret u1, s1)"
      and loop: "dedupLoop ?c (Join dir ''device.bin'') (FileN dev) es s1 = (Ret es', s2)"
      and wmap: "os_WriteFile (Join dir ''device.map'') (bytes_of (concat (map mapLine es'))) s2 = (Ret u2, s3)"
      and wman: "WriteManifestFlags ?m es' (h_Flags h OR FlagDedup) (h_Version h) s3 = (Ret u, t)"
    by (auto simp: DedupDevice_def Let_def NewCAS_def elim!: bindA_RetE)
  have inv1: "cas_inv ?c s1" using cas_inv_MkdirAll_root [OF inv, of "Ret u1"] mk by simp
  have geo: "map geom es' = map geom es" using dedupLoop_geom [OF loop] .
  then have len: "length es' < 2 ^ 32" using has_manifest_count [OF man] by (metis length_map)
  let ?bufs = "map (\<lambda>e. chunk dev (unat (e_Offset e)) (unat (e_Size e))) es'"
  have put: "cas.put_all ?c ?bufs s1 = (Ret (map e_ContentHash es'), s2)"
    using dedupLoop_put_all [OF loop] by blast
  have hashes: "map e_ContentHash es' = map Sum256 ?bufs" using cas.put_all_get(1) [OF inv1 put] .
  have stored: "\<exists>d. cas_Get ?c (e_ContentHash e) t = (Ret d, t) \<and> Sum256 d = e_ContentHash e"
    if "e \<in> set es'" for e
  proof -
    from that obtain d where d: "cas_Get ?c (e_ContentHash e) s2 = (Ret d, s2)" "Sum256 d = e_ContentHash e"
      using cas.put_all_get(2) [OF inv1 put, of "e_ContentHash e"] by auto
    have "cas_Get ?c (e_ContentHash e) t = (Ret d, t)"
      using cas_Get_write_other [OF wman [unfolded WriteManifestFlags_def]
          cas_Get_write_other [OF wmap d(1)]] by simp
    with d(2) show ?thesis by blast
  qed
  have "has_manifest t dir es' (manifestHeader es' (h_Flags h OR FlagDedup) (h_Version h))"
    using WriteManifestFlags_has [OF wman len] entryNorm_v2 [OF v2] by simp
  moreover have "e_ContentHash e = Sum256 (chunk dev (unat (e_Offset e)) (unat (e_Size e)))"
    if "e \<in> set es'" for e
    using hashes that by simp
  ultimately show ?thesis using geo stored by blast
qed

text \<open>The witness: an image with one two-byte allocation and no store yet.\<close>

definition demo_one :: os_state where
  "demo_one = demo_pair [] [] [demo_entry 1 0 2 7] [1, 2]"

lemma demo_one_facts:
  "wf_os demo_one" "faults demo_one = []" "plain_flags (manifestHeader [demo_entry 1 0 2 7] 0 2)"
  "has_manifest demo_one ''img'' [demo_entry 1 0 2 7] (manifestHeader [demo_entry 1 0 2 7] 0 2)"
  "has_file demo_one ''img'' ''device.bin'' [1, 2]"
  "node_at demo_one (path_of ''img'') = Some DirN"
  "f \<notin> {''manifest.bin'', ''device.bin''} \<Longrightarrow> node_at demo_one (path_of ''img'' @ f # r) = None"
  using demo_pair_facts [of "[]" "[demo_entry 1 0 2 7]" "[]" "[1, 2]"]
  by (auto simp: demo_one_def image_at_def demo_pair_def node_at_def demo_path)

lemma demo_one_dedup: "\<exists>t. DedupDevice ''img'' demo_one = (Ret (), t)"
proof -
  let ?c = "\<lparr>cas_Root = Join ''img'' ''cas''\<rparr>" and ?d = "Join ''img'' ''device.bin''"
  let ?root = "path_of ''img'' @ [''cas'']"
  let ?s1 = "make_dirs ?root demo_one"
  have mk: "os_MkdirAll (Join ''img'' ''cas'') demo_one = (Ret (), ?s1)"
    using os_MkdirAll_child [OF demo_one_facts(1,2), of "Join ''img'' ''cas''"]
      demo_one_facts(6) demo_one_facts(7) [of "''cas''" "[]"] by simp
  have wf1: "wf_os ?s1" using keepsD [OF keeps_wf_os_MkdirAll demo_one_facts(1) mk] .
  have at1: "node_at ?s1 q = (if prefix q ?root \<and> node_at demo_one q = None then Some DirN else node_at demo_one q)" for q
    by (simp add: node_at_make_dirs)
  have "node_at ?s1 (?root @ r) = None" if "r \<noteq> []" for r
    using demo_one_facts(7) [of "''cas''" r] that by (auto simp: at1 dest: prefix_length_le)
  moreover have "node_at ?s1 ?root = Some DirN"
    using demo_one_facts(7) [of "''cas''" "[]"] by (simp add: at1)
  ultimately obtain s2 where put: "cas_Put ?c [1, 2] ?s1 = (Ret (Sum256 [1, 2]), s2)" and f2: "faults s2 = []"
    using cas_Put_empty_store [of ?s1 ?c "[1, 2]"] wf1 demo_one_facts(2) by auto
  have frame: "node_at s2 (path_of ''img'' @ [f]) = node_at demo_one (path_of ''img'' @ [f])" if "f \<noteq> ''cas''" for f
  proof -
    have "\<not> prefix (path_of (cas_Root ?c)) (path_of ''img'' @ [f])"
      "\<not> prefix (path_of ''img'' @ [f]) (path_of (cas_Root ?c))"
      using that by (auto simp: prefix_snoc)
    from sitsD [OF keeps_sits_cas_Put [OF this] wf1 put] show ?thesis using that by (simp add: at1)
  qed
  have "node_at s2 (path_of ''img'') = Some DirN"
    using keepsD [OF keeps_wf_cas_Put wf1 put] wf_osD [of s2 "path_of ''img'' @ [''device.bin'']"]
      frame [of "''device.bin''"] demo_one_facts(5) by (simp add: has_file_def)
  then have w2: "can_write s2 (path_of ''img'' @ [''device.map''])"
    "can_write s2 (path_of ''img'' @ [''manifest.bin''])"
    using frame [of "''device.map''"] demo_one_facts(7) [of "''device.map''" "[]"] frame [of "''manifest.bin''"]
      has_manifest_can_write [OF demo_one_facts(4)]
    by (auto simp: can_write_def)
  have rd: "readEntryData ?d (FileN [1, 2]) (demo_entry 1 0 2 7) = Ret [1, 2]"
    by (simp add: readEntryData_def demo_entry_def makeslice_ok_def file_ReadAt_def chunk_def)
  have loop: "dedupLoop ?c ?d (FileN [1, 2]) [demo_entry 1 0 2 7] ?s1 =
      (Ret [(demo_entry 1 0 2 7)\<lparr>e_ContentHash := Sum256 [1, 2]\<rparr>], s2)"
    using put by (simp add: bindA_step rd)
  have "os_Open ?d demo_one = (Ret (FileN [1, 2]), demo_one)"
    using demo_one_facts(5) by (simp add: has_file_def os_Open_def)
  then show ?thesis
    using has_manifest_read [OF demo_one_facts(4)] mk loop w2 f2
    by (simp add: DedupDevice_def Let_def NewCAS_def bindA_step os_WriteFile_ok WriteManifestFlags_def
        can_write_store_in del: dedupLoop.simps)
qed

theorem dedup_entries_witness:
  "\<exists>t. DedupDevice ''img'' demo_one = (Ret (), t) \<and>
    (\<exists>es' h'. has_manifest t ''img'' es' h' \<and> map geom es' = [demo_entry 1 0 2 7] \<and>
      (\<forall>e \<in> set es'. e_ContentHash e = Sum256 (chunk [1, 2] (unat (e_Offset e)) (unat (e_Size e))) \<and>
         (\<exists>d. cas_Get \<lparr>cas_Root = Join ''img'' ''cas''\<rparr> (e_ContentHash e) t = (Ret d, t) \<and>
              Sum256 d = e_ContentHash e)))"
proof -
  obtain t where run: "DedupDevice ''img'' demo_one = (Ret (), t)" using demo_one_dedup by blast
  have "node_at demo_one (obj_path \<lparr>cas_Root = Join ''img'' ''cas''\<rparr> h) = None" for h
    using demo_one_facts(7) [of "''cas''"] by (simp add: obj_path_def)
  then have inv: "cas_inv \<lparr>cas_Root = Join ''img'' ''cas''\<rparr> demo_one"
    using demo_one_facts(1) by (simp add: cas_inv_def)
  have "VersionV2 \<le> h_Version (manifestHeader [demo_entry 1 0 2 7] 0 2)" by (simp add: VersionV2_def)
  from dedup_entries_stored [OF inv demo_one_facts(4) this demo_one_facts(5) run] run
  show ?thesis by (simp add: geom_def demo_entry_def)
qed

section \<open>The whole pipeline\<close>

text \<open>C2: whichever passes are enabled, whatever faults the disk has had on the way and whatever
  the parent chain looks like, a \<open>ProcessImage\<close> that returns without error leaves the image's
  \<open>device.bin\<close> byte for byte as the snapshot wrote it and every manifest entry with its pointer,
  size, offset, checksum and sequence number. (With compression and a parent together the delta
  pass decompresses the device again, which is where the law of the codec is needed.)\<close>

theorem ProcessImage_preserves_device:
  assumes start: "image_at s dir es h dev" "plain_flags h" "wf_os s"
    and run: "ProcessImage n z dir opts s = (Ret u, t)"
    and law: "\<forall>c. z_Encode z dev = Inr c \<longrightarrow> z_Decode z c = Inr dev"
  shows "\<exists>es' h'. image_at t dir es' h' dev \<and> map geom es' = map geom es"
proof -
  have "raw dir (map geom es) dev s" using start by (auto simp: raw_def)
  from ProcessImage_carries [OF this run] law show ?thesis by (simp add: carries_def)
qed

text \<open>The environment as the options the pipeline runs with.\<close>

theorem ProcessImage_witness:
  "\<exists>t. ProcessImage 1 demo_zstd ''img''
        \<lparr>o_Compress = False, o_Sparse = True, o_Dedup = True, o_Parent = []\<rparr> demo_one = (Ret (), t) \<and>
     (\<exists>es' h'. image_at t ''img'' es' h' [1, 2] \<and> map geom es' = [demo_entry 1 0 2 7])"
proof -
  let ?o = "\<lparr>o_Compress = False, o_Sparse = True, o_Dedup = True, o_Parent = []\<rparr>"
  have "sparseLoop (Join ''img'' ''device.bin'') (FileN [1, 2]) [demo_entry 1 0 2 7] [] = Ret []"
    by (simp add: minZeroRun_def demo_entry_def)
  moreover have "os_Open (Join ''img'' ''device.bin'') demo_one = (Ret (FileN [1, 2]), demo_one)"
    using demo_one_facts(5) by (simp add: has_file_def os_Open_def)
  ultimately have "ApplySparse ''img'' demo_one = (Ret (), demo_one)"
    using has_manifest_read [OF demo_one_facts(4)] by (simp add: ApplySparse_def Let_def bindA_step)
  then obtain t where run: "ProcessImage 1 demo_zstd ''img'' ?o demo_one = (Ret (), t)"
    using demo_one_dedup by (auto simp: ProcessImage_def bindA_step)
  have "image_at demo_one ''img'' [demo_entry 1 0 2 7] (manifestHeader [demo_entry 1 0 2 7] 0 2) [1, 2]"
    using demo_one_facts(4,5) by (simp add: image_at_def)
  from ProcessImage_preserves_device [OF this demo_one_facts(3,1) run] run show ?thesis
    by (simp add: demo_zstd_def geom_def demo_entry_def)
qed

section \<open>Staging\<close>










text \<open>C38: a destination written with a trailing slash has its staging directory inside itself, so
  finishing the checkpoint on a healthy disk deletes the old image and the new one and returns
  an error.\<close>

theorem trailing_slash_loses_images:
  assumes "faults s = []" and "Suc 0 < length (path_of (d @ ''/''))"
    and "node_at s (path_of (d @ ''/'')) = Some DirN"
    and "can_write s (path_of (d @ ''/'') @ [''.staging'', ''COMPLETE''])"
  shows "\<exists>e t. Finalize (StageDir (d @ ''/'')) (d @ ''/'') s = (Err e, t) \<and> tree_gone (path_of (d @ ''/'')) t"
proof -
  let ?dest = "d @ ''/''"
  let ?p = "path_of ?dest" and ?mark = "bytes_of (''1'' @ [CHR 0x0A])"
  have "plain ''.staging''" by (simp add: plain_def)
  then have st: "path_of (StageDir ?dest) = ?p @ [''.staging'']"
    using path_of_slash_suffix [of "''.staging''" d] by (simp add: StageDir_def)
  let ?s1 = "store_file (?p @ [''.staging'', ''COMPLETE'']) ?mark s"
  have w: "os_WriteFile (Join (StageDir ?dest) completeName) ?mark s = (Ret (), ?s1)"
    using os_WriteFile_ok [OF assms(1), of "Join (StageDir ?dest) completeName"] assms(4)
    by (simp add: completeName_def st)
  have "\<not> HasSuffix ?dest ''/.''" by (auto simp: HasSuffix_def suffix_def)
  then have rem: "removable ?dest" using assms(2) by (simp add: removable_def)
  have gone: "node_at (remove_tree ?p ?s1) (?p @ k) = None" for k
    using assms(2) by (simp add: node_at_remove_tree)
  have rm: "os_RemoveAll ?dest ?s1 = (Ret (), remove_tree ?p ?s1)"
    using rem assms(1,3) by (intro os_RemoveAll_ok) (simp_all add: node_at_store_file)
  have "node_at (remove_tree ?p ?s1) (path_of (StageDir ?dest)) = None"
    using gone [of "[''.staging'']"] by (simp add: st)
  then obtain e where "os_Rename (StageDir ?dest) ?dest (remove_tree ?p ?s1) = (Err e, remove_tree ?p ?s1)"
    using assms(1) by (simp add: os_Rename_def Let_def)
  then have "Finalize (StageDir ?dest) ?dest s = (Err e, remove_tree ?p ?s1)"
    using w rm by (simp add: Finalize_def bindA_step tryA_step)
  then show ?thesis using gone by (auto simp: tree_gone_def)
qed

theorem trailing_slash_witness:
  "\<exists>e t. Finalize (StageDir ''img/'') ''img/'' (demo_os [([''.'', ''img''], DirN),
       ([''.'', ''img'', ''device.bin''], FileN [1]), ([''.'', ''img'', ''.staging''], DirN)]) = (Err e, t) \<and>
     tree_gone (path_of ''img/'') t"
proof -
  have p: "path_of ''img/'' = [''.'', ''img'']" by code_simp
  show ?thesis
    using trailing_slash_loses_images [of "demo_os [([''.'', ''img''], DirN),
       ([''.'', ''img'', ''device.bin''], FileN [1]), ([''.'', ''img'', ''.staging''], DirN)]" "''img''"]
    by (simp add: p node_at_def can_write_def)
qed

end
