(* ===== verification/Control_Theorems.thy ===== *)
theory Control_Theorems
  imports Control_Restore Pipeline_Theorems
begin

text \<open>
  The properties of garbage collection, of the back-off and retry loops and of the hand-over
  of a restored process.
\<close>

section \<open>Garbage collection\<close>

text \<open>C9: the collector never touches a protected image. Whatever the disk does, a directory under
  the root that is pinned, or not yet complete, or younger than the age limit (and is no staging
  directory), has the same tree after a collection as before; with no age limit that is every
  complete image.\<close>

theorem gc_keeps_protected:
  assumes "RunImageGC opts dryRun s = (Ret (plan, removed, err), t)" and "wf_os s"
    and "\<forall>w \<in> set (children s (path_of (gcRoot opts))). plain w"
    and "LoadPinnedPaths (g_PinFile opts) s = (Ret pinned, s)" and "plain name"
    and "gc_protected opts pinned s name"
  shows "tree_same (path_of (gcRoot opts) @ [name]) s t"
  using gc_protected_frame [OF assms] .

definition demo_gc :: os_state where
  "demo_gc = (demo_os
     [([''.'', ''r''], DirN), ([''.'', ''pins''], FileN (bytes_of (''# keep'' @ [CHR 0x0A] @ ''r/b/'' @ [CHR 0x0A]))),
      ([''.'', ''r'', ''a''], DirN), ([''.'', ''r'', ''a'', ''COMPLETE''], FileN []),
      ([''.'', ''r'', ''b''], DirN), ([''.'', ''r'', ''b'', ''COMPLETE''], FileN []),
      ([''.'', ''r'', ''c.staging''], DirN), ([''.'', ''r'', ''d''], DirN)])\<lparr>clock := 100\<rparr>"

definition demo_gc_opts :: GCOptions where
  "demo_gc_opts = \<lparr>g_Root = ''r'', g_MaxAge = 10, g_PinFile = ''pins'', g_Now = None\<rparr>"

lemma demo_gc_wf: "wf_os demo_gc"
  unfolding wf_os_def demo_gc_def demo_os_def node_at_def by auto

lemma demo_gc_run:
  "map_outcome (\<lambda>(plan, removed, err). (p_Remove plan, p_Keep plan, removed, err)) (fst (RunImageGC demo_gc_opts False demo_gc)) =
     Ret ([''r/a'', ''r/c.staging''], [''r/b'', ''r/d''], [''r/a'', ''r/c.staging''], None)"
  by code_simp

theorem gc_keeps_protected_witness:
  "tree_same (path_of ''r'' @ [''b'']) demo_gc (snd (RunImageGC demo_gc_opts False demo_gc))"
proof -
  obtain plan removed err t where run: "RunImageGC demo_gc_opts False demo_gc = (Ret (plan, removed, err), t)"
  proof -
    obtain r t where "RunImageGC demo_gc_opts False demo_gc = (r, t)" by fastforce
    with demo_gc_run that show thesis by (cases r) auto
  qed
  have root: "gcRoot demo_gc_opts = ''r''" by (simp add: gcRoot_def demo_gc_opts_def)
  have "fst (LoadPinnedPaths ''pins'' demo_gc) = Ret [''r/b'']" by code_simp
  then have pins: "LoadPinnedPaths (g_PinFile demo_gc_opts) demo_gc = (Ret [''r/b''], demo_gc)"
    using LoadPinnedPaths_pure [of "''pins''" demo_gc] by (simp add: demo_gc_opts_def prod_eq_iff)
  have "children demo_gc (path_of ''r'') = [''a'', ''b'', ''c.staging'', ''d'']" by code_simp
  then have names: "\<forall>w \<in> set (children demo_gc (path_of (gcRoot demo_gc_opts))). plain w"
    by (simp add: root plain_def)
  have "Clean (Join ''r'' ''b'') = ''r/b''" by code_simp
  then have "gc_protected demo_gc_opts [''r/b''] demo_gc ''b''" by (simp add: gc_protected_def root Let_def)
  from gc_keeps_protected [OF run demo_gc_wf names pins _ this] run root show ?thesis by (simp add: plain_def)
qed

lemma gcApply_dry: "gcApply ps True removed s = (Ret (removed @ ps, None), s)"
  by (induction ps arbitrary: removed) simp_all

text \<open>A dry run changes nothing, reports as removed exactly the planned paths and never
  fails once the plan is made.\<close>

lemma gc_dry_run_pure:
  assumes "PlanImageGC opts s = (Ret plan, s')"
  shows "RunImageGC opts True s = (Ret (plan, p_Remove plan, None), s)"
proof -
  have "s' = s" using PlanImageGC_pure [of opts s] assms by simp
  then show ?thesis using assms by (simp add: RunImageGC_def ApplyGCPlan_def bindA_step gcApply_dry)
qed

lemma gc_dry_run_example:
  "map_outcome (\<lambda>(plan, removed, err). (removed, err)) (fst (RunImageGC demo_gc_opts True demo_gc)) =
     Ret ([''r/a'', ''r/c.staging''], None) \<and> snd (RunImageGC demo_gc_opts True demo_gc) = demo_gc"
proof -
  have pl: "map_outcome p_Remove (fst (PlanImageGC demo_gc_opts demo_gc)) = Ret [''r/a'', ''r/c.staging'']"
    by code_simp
  obtain r s' where run: "PlanImageGC demo_gc_opts demo_gc = (r, s')" by fastforce
  then obtain plan where r: "r = Ret plan" "p_Remove plan = [''r/a'', ''r/c.staging'']"
    using pl by (cases r) auto
  show ?thesis using gc_dry_run_pure [of demo_gc_opts demo_gc plan s'] run r by simp
qed

section \<open>Back-off\<close>

lemma sint_small: "0 \<le> i \<Longrightarrow> i < 2 ^ 63 \<Longrightarrow> sint (word_of_int i :: Duration) = i"
  by (simp add: sint_uint signed_take_bit_int_eq_self unsigned_of_int take_bit_int_eq_self)

lemma sint_double:
  assumes "0 \<le> sint (d :: Duration)" and "2 * sint d < 2 ^ 63"
  shows "sint (d * 2) = 2 * sint d"
proof -
  have "d * 2 = word_of_int (2 * sint d)" by (simp add: mult.commute)
  then show ?thesis using sint_small [of "2 * sint d"] assms by (simp only: mult_nonneg_nonneg zero_le_numeral)
qed

lemma sint_consts [simp]:
  "sint maxRestoreBackoff = 5000000000" "sint (200 * Millisecond) = 200000000"
  "sint (500 * Millisecond) = 500000000"
  by (simp_all add: maxRestoreBackoff_def Second_def Millisecond_def)

lemma pollLoop_min:
  assumes "0 < sint d" and "sint d \<le> 5000000000"
  shows "sint (pollLoop n d) = min (sint d * 2 ^ n) 5000000000"
  using assms
proof (induction n arbitrary: d)
  case (Suc n)
  have dbl: "sint (d * 2) = 2 * sint d" using Suc.prems by (intro sint_double) simp_all
  show ?case
  proof (cases "5000000000 \<le> sint (d * 2)")
    case True
    have "2 * sint d \<le> sint d * 2 ^ Suc n"
      using Suc.prems(1) mult_left_mono [of 1 "2 ^ n :: int" "2 * sint d"] by (simp add: mult.commute mult.left_commute)
    then have "min (sint d * 2 ^ Suc n) 5000000000 = (5000000000 :: int)" using True dbl by linarith
    then show ?thesis using True by (simp add: Let_def)
  next
    case False
    then have "sint (pollLoop n (d * 2)) = min (sint (d * 2) * 2 ^ n) 5000000000"
      using dbl Suc.prems(1) by (intro Suc.IH) simp_all
    then show ?thesis using False dbl by (simp add: Let_def mult.assoc)
  qed
qed simp

text \<open>C28: the wait between two polls of a restore doubles with every attempt up to five seconds:
  for a configured base of at most five seconds (or the default of 200 ms when none is set) the
  n-th wait is the smaller of base times two to the n-1 and five seconds, with no overflow.\<close>

theorem restorePollDelay_doubles:
  assumes "sint base \<le> 5000000000" and "1 \<le> attempt"
  shows "sint (restorePollDelay attempt base) =
    min ((if sint base \<le> 0 then 200000000 else sint base) * 2 ^ nat (attempt - 1)) 5000000000"
proof -
  let ?b = "if sint base \<le> 0 then 200 * Millisecond else base"
  have b: "0 < sint ?b" "sint ?b \<le> 5000000000" "sint ?b = (if sint base \<le> 0 then 200000000 else sint base)"
    using assms(1) by auto
  show ?thesis
  proof (cases "attempt = 1")
    case True
    then show ?thesis using b by (simp add: restorePollDelay_def Let_def)
  next
    case False
    then have "restorePollDelay attempt base = pollLoop (nat (attempt - 1)) ?b"
      using assms(2) by (simp add: restorePollDelay_def Let_def)
    then show ?thesis using pollLoop_min [OF b(1,2), of "nat (attempt - 1)"] b(3) by simp
  qed
qed

theorem restorePollDelay_witness:
  "sint (restorePollDelay 4 (500 * Millisecond)) = 4000000000 \<and> sint (restorePollDelay 60 0) = 5000000000"
  using restorePollDelay_doubles [of "500 * Millisecond" 4] restorePollDelay_doubles [of 0 60] by simp

text \<open>The cap does not hold for large bases: the first wait is the base itself however long, and
  from the second on a base of 2 to the 62 nanoseconds overflows to a negative wait.\<close>

lemma restorePollDelay_uncapped:
  "restorePollDelay 1 (10 * Second) = 10 * Second \<and> sint maxRestoreBackoff < sint (10 * Second) \<and>
   sint (restorePollDelay 2 (push_bit 62 1)) < 0"
proof -
  have "pollLoop 1 (push_bit 62 1) = (push_bit 63 1 :: Duration)"
    by (simp add: Let_def maxRestoreBackoff_def Second_def)
  then show ?thesis
    by (simp add: restorePollDelay_def Let_def Second_def)
qed

section \<open>Candidates\<close>

lemma candidateLoop_spec:
  assumes "set seen = set out" and "distinct out"
  shows "distinct (candidateLoop ps seen out) \<and> set (candidateLoop ps seen out) = set out \<union> set ps \<and>
    prefix out (candidateLoop ps seen out)"
  using assms
proof (induction ps arbitrary: seen out)
  case (Cons p ps)
  show ?case
  proof (cases "p \<in> set seen")
    case True
    with Cons show ?thesis by auto
  next
    case False
    with Cons.IH [of "p # seen" "out @ [p]"] Cons.prems show ?thesis
      by (auto dest: append_prefixD)
  qed
qed simp

text \<open>C29: the shims tried in one round of a restore are the resolved process (if there is one) and
  every listed shim, each exactly once, the resolved process first.\<close>

theorem restoreCandidates_spec:
  "distinct (restoreCandidates primary shims) \<and>
   set (restoreCandidates primary shims) = (if 0 < primary then {primary} else {}) \<union> set shims \<and>
   (if 0 < primary then prefix [primary] (restoreCandidates primary shims) else True)"
  using candidateLoop_spec [of "[primary]" "[primary]" shims] candidateLoop_spec [of "[]" "[]" shims]
  by (simp add: restoreCandidates_def)

section \<open>Hand-over\<close>

lemma Itoa_ends:
  "Itoa i \<noteq> []" "\<not> is_space (hd (Itoa i))" "\<not> is_space (last (Itoa i))"
proof -
  have sp: "\<not> is_space c" if "is_digit c" for c using that by (auto simp: is_digit_def is_space_def)
  have all: "\<forall>c \<in> set (nat_dec n). is_digit c" for n using nat_dec_digits [of n] by (simp add: list_all_iff)
  show "Itoa i \<noteq> []" by (simp add: Itoa_def)
  have "\<not> is_space (last (nat_dec n))" "\<not> is_space (hd (nat_dec n))" for n
    using all [of n] sp nat_dec_nonempty [of n] by (metis last_in_set, metis hd_in_set)
  moreover have "\<not> is_space (CHR ''-'')" by (simp add: is_space_def)
  ultimately show "\<not> is_space (hd (Itoa i))" "\<not> is_space (last (Itoa i))" by (simp_all add: Itoa_def)
qed

lemma TrimSpace_newline: "TrimSpace (s @ [CHR 0x0A]) = TrimSpace s"
proof (cases "list_all is_space s")
  case True
  moreover have "is_space (CHR 0x0A)" by (simp add: is_space_def)
  ultimately have "\<forall>c \<in> set (s @ [CHR 0x0A]). is_space c" by (simp add: list_all_iff)
  then have "dropWhile is_space (s @ [CHR 0x0A]) = []" by (subst dropWhile_eq_Nil_conv)
  moreover have "dropWhile is_space s = []" using True by (simp add: dropWhile_eq_Nil_conv list_all_iff)
  ultimately show ?thesis by (simp only: TrimSpace_def)
next
  case False
  then have "dropWhile is_space (s @ [CHR 0x0A]) = dropWhile is_space s @ [CHR 0x0A]"
    by (auto simp: list_all_iff dropWhile_append1)
  then show ?thesis by (simp add: TrimSpace_def is_space_def)
qed

text \<open>C32: the pid handed over by one component is the pid the next one reads: after a successful
  \<open>writeRestoreHandoff\<close> of a positive pid, \<open>readRestoredPID\<close> on the same image returns it.\<close>

theorem handoff_roundtrip:
  assumes "writeRestoreHandoff dir pid s = (Ret u, t)" and "0 < pid" and "pid < 2 ^ 63"
  shows "readRestoredPID dir t = (Ret pid, t)"
proof -
  have pl: "plain ''restored.pid''" by (simp add: plain_def)
  from assms(1) obtain s1 where "os_WriteFile (Join dir ''restored.pid'') (bytes_of (Itoa pid @ [CHR 0x0A])) s1 = (Ret u, t)"
    by (auto simp: writeRestoreHandoff_def Let_def elim!: bindA_RetE)
  from os_WriteFile_node_at [OF this, of "path_of dir @ [''restored.pid'']"] pl
  have "os_ReadFile (Join dir ''restored.pid'') t = (Ret (bytes_of (Itoa pid @ [CHR 0x0A])), t)"
    by (simp add: os_ReadFile_Ret_iff)
  moreover have "TrimSpace (Itoa pid @ [CHR 0x0A]) = Itoa pid"
    using TrimSpace_newline [of "Itoa pid"] TrimSpace_id [of "Itoa pid"] Itoa_ends [of pid] by simp
  ultimately show ?thesis
    using Atoi_Itoa [of pid] assms(2,3) by (simp add: readRestoredPID_def bindA_step tryA_step)
qed

theorem handoff_witness:
  "\<exists>t. writeRestoreHandoff ''img'' 4242 demo_one = (Ret (), t) \<and> readRestoredPID ''img'' t = (Ret 4242, t)"
proof -
  have "can_write demo_one (path_of ''img'' @ [f])" if "f \<notin> {''manifest.bin'', ''device.bin''}" for f
    using demo_one_facts(6,7) that by (simp add: can_write_def)
  moreover have "plain ''restored.pid''" "plain ''restored.handoff''" by (simp_all add: plain_def)
  ultimately obtain t where run: "writeRestoreHandoff ''img'' 4242 demo_one = (Ret (), t)"
    using demo_one_facts(2)
    by (auto simp: writeRestoreHandoff_def Let_def bindA_step os_WriteFile_ok can_write_store_in)
  from handoff_roundtrip [OF run] run show ?thesis by auto
qed

lemma scanPid_sock:
  assumes "- (2 ^ 63) \<le> pid" and "pid < 2 ^ 63"
  shows "scanPid (Itoa pid @ ''.sock'') = Some pid"
proof -
  let ?n = "Itoa pid @ ''.sock''"
  have "dropWhile (\<lambda>c. is_space c \<and> c \<noteq> CHR 0x0A) ?n = ?n"
    using Itoa_ends(1,2) [of pid] by (cases "Itoa pid") auto
  moreover have dig: "\<not> is_digit (CHR ''.'')" by (simp add: is_digit_def)
  have digs: "takeWhile is_digit (nat_dec n @ ''.sock'') = nat_dec n" for n
    using nat_dec_digits [of n] dig by (simp add: takeWhile_append2 list_all_iff)
  have drops: "drop (length (nat_dec n)) (nat_dec n @ ''.sock'') = ''.sock''" for n by simp
  show ?thesis
  proof (cases "pid < 0")
    case True
    then have n: "?n = CHR ''-'' # nat_dec (nat (- pid)) @ ''.sock''" by (simp add: Itoa_def)
    then have "scanPid ?n = Atoi (Itoa pid)"
      using calculation digs [of "nat (- pid)"] True
      by (simp add: scanPid_def Let_def HasPrefix_def Itoa_def)
    then show ?thesis using Atoi_Itoa [OF assms] by simp
  next
    case False
    then have n: "?n = nat_dec (nat pid) @ ''.sock''" by (simp add: Itoa_def)
    have "hd (nat_dec (nat pid)) \<noteq> CHR ''-''" "hd (nat_dec (nat pid)) \<noteq> CHR ''+''"
      using nat_dec_hd is_digit_not_sign by blast+
    then have "takeWhile (\<lambda>c. c = CHR ''-'' \<or> c = CHR ''+'') (take 1 ?n) = []"
      unfolding n using nat_dec_nonempty [of "nat pid"] by (cases "nat_dec (nat pid)") auto
    then have "scanPid ?n = Atoi (Itoa pid)"
      using calculation digs [of "nat pid"] False n
      by (simp add: scanPid_def Let_def HasPrefix_def)
    then show ?thesis using Atoi_Itoa [OF assms] by simp
  qed
qed

lemma sock_name_plain: "plain (Itoa pid @ ''.sock'')"
proof -
  have "\<forall>c \<in> set (nat_dec n). c \<noteq> CHR ''/''" for n
    using nat_dec_digits [of n] by (auto simp: list_all_iff is_digit_def)
  then have "CHR ''/'' \<notin> set (Itoa pid @ ''.sock'')" by (simp add: Itoa_def) blast
  moreover have "5 < length (Itoa pid @ ''.sock'')" using Itoa_ends(1) [of pid] by simp
  ultimately show ?thesis by (auto simp: plain_def)
qed

text \<open>C33: a shim's socket is found again: when the file \<open>shimSocketPath\<close> names for a process is
  in the run directory, the sorted listing of the shims contains that process.\<close>

theorem shim_socket_listed:
  assumes "wf_os s" and "node_at s (path_of (shimSocketPath runDir pid)) \<noteq> None"
    and "- (2 ^ 63) \<le> pid" and "pid < 2 ^ 63"
  shows "\<exists>pids. sortedShims runDir s = (Ret pids, s) \<and> pid \<in> set pids \<and> sorted pids"
proof -
  let ?d = "if runDir = [] then ''/run/cudackpt'' else runDir" and ?f = "Itoa pid @ ''.sock''"
  have "plain ?f" by (rule sock_name_plain)
  then have at: "node_at s (path_of ?d @ [?f]) \<noteq> None" using assms(2) by (simp add: shimSocketPath_def)
  then have dir: "node_at s (path_of ?d) = Some DirN"
    using wf_osD [OF assms(1), of "path_of ?d @ [?f]"] by simp
  have "?f \<in> set (children s (path_of ?d))" using at by (simp add: set_children)
  then have "(?f, the (node_at s (path_of ?d @ [?f]))) \<in>
      set (map (\<lambda>w. (w, the (node_at s (path_of ?d @ [w])))) (children s (path_of ?d)))"
    by simp
  moreover have "scanPid ?f = Some pid" using scanPid_sock [OF assms(3,4)] .
  ultimately have "pid \<in> set (List.map_filter (\<lambda>e. scanPid (fst e))
      (map (\<lambda>w. (w, the (node_at s (path_of ?d @ [w])))) (children s (path_of ?d))))"
    unfolding List.map_filter_def by force
  then show ?thesis
    using dir by (auto simp: sortedShims_def ListShims_def os_ReadDir_def bindA_def tryA_def)
qed

theorem shim_socket_listed_witness:
  "\<exists>pids. sortedShims ''run'' (demo_os [([''.'', ''run''], DirN), ([''.'', ''run'', ''77.sock''], SockN)]) =
     (Ret pids, demo_os [([''.'', ''run''], DirN), ([''.'', ''run'', ''77.sock''], SockN)]) \<and>
     77 \<in> set pids \<and> sorted pids"
proof (rule shim_socket_listed)
  have "path_of (shimSocketPath ''run'' 77) = [''.'', ''run'', ''77.sock'']" by code_simp
  then show "node_at (demo_os [([''.'', ''run''], DirN), ([''.'', ''run'', ''77.sock''], SockN)])
      (path_of (shimSocketPath ''run'' 77)) \<noteq> None"
    by (simp add: node_at_def)
qed (auto simp: wf_os_def node_at_def split: if_splits)

section \<open>Retries\<close>

text \<open>\<open>retried f b i s k s'\<close>: attempts \<open>i\<close> to \<open>k - 1\<close> have failed, each followed by a
  wait, and \<open>s'\<close> is the state attempt \<open>k\<close> starts from.\<close>

inductive retried :: "(Duration \<Rightarrow> 's \<Rightarrow> 's) \<Rightarrow> (int \<Rightarrow> ('s, unit) act) \<Rightarrow> (goerr \<Rightarrow> bool) \<Rightarrow> Duration
    \<Rightarrow> int \<Rightarrow> 's \<Rightarrow> int \<Rightarrow> 's \<Rightarrow> bool" for sleep f stop b where
  retried_refl: "retried sleep f stop b i s i s"
| retried_step: "f i s = (Err e, s1) \<Longrightarrow> \<not> stop e \<Longrightarrow> retried sleep f stop b (i + 1) (sleep b s1) k s'
     \<Longrightarrow> retried sleep f stop b i s k s'"

lemma retried_le: "retried sleep f stop b i s k s' \<Longrightarrow> i \<le> k"
  by (induction rule: retried.induct) simp_all

lemma retryLoop_spec:
  assumes "retryLoop sleep n i b f stop s = (r, t)"
  shows "\<exists>k s'. retried sleep f stop b i s k s' \<and> k \<le> i + int n \<and> f k s' = (r, t) \<and>
    (\<forall>e. r = Err e \<longrightarrow> k = i + int n \<or> stop e)"
  using assms
proof (induction n arbitrary: i s)
  case 0
  obtain r1 s1 where f: "f i s = (r1, s1)" by fastforce
  then have "r = r1 \<and> t = s1" using 0 by (cases r1) (simp_all add: retryLoop.simps [of _ 0] bindA_def tryA_def)
  then show ?case using f retried_refl by fastforce
next
  case (Suc n)
  obtain r1 s1 where f: "f i s = (r1, s1)" by fastforce
  show ?case
  proof (cases "\<exists>e. r1 = Err e \<and> \<not> stop e")
    case False
    then have "r = r1 \<and> t = s1"
      using Suc.prems f by (cases r1) (auto simp: retryLoop.simps [of _ "Suc n"] bindA_def tryA_def)
    then show ?thesis using f False retried_refl by fastforce
  next
    case True
    then obtain e where e: "r1 = Err e" "\<not> stop e" by blast
    then have "retryLoop sleep n (i + 1) b f stop (sleep b s1) = (r, t)"
      using Suc.prems f by (simp add: retryLoop.simps [of _ "Suc n"] bindA_def tryA_def)
    from Suc.IH [OF this] obtain k s' where "retried sleep f stop b (i + 1) (sleep b s1) k s'"
      and "k \<le> i + int (Suc n)" "f k s' = (r, t)" "\<forall>e. r = Err e \<longrightarrow> k = i + int (Suc n) \<or> stop e"
      by force
    then show ?thesis using retried_step [of f i s e s1 stop sleep b k s'] f e by blast
  qed
qed

text \<open>C27: what \<open>applyRetry\<close> returns is what its last attempt returned; that is attempt \<open>k\<close> for some
  \<open>k\<close> between 1 and the configured maximum (1 when none is configured), every earlier attempt failed
  with an error that does not stop the retries, with one wait after it, and an error is returned
  only when the attempts are used up or the error stops them.\<close>

theorem applyRetry_attempts:
  assumes "applyRetry sleep policy f stop s = (r, t)"
  shows "\<exists>k s'. 1 \<le> k \<and> k \<le> r_MaxAttempts (policyDefaults policy) \<and>
    retried sleep f stop (r_Backoff (policyDefaults policy)) 1 s k s' \<and> f k s' = (r, t) \<and>
    (\<forall>e. r = Err e \<longrightarrow> k = r_MaxAttempts (policyDefaults policy) \<or> stop e)"
proof -
  let ?p = "policyDefaults policy"
  have "1 \<le> r_MaxAttempts ?p" by (simp add: policyDefaults_def)
  then have n: "1 + int (nat (r_MaxAttempts ?p) - 1) = r_MaxAttempts ?p" by simp
  have "retryLoop sleep (nat (r_MaxAttempts ?p) - 1) 1 (r_Backoff ?p) f stop s = (r, t)"
    using assms by (simp add: applyRetry_def Let_def)
  from retryLoop_spec [OF this, unfolded n] obtain k s' where
    "retried sleep f stop (r_Backoff ?p) 1 s k s'" and "k \<le> r_MaxAttempts ?p" and "f k s' = (r, t)"
    and "\<forall>e. r = Err e \<longrightarrow> k = r_MaxAttempts ?p \<or> stop e" by blast
  moreover from this(1) have "1 \<le> k" by (rule retried_le)
  ultimately show ?thesis by blast
qed

definition demo_flaky :: "int \<Rightarrow> (os_state, unit) act" where
  "demo_flaky i = (if i < 3 then errA (FmtError ''busy'') else retA ())"

theorem applyRetry_witness:
  "\<exists>k s'. 1 \<le> k \<and> k \<le> 5 \<and> retried sleepA demo_flaky (\<lambda>_. False) (500 * Millisecond) 1 (demo_os []) k s' \<and>
     fst (demo_flaky k s') = Ret () \<and> fst (applyRetry sleepA \<lparr>r_MaxAttempts = 5, r_Backoff = 0\<rparr> demo_flaky (\<lambda>_. False) (demo_os [])) = Ret ()"
proof -
  let ?p = "\<lparr>r_MaxAttempts = 5, r_Backoff = 0\<rparr> :: RetryPolicy"
  have ok: "fst (applyRetry sleepA ?p demo_flaky (\<lambda>_. False) (demo_os [])) = Ret ()" by code_simp
  obtain r t where run: "applyRetry sleepA ?p demo_flaky (\<lambda>_. False) (demo_os []) = (r, t)" by fastforce
  have p: "policyDefaults ?p = \<lparr>r_MaxAttempts = 5, r_Backoff = 500 * Millisecond\<rparr>"
    by (simp add: policyDefaults_def)
  from applyRetry_attempts [OF run, unfolded p RetryPolicy.simps] obtain k s' where "1 \<le> k" "k \<le> 5"
    and "retried sleepA demo_flaky (\<lambda>_. False) (500 * Millisecond) 1 (demo_os []) k s'" and "demo_flaky k s' = (r, t)"
    by blast
  moreover have "r = Ret ()" using ok run by simp
  ultimately show ?thesis using ok by fastforce
qed

end
