(* ===== verification/Rpc_Returns.thy ===== *)
theory Rpc_Returns
  imports Rpc_Dial
begin

text \<open>
  When the client's reads return. A read of \<open>pkg/rpc/proto.go\<close> waits for ever when the
  server waits for more input than it was sent; on a connection of \<open>DialPathWithSecret\<close>
  no sequence of pings, restores and resumes can get there, with either server, whatever the
  secrets are.
\<close>

section \<open>One reply\<close>

lemma reply_word:
  fixes w :: "'x world_scheme"
  assumes k: "k < length (conns w)" "\<not> c_closed (conns w ! k)" "c_out (conns w ! k) = []"
    and at: "server_at w (c_srv (conns w ! k)) = Some srv" and b: "b \<noteq> []"
    and step: "server_step cu srv (c_authed (conns w ! k)) b (loaded k b w) = Some ((srv', au, r, word v, cl), u)"
    and u: "conns u = conns (loaded k b w)" "servers u = servers w"
    and rest: "cl \<or> (r = [] \<and> (\<forall>u :: 'x world_scheme. server_step cu srv' au [] u = None))"
  obtains w' where "readU32 cu k (loaded k b w) = (Ret v, w')" and "length (conns w') = length (conns w)"
    and "conns w' ! k = (conns w ! k)\<lparr>c_authed := au, c_in := r, c_out := [], c_closed := cl\<rparr>"
    and "server_at w' (c_srv (conns w ! k)) = Some srv'"
proof -
  let ?c = "conns w ! k" and ?w0 = "loaded k b w"
  let ?w1 = "set_conn k (?c\<lparr>c_authed := au, c_in := r, c_out := word v, c_closed := cl\<rparr>)
      (u\<lparr>servers := AList.update (c_srv ?c) srv' (servers w)\<rparr>)"
  have c1: "conns ?w1 ! k = ?c\<lparr>c_authed := au, c_in := r, c_out := word v, c_closed := cl\<rparr>"
    using k u by (simp add: set_conn_def)
  have at1: "server_at ?w1 (c_srv ?c) = Some srv'" by (simp add: server_at_def update_conv)
  have st: "conn_step cu k ?w0 = Some ?w1"
    using k at step u by (simp add: conn_step_def Let_def)
  have "conn_step cu k ?w1 = None"
    using rest at1 by (auto simp: conn_step_def Let_def c1)
  then have "pump cu k ?w1 = ?w1" by (simp add: pump.simps)
  then have "pump cu k ?w0 = ?w1" unfolding pump.simps [of cu k ?w0] st by simp
  then have "readU32 cu k ?w0 = (Ret v, set_conn k ((conns ?w1 ! k)\<lparr>c_out := []\<rparr>) ?w1)"
    using k c1 by (simp add: readU32_def conn_ReadFull_def Let_def bindA_def)
  then show ?thesis
    by (rule that) (use k u c1 at1 in \<open>simp_all add: set_conn_def server_at_def conn_update_order\<close>)
qed

text \<open>What has come out of a connection stays in it, so a first reply is enough for a read.\<close>

lemma server_step_conns:
  fixes w w' :: "'x world_scheme"
  assumes "server_step cu (Mock st) au inp w = Some (z, w')"
  shows "conns w' = conns w"
proof -
  have snap: "conns u' = conns u" if "mockSnapshot d u = (r, u')" for d r and u u' :: "'x world_scheme"
    using keeps_more_run(1) [OF keeps_more_mockSnapshot that] .
  show ?thesis
    using assms
    by (auto simp: server_step_def serveMockConn_def mockAuth_def mockRequest_def Let_def
        split: if_splits option.splits prod.splits outcome.splits dest: snap)
qed

lemma pump_extends:
  fixes w :: "'x world_scheme"
  assumes "k < length (conns w)" and "server_at w (c_srv (conns w ! k)) = Some (Mock st)"
  shows "k < length (conns (pump cu k w)) \<and> (\<exists>xs. c_out (conns (pump cu k w) ! k) = c_out (conns w ! k) @ xs)"
  using assms
proof (induction cu k w arbitrary: st rule: pump.induct)
  case (1 cu k w)
  show ?case
  proof (cases "conn_step cu k w")
    case None
    then show ?thesis using 1(2) by (simp add: pump.simps [of cu k w])
  next
    case (Some w')
    then obtain st' au inp out cl w1 where
      step: "server_step cu (Mock st) (c_authed (conns w ! k)) (c_in (conns w ! k)) w = Some ((Mock st', au, inp, out, cl), w1)"
      and w': "w' = set_conn k ((conns w ! k)\<lparr>c_authed := au, c_in := inp, c_out := c_out (conns w ! k) @ out, c_closed := cl\<rparr>)
         (w1\<lparr>servers := AList.update (c_srv (conns w ! k)) (Mock st') (servers w1)\<rparr>)"
      using 1(3) by (auto simp: conn_step_def Let_def server_step_def split: if_splits option.splits)
    have c: "conns w1 = conns w" using server_step_conns [OF step] .
    then have k': "k < length (conns w')" "c_out (conns w' ! k) = c_out (conns w ! k) @ out"
      "c_srv (conns w' ! k) = c_srv (conns w ! k)" "server_at w' (c_srv (conns w ! k)) = Some (Mock st')"
      using 1(2) by (simp_all add: w' set_conn_def server_at_def update_conv)
    show ?thesis
      using 1(1) [OF Some, of st'] k' Some by (auto simp: pump.simps [of cu k w])
  qed
qed

section \<open>A connection that answers\<close>

text \<open>The connection is closed, or nothing is in flight on it and its server is there.\<close>

definition prompt :: "Client \<Rightarrow> 'x world_scheme \<Rightarrow> bool" where
  "prompt k w \<longleftrightarrow> k < length (conns w) \<and>
     (let c = conns w ! k in c_closed c \<or> (c_in c = [] \<and> c_out c = [] \<and> server_at w (c_srv c) \<noteq> None))"

text \<open>Either server takes a whole request at once, replies with a word, and then waits or closes.\<close>

lemma request_step:
  fixes u :: "'x world_scheme"
  assumes "op \<in> {OpPing, OpRestore, OpResume}" and "length path < 2 ^ 32"
  obtains srv' au r v cl u' where
    "server_step cu srv a (request op path) u = Some ((srv', au, r, word v, cl), u')"
    and "conns u' = conns u" and "servers u' = servers u"
    and "cl \<or> (r = [] \<and> (\<forall>u :: 'x world_scheme. server_step cu srv' au [] u = None))"
proof (cases srv)
  case (Mock st)
  have wait: "\<forall>u :: 'x world_scheme. server_step cu (Mock st) b [] u = None" for b by (simp add: mock.wait)
  show ?thesis
  proof (cases "mk_secret st \<noteq> [] \<and> \<not> a")
    case True
    then show ?thesis
      using assms get_word_word [of op]
      by (intro that [of "Mock st" False "drop 4 (request op path)" 2 True u])
        (auto simp: Mock server_step_def serveMockConn_def mockAuth_def request_def op_defs)
  next
    case False
    then have "admits (Mock st) a" by simp
    moreover have "op \<in> word_ops" "short_path path" "mock_answer (Mock st) op path u = (0, False, Mock st, u)"
      using assms by (auto simp: word_ops_def short_path_def mock_answer_def op_defs)
    ultimately have "server_step cu (Mock st) a (request op path @ []) u = Some ((Mock st, True, [], word 0, False), u)"
      by (intro mock.serve) simp_all
    then show ?thesis
      using wait by (intro that [of "Mock st" True "[]" 0 False u]) (simp_all add: Mock)
  qed
next
  case (Shim st)
  have "unat (word_of_nat (length path) :: u32) = length path" using assms(2) by (simp add: unat_of_nat)
  then have str: "read_str 512 (word (word_of_nat (length path)) @ bytes_of path) =
      (if 512 \<le> length path then CBad (bytes_of path) else CStr (cstr path) [])"
    by (simp add: read_str_def read_full_def)
  show ?thesis
  proof (cases "sh_secret st \<noteq> [] \<and> \<not> a")
    case True
    then show ?thesis
      using assms get_word_word [of op]
      by (intro that [of "Shim st" False "drop 4 (request op path)" 2 True u])
        (auto simp: Shim server_step_def handle_client_def require_auth_def request_def op_defs)
  next
    case False
    then have step: "server_step cu (Shim st) a inp u =
        map_option (\<lambda>((st', y), s'). ((Shim st', y), s')) (handle_request cu st inp u)" for inp
      by (auto simp: server_step_def handle_client_def)
    obtain res u' where run: "shimRestore cu (cstr path) u = (res, u')" by force
    note same = keeps_more_run [OF keeps_more_shimRestore run]
    from assms(1) consider "op = OpPing" | "op = OpResume" | "op = OpRestore" by auto
    then have "\<exists>srv' v r u'. server_step cu (Shim st) a (request op path) u = Some ((srv', True, r, word v, True), u') \<and>
      conns u' = conns u \<and> servers u' = servers u"
    proof cases
      case 3
      then show ?thesis
        using same run by (cases "512 \<le> length path"; cases res)
          (auto simp: step str handle_request_def request_def op_defs simp del: length_0_conv)
    qed (use get_word_word [of op "[]"] in \<open>simp_all add: step handle_request_def request_def op_defs exI [of _ 0]\<close>)
    then show ?thesis using that Shim by metis
  qed
qed

lemma call_prompt:
  fixes w :: "'x world_scheme"
  assumes "prompt k w" and "op \<in> {OpPing, OpRestore, OpResume}" and "length path < 2 ^ 32"
  shows "fst (call cu k op path w) \<noteq> Diverge \<and> prompt k (snd (call cu k op path w))"
proof (cases "c_closed (conns w ! k)")
  case True
  then show ?thesis using assms(1) by (simp add: call_closed)
next
  case False
  let ?c = "conns w ! k"
  from assms(1) False obtain srv where k: "k < length (conns w)" "c_in ?c = []" "c_out ?c = []"
    "server_at w (c_srv ?c) = Some srv"
    by (auto simp: prompt_def Let_def)
  have b: "request op path \<noteq> []" by (simp add: request_def)
  obtain srv' au r v cl u where step: "server_step cu srv (c_authed ?c) (request op path) (loaded k (request op path) w) =
      Some ((srv', au, r, word v, cl), u)"
    and u: "conns u = conns (loaded k (request op path) w)" "servers u = servers w"
    and rest: "cl \<or> (r = [] \<and> (\<forall>u :: 'x world_scheme. server_step cu srv' au [] u = None))"
    using request_step [OF assms(2,3), of cu srv "c_authed ?c" "loaded k (request op path) w"] loaded_simps(3) by metis
  obtain w' where "readU32 cu k (loaded k (request op path) w) = (Ret v, w')" and "length (conns w') = length (conns w)"
    and "conns w' ! k = ?c\<lparr>c_authed := au, c_in := r, c_out := [], c_closed := cl\<rparr>" "server_at w' (c_srv ?c) = Some srv'"
    using reply_word [OF k(1) False k(3,4) b step u rest] .
  then show ?thesis
    using call_write_open [OF k(1) False k(2)] k(1) rest by (auto simp: prompt_def Let_def)
qed

section \<open>Dialling\<close>

lemma dial_prompt:
  fixes w :: "'x world_scheme"
  assumes "length secret < 2 ^ 32"
  shows "fst (DialPathWithSecret cu path secret w) \<noteq> Diverge \<and>
    (\<forall>k w'. DialPathWithSecret cu path secret w = (Ret k, w') \<longrightarrow> prompt k w')"
proof (cases "node_at w (path_of path) = Some SockN \<and> server_at w (path_of path) \<noteq> None")
  case False
  then show ?thesis by (auto simp: DialPathWithSecret_def net_Dial_def bindA_def)
next
  case True
  then obtain srv where sock: "node_at w (path_of path) = Some SockN" and at: "server_at w (path_of path) = Some srv" by auto
  let ?k = "length (conns w)"
  have fresh: "prompt ?k (dialled (path_of path) au [] False w)" for au
    using at by (simp add: prompt_def Let_def)
  show ?thesis
  proof (cases "secret = []")
    case True
    then show ?thesis using dial_open [OF sock] at fresh by simp
  next
    case False
    note secret = this
    show ?thesis
    proof (cases srv)
      case (Shim st)
      obtain v au r cl where st: "\<And>u :: 'x world_scheme. server_step cu (Shim st) False (auth_request secret) u =
          Some ((Shim st, au, r, word v, cl), u)" and fin: "if v = 0 then au \<and> r = [] \<and> \<not> cl else cl"
        using shim_auth [OF assms, of cu st] by metis
      have "\<forall>u :: 'x world_scheme. server_step cu (Shim st) au [] u = None" by (simp add: shim.wait)
      then show ?thesis
        using fin fresh dial_reply [OF sock at [unfolded Shim] secret st] by (auto split: if_splits)
    next
      case (Mock st)
      show ?thesis
      proof (cases "mk_secret st = []")
        case False
        then show ?thesis using dial_mock [OF sock at [unfolded Mock] False secret assms] fresh by auto
      next
        case True
        let ?w0 = "loaded ?k (auth_request secret) (dialled (path_of path) False [] False w)"
        have k0: "?k < length (conns ?w0)" "server_at ?w0 (c_srv (conns ?w0 ! ?k)) = Some (Mock st)"
          "conns ?w0 ! ?k = \<lparr>c_srv = path_of path, c_authed = False, c_in = auth_request secret, c_out = [], c_closed = False\<rparr>"
          using at Mock by simp_all
        let ?r = "drop 4 (auth_request secret)"
        have step: "server_step cu (Mock st) False (auth_request secret) u = Some ((Mock st, True, ?r, word 1, False), u)"
          for u :: "'x world_scheme"
          using True by (simp add: server_step_def serveMockConn_def mockRequest_def auth_request_def op_defs)
        obtain w1 where w1: "conn_step cu ?k ?w0 = Some w1" "?k < length (conns w1)" "c_out (conns w1 ! ?k) = word 1"
          "server_at w1 (c_srv (conns w1 ! ?k)) = Some (Mock st)"
          using k0 by (auto simp: conn_step_def step set_conn_def server_at_def update_conv Let_def)
        have "\<exists>xs. c_out (conns (pump cu ?k ?w0) ! ?k) = word 1 @ xs"
          using pump_extends [OF w1(2,4), of cu] w1(1,3) by (auto simp: pump.simps [of cu ?k ?w0])
        then have "\<exists>u. readU32 cu ?k ?w0 = (Ret 1, u)"
          using k0 by (auto simp: readU32_def conn_ReadFull_def bindA_def Let_def)
        then have "\<exists>e u. authenticate cu ?k secret (dialled (path_of path) False [] False w) = (Err e, u)"
          using authenticate_read [of ?k "dialled (path_of path) False [] False w" secret cu] secret
          by (auto simp: bindA_step)
        then show ?thesis
          using net_Dial_fresh [OF sock] at by (auto simp: DialPathWithSecret_def bindA_step tryA_step conn_Close_def)
      qed
    qed
  qed
qed

end
