(* ===== verification/Restore_Live_Theorems.thy ===== *)
theory Restore_Live_Theorems
  imports Restore_Theorems
begin

text \<open>
  A restore that succeeds: when a process that serves a whole session on one connection (the
  server of \<open>mockserver.go\<close>) starts to listen in time, the polling loop of \<open>Restore\<close>
  finds it and returns its process. Until then the rounds of the loop only write log lines,
  so what they leave alone is stated once, as a frame.
\<close>

section \<open>What log lines leave alone\<close>












section \<open>A session with the mock server\<close>




section \<open>Waiting\<close>









section \<open>The loop\<close>




end
