(* ===== verification/Restore_Shim_Theorems.thy ===== *)
theory Restore_Shim_Theorems
  imports Demo_Host
begin

text \<open>
  A restore against the repository's own shim (\<open>shim/ipc.c\<close>). \<open>tryShimRestore\<close> sends
  ping, restore and resume over one connection, the shim answers one request per connection;
  so on a host where whatever listens, now or later, is a shim, \<open>Restore\<close> never succeeds.
  That only shims listen is kept by everything the program does.
\<close>

section \<open>Hosts where only shims listen\<close>

definition shim_world :: "host \<Rightarrow> bool" where
  "shim_world h \<longleftrightarrow> (\<forall>(p, srv) \<in> set (servers h). is_shim srv) \<and> (\<forall>(t, p, srv) \<in> set (h_arrivals h). is_shim srv) \<and>
     length (Getenv ''CUDACKPT_RPC_SECRET'' h) < 2 ^ 32"

lemma set_AList_update: "set (AList.update k v l) \<subseteq> insert (k, v) (set l)"
  by (induction l) auto

lemma shim_world_os: "os_inv shim_world"
proof (rule off_os_inv)
  fix s s' :: host assume "off_disk s = off_disk s'"
  then show "shim_world s = shim_world s'"
    using off_disk_host [of s s'] by (simp add: shim_world_def Getenv_def)
qed

lemma server_step_shim: "is_shim srv \<Longrightarrow> server_step cu srv a inp s = Some ((srv', y), s') \<Longrightarrow> is_shim srv'"
  by (cases srv) (auto simp: server_step_def)

lemma shim_world_step:
  assumes "shim_world h" and "conn_step cu k h = Some h'"
  shows "shim_world h'"
proof -
  let ?c = "conns h ! k"
  obtain srv srv' au r out cl w where at: "server_at h (c_srv ?c) = Some srv"
    and st: "server_step cu srv (c_authed ?c) (c_in ?c) h = Some ((srv', au, r, out, cl), w)"
    and h': "h' = set_conn k (?c\<lparr>c_authed := au, c_in := r, c_out := c_out ?c @ out, c_closed := cl\<rparr>)
      (w\<lparr>servers := AList.update (c_srv ?c) srv' (servers w)\<rparr>)"
    using assms(2) by (auto simp: conn_step_def Let_def split: if_splits option.splits)
  have "is_shim srv" using at assms(1) map_of_SomeD by (fastforce simp: server_at_def shim_world_def)
  then have "is_shim srv'" using server_step_shim st by blast
  moreover have "shim_world w" using os_inv.server_step [OF shim_world_os st assms(1)] .
  ultimately show ?thesis
    using set_AList_update [of "c_srv ?c" srv' "servers w"] by (fastforce simp: h' shim_world_def set_conn_def Getenv_def)
qed

lemma shim_world_sleep: "shim_world h \<Longrightarrow> shim_world (sleepH d h)"
proof -
  have arr: "shim_world (foldl arrive g as)" if "shim_world g" "\<forall>(t, p, srv) \<in> set as. is_shim srv" for g as
    using that
  proof (induction as arbitrary: g)
    case (Cons a as)
    have "shim_world (arrive g a)"
      using Cons.prems set_AList_update
      by (fastforce simp: arrive_def shim_world_def put_node_def Getenv_def split: prod.split)
    with Cons show ?case by simp
  qed simp
  show "shim_world h \<Longrightarrow> shim_world (sleepH d h)"
    unfolding sleepH_def settle_def Let_def
    by (intro arr) (auto simp: shim_world_def sleepA_def Getenv_def)
qed

interpretation hshim: host_inv shim_world
  by (intro host_inv.intro host_inv_axioms.intro io_inv.intro io_inv_axioms.intro shim_world_os shim_world_sleep)
    ((erule (1) shim_world_step | simp add: shim_world_def Getenv_def)+)

section \<open>One try\<close>

lemma fst_bindA_RetE:
  assumes "fst (bindA m f s) = Ret b"
  obtains a t where "m s = (Ret a, t)" and "fst (f a t) = Ret b"
  using assms by (auto simp: bindA_def split: prod.splits outcome.splits)

lemma tryShimRestore_never:
  assumes "shim_world h" and "length (c_RpcSecret (o_cfg oc)) < 2 ^ 32"
  shows "tryShimRestore x oc dir p h \<noteq> (Ret q, h')"
proof
  assume run: "tryShimRestore x oc dir p h = (Ret q, h')"
  define secret where "secret = (if c_RpcSecret (o_cfg oc) = [] then Getenv ''CUDACKPT_RPC_SECRET'' h else c_RpcSecret (o_cfg oc))"
  let ?path = "shimSocketPath (c_RunDir (o_cfg oc)) p"
  obtain k h1 h2 h3 where dial: "DialPathWithSecret (x_cuda x) ?path secret h = (Ret k, h1)"
    and ping: "Ping (x_cuda x) k h1 = (Ret (), h2)" and rest: "Restore (x_cuda x) k dir h2 = (Ret (), h3)"
  proof -
    from run have "fst (bindA (orc_dial x oc p) (\<lambda>cli. deferA (client_Close cli)
        (bindA (Ping (x_cuda x) cli) (\<lambda>_. bindA (wrapA CUDA ''gpu restore'' (Restore (x_cuda x) cli dir)) (\<lambda>_.
        bindA (logRestorePhase dir ''gpu'' p []) (\<lambda>_. bindA (wrapA RPC ''resume'' (Resume (x_cuda x) cli)) (\<lambda>_.
        bindA (logRestorePhase dir ''resume'' p []) (\<lambda>_. retA p))))))) h) = Ret q"
      by (simp add: tryShimRestore_def with_client_def)
    then obtain k h1 h2 h3 where "orc_dial x oc p h = (Ret k, h1)" "Ping (x_cuda x) k h1 = (Ret (), h2)"
      "wrapA CUDA ''gpu restore'' (Restore (x_cuda x) k dir) h2 = (Ret (), h3)"
      unfolding deferA_fst by (auto elim!: fst_bindA_RetE)
    then show thesis using that by (simp add: orc_dial_def bindA_readA secret_def)
  qed
  have "length secret < 2 ^ 32" using assms by (simp add: secret_def shim_world_def)
  moreover obtain st where "server_at h (path_of ?path) = Some (Shim st)"
  proof -
    from DialPathWithSecret_Ret(2) [OF dial] obtain srv where at: "server_at h (path_of ?path) = Some srv" by auto
    then have "is_shim srv" using assms(1) map_of_SomeD by (fastforce simp: server_at_def shim_world_def)
    then show thesis using that at by (cases srv) auto
  qed
  ultimately have "c_closed (conns h2 ! k)" using shim_ping_closes [OF dial _ _ ping] by blast
  then show False using rest call_closed [of h2 k] by (simp add: Restore_def expect_zero_def bindA_step)
qed

section \<open>The whole restore\<close>

text \<open>What a result satisfies, if there is one.\<close>

definition yields :: "'a hact \<Rightarrow> ('a \<Rightarrow> bool) \<Rightarrow> bool" where
  "yields m Q \<longleftrightarrow> (\<forall>h a h'. shim_world h \<longrightarrow> m h = (Ret a, h') \<longrightarrow> Q a)"

lemma yields_bind:
  assumes "keeps shim_world m" and "yields m R" and "\<And>a. R a \<Longrightarrow> yields (f a) Q"
  shows "yields (bindA m f) Q"
  unfolding yields_def
proof (intro allI impI)
  fix h b h' assume h: "shim_world h" and run: "bindA m f h = (Ret b, h')"
  then obtain a t where "m h = (Ret a, t)" and "f a t = (Ret b, h')" by (auto elim: bindA_RetE)
  then show "Q b" using h assms(2,3) keepsD [OF assms(1) h] unfolding yields_def by blast
qed

lemma yields_any: "yields m (\<lambda>_. True)"
  by (simp add: yields_def)

lemma yields_then: "keeps shim_world m \<Longrightarrow> (\<And>a. yields (f a) Q) \<Longrightarrow> yields (bindA m f) Q"
  by (erule yields_bind [OF _ yields_any])

lemma yields_cases:
  "(b \<Longrightarrow> yields u Q) \<Longrightarrow> (\<not> b \<Longrightarrow> yields v Q) \<Longrightarrow> yields (if b then u else v) Q"
  "(\<And>a. yields (k a) Q) \<Longrightarrow> (\<And>a. yields (l a) Q) \<Longrightarrow> yields (case e of Inl a \<Rightarrow> k a | Inr a \<Rightarrow> l a) Q"
  "Q a \<Longrightarrow> yields (retA a) Q" "yields (errA err) Q" "yields (liftA Diverge) Q"
  by (auto simp: yields_def split: sum.split)

lemma yields_try: "yields (tryA (tryShimRestore x oc dir p)) (\<lambda>r. \<exists>e. r = Inl e)"
  if "length (c_RpcSecret (o_cfg oc)) < 2 ^ 32"
  using tryShimRestore_never [OF _ that] by (auto simp: yields_def elim!: tryA_RetE)

lemmas shim_keeps = hshim.hrules hshim.handoff hshim.phase hshim.shim hshim.tryCandidates hshim.restoreRound
  hshim.restoreLoop hshim.log hshim.images hshim.Ensure

lemma tryCandidates_none:
  assumes "length (c_RpcSecret (o_cfg oc)) < 2 ^ 32"
  shows "yields (tryCandidates x oc dir attempt ps) (\<lambda>r. r = None)"
proof (induction ps)
  case (Cons p ps)
  have step: "yields (bindA (tryA (tryShimRestore x oc dir p)) (\<lambda>r. case r of
      Inl _ \<Rightarrow> tryCandidates x oc dir attempt ps | Inr got \<Rightarrow> n got)) (\<lambda>r. r = None)" for n
    by (rule yields_bind [OF _ yields_try [OF assms]]) (use Cons in \<open>auto intro: shim_keeps\<close>)
  show ?case
    unfolding tryCandidates.simps by (rule step Cons yields_cases yields_then shim_keeps)+
qed (simp add: yields_def)

lemma restoreRound_none:
  assumes "length (c_RpcSecret (o_cfg oc)) < 2 ^ 32"
  shows "yields (restoreRound x oc dir pid attempt) (\<lambda>r. r = None)"
proof -
  have step: "yields (bindA (tryCandidates x oc dir attempt ps) (\<lambda>got. case got of Some p \<Rightarrow> retA (Some p)
      | None \<Rightarrow> bindA (doA (sleepH d)) (\<lambda>_. retA None))) (\<lambda>r. r = None)" for ps d
    by (rule yields_bind [OF _ tryCandidates_none [OF assms]]) (auto intro: yields_then yields_cases shim_keeps)
  show ?thesis
    unfolding restoreRound_def Let_def orc_sortedShims_def by (rule step yields_cases refl yields_then shim_keeps)+
qed

lemma restoreLoop_none:
  assumes "length (c_RpcSecret (o_cfg oc)) < 2 ^ 32"
  shows "yields (restoreLoop n x oc dir pid deadline attempt) (\<lambda>r. \<exists>k. r = Inl k)"
proof (induction n arbitrary: attempt)
  case (Suc n)
  have step: "yields (bindA (restoreRound x oc dir pid (attempt + 1)) (\<lambda>got. case got of Some p \<Rightarrow> retA (Inr p)
      | None \<Rightarrow> restoreLoop n x oc dir pid deadline (attempt + 1))) (\<lambda>r. \<exists>k. r = Inl k)"
    by (rule yields_bind [OF _ restoreRound_none [OF assms]]) (use Suc in \<open>auto intro: shim_keeps\<close>)
  show ?case unfolding restoreLoop.simps by (rule step yields_cases exI refl yields_then shim_keeps)+
qed (simp add: yields_cases)

lemma waitForShim_never:
  assumes "length (c_RpcSecret (o_cfg oc)) < 2 ^ 32"
  shows "yields (waitForShim x oc dir pid) (\<lambda>_. False)"
proof -
  have step: "yields (bindA (restoreLoop (x_rounds x) x oc dir pid deadline 0) (\<lambda>r. case r of Inr got \<Rightarrow> retA got
      | Inl attempt \<Rightarrow> fail attempt)) (\<lambda>_. False)" if "\<And>k. yields (fail k) (\<lambda>_. False)" for deadline fail
    by (rule yields_bind [OF _ restoreLoop_none [OF assms]]) (use that in \<open>auto intro: shim_keeps\<close>)
  show ?thesis
    unfolding waitForShim_def Let_def by (rule step yields_cases yields_then shim_keeps)+
qed

text \<open>C10: with the repository's own shim a restore never succeeds. On a host where every process
  that listens, now or later, is the shim of \<open>shim/ipc.c\<close> (with any secret or none), with
  any image, backend and disk, \<open>Restore\<close> does not return a process: the orchestrator sends
  its second request, the restore, on a connection the shim closed after answering the first.\<close>

theorem Restore_never_with_shim:
  assumes "shim_world h" and "length (c_RpcSecret (o_cfg oc)) < 2 ^ 32"
    and "\<And>dir logFile vars. keeps shim_world (b_Restore (o_criu oc) dir logFile vars)"
  shows "orc_Restore x oc dir h \<noteq> (Ret pid, h')"
proof -
  have "yields (orc_Restore x oc dir) (\<lambda>_. False)"
    unfolding orc_Restore_def restoreFail_def restoreEnv_def settlePID_def
    by (intro yields_then yields_cases shim_keeps waitForShim_never assms(2,3))
  then show ?thesis using assms(1) by (auto simp: yields_def)
qed

text \<open>A restored process whose shim waits for its GPU state.\<close>

definition demo_shims :: host where
  "demo_shims = (demo_host [([''/'', ''run''], DirN), ([''/'', ''run'', ''cudackpt''], DirN), ([''/'', ''run'', ''cudackpt'', ''9.sock''], SockN)])
     \<lparr>servers := [([''/'', ''run'', ''cudackpt'', ''9.sock''], Shim \<lparr>sh_secret = [], sh_state = ST_FROZEN\<rparr>)]\<rparr>"

theorem Restore_never_witness: "\<forall>h'. orc_Restore demo_ext demo_orc ''img'' demo_shims \<noteq> (Ret 9, h')"
proof
  fix h'
  have "keeps shim_world (b_Restore (o_criu demo_orc) dir logFile vars)" for dir logFile vars
    by (simp add: demo_orc_def fakeBackend_def fake_Restore_def Let_def) (intro conjI impI hshim.hrules)
  moreover have "shim_world demo_shims"
    by (simp add: shim_world_def demo_shims_def demo_host_def Getenv_def)
  ultimately show "orc_Restore demo_ext demo_orc ''img'' demo_shims \<noteq> (Ret 9, h')"
    by (intro Restore_never_with_shim) (simp_all add: demo_orc_def builtin_def)
qed

end
