(* ===== verification/Drift_Theorems.thy ===== *)
theory Drift_Theorems
  imports Drift Demo_Host
begin

text \<open>
  What the comparison of \<open>pkg/control/drift.go\<close> decides: on manifests that name no device
  pointer twice an empty report means the same allocations with the same sizes and checksums,
  in any order.
\<close>

section \<open>Looking up a pointer\<close>

definition dr_key :: "Entry \<Rightarrow> u64 \<times> u64 \<times> u32" where
  "dr_key e = (e_Ptr e, e_Size e, e_CRC32C e)"

lemma byPtr_Some:
  assumes "distinct (map e_Ptr es)"
  shows "byPtr es p = Some b \<longleftrightarrow> b \<in> set es \<and> e_Ptr b = p"
proof -
  have "distinct (map fst (rev (map (\<lambda>e. (e_Ptr e, e)) es)))" using assms by (simp add: rev_map [symmetric] comp_def)
  then show ?thesis by (auto simp: byPtr_def)
qed

lemma entryDrift_none:
  assumes "distinct (map e_Ptr es)"
  shows "entryDrift (byPtr es) a = [] \<longleftrightarrow> dr_key a \<in> dr_key ` set es"
proof (cases "byPtr es (e_Ptr a)")
  case None
  then have "e_Ptr a \<notin> e_Ptr ` set es" using byPtr_Some [OF assms] by (metis imageE option.distinct(1))
  then show ?thesis using None by (auto simp: entryDrift_def dr_key_def)
next
  case (Some b)
  have b: "b \<in> set es" "e_Ptr b = e_Ptr a" using Some byPtr_Some [OF assms] by auto
  have uniq: "c = b" if "c \<in> set es" and "e_Ptr c = e_Ptr a" for c
    using that Some byPtr_Some [OF assms, of "e_Ptr a" c] by simp
  have "dr_key a \<in> dr_key ` set es \<longleftrightarrow> dr_key a = dr_key b"
  proof
    assume "dr_key a \<in> dr_key ` set es"
    then obtain c where "c \<in> set es" "dr_key a = dr_key c" by blast
    then show "dr_key a = dr_key b" using uniq [of c] by (simp add: dr_key_def)
  qed (use b(1) in blast)
  then show ?thesis using Some b(2) by (simp add: entryDrift_def dr_key_def)
qed

lemma keys_equal:
  assumes "distinct (map e_Ptr le)" and "distinct (map e_Ptr re)"
  shows "length le = length re \<and> dr_key ` set le \<subseteq> dr_key ` set re \<longleftrightarrow> dr_key ` set le = dr_key ` set re"
proof -
  have card: "card (dr_key ` set es) = length es" if "distinct (map e_Ptr es)" for es
  proof -
    have "inj_on dr_key (set es)" using that by (auto simp: inj_on_def dr_key_def distinct_map)
    then show ?thesis using that by (simp add: card_image distinct_card distinct_map)
  qed
  then show ?thesis
    using card [OF assms(1)] card [OF assms(2)] card_subset_eq [of "dr_key ` set re" "dr_key ` set le"] by auto
qed

section \<open>The report\<close>

text \<open>C22: comparing two images reports no drift of the manifest exactly when both list the same
  allocations, as sets of pointer, size and checksum, provided neither lists a pointer twice.
  Only as many entries of the left image are looked at as the right one has, but a difference
  in number is itself reported, so nothing is missed. Offsets, sequence numbers and content
  hashes may differ.\<close>

theorem CompareImages_manifest:
  assumes "CompareImages left right s = (Ret rep, t)"
    and "ReadManifest (Join left ''manifest.bin'') s = (Ret (le, lh), s)"
    and "ReadManifest (Join right ''manifest.bin'') s = (Ret (re, rh), s)"
    and "distinct (map e_Ptr le)" and "distinct (map e_Ptr re)"
  shows "dp_Manifest rep = [] \<longleftrightarrow>
    (\<lambda>e. (e_Ptr e, e_Size e, e_CRC32C e)) ` set le = (\<lambda>e. (e_Ptr e, e_Size e, e_CRC32C e)) ` set re"
proof -
  have rep: "dp_Manifest rep = countDrift lh rh @ concat (map (entryDrift (byPtr re)) (take (min (length le) (length re)) le))"
    using assms(1-3) by (auto simp: CompareImages_def bindA_step elim!: bindA_RetE)
  have len: "length le = unat (h_Count lh)" "length re = unat (h_Count rh)"
    using assms(2,3) parseManifest_Inr(2) by (auto simp: ReadManifest_Ret_iff)
  have count: "countDrift lh rh = [] \<longleftrightarrow> length le = length re"
    using len word_unat_eq_iff [of "h_Count lh" "h_Count rh"] by (simp add: countDrift_def)
  have "dp_Manifest rep = [] \<longleftrightarrow> length le = length re \<and> dr_key ` set le \<subseteq> dr_key ` set re"
    by (cases "length le = length re") (auto simp: rep count entryDrift_none [OF assms(5)])
  then show ?thesis
    using keys_equal [OF assms(4,5)] by (simp add: dr_key_def)
qed

text \<open>The same two allocations at other offsets are no drift, a changed checksum is one.\<close>

theorem CompareImages_manifest_witness:
  "\<forall>crc. \<exists>rep. fst (CompareImages ''base'' ''img'' (demo_pair [demo_entry 1 0 2 7, demo_entry 2 2 1 9] [1, 2, 3]
       [demo_entry 2 0 1 9, demo_entry 1 1 2 crc] [3, 1, 2])) = Ret rep \<and> (dp_Manifest rep = [] \<longleftrightarrow> crc = 7)"
proof
  fix crc :: u32
  let ?pes = "[demo_entry 1 0 2 7, demo_entry 2 2 1 9]" and ?es = "[demo_entry 2 0 1 9, demo_entry 1 1 2 crc]"
  let ?s = "demo_pair ?pes [1, 2, 3] ?es [3, 1, 2]"
  have man: "ReadManifest (Join ''base'' ''manifest.bin'') ?s = (Ret (?pes, manifestHeader ?pes 0 2), ?s)"
    "ReadManifest (Join ''img'' ''manifest.bin'') ?s = (Ret (?es, manifestHeader ?es 0 2), ?s)"
    by (simp_all add: ReadManifest_Ret_iff demo_path demo_pair_def node_at_def plain_def demo_parse)
  have meta: "\<exists>e. ReadMeta (Join d ''meta.bin'') ?s = (Err e, ?s)" if "d = ''base'' \<or> d = ''img''" for d
  proof -
    have "node_at ?s (path_of (Join d ''meta.bin'')) = None"
      using that by (auto simp: demo_path demo_pair_def node_at_def plain_def)
    then show ?thesis by (simp add: ReadMeta_def bindA_def os_ReadFile_def bindA_readA os_Open_def)
  qed
  obtain e where "ReadMeta (Join ''base'' ''meta.bin'') ?s = (Err e, ?s)" using meta [of "''base''"] by auto
  moreover obtain e' where "ReadMeta (Join ''img'' ''meta.bin'') ?s = (Err e', ?s)" using meta [of "''img''"] by auto
  ultimately obtain rep where run: "CompareImages ''base'' ''img'' ?s = (Ret rep, ?s)"
    using man by (simp add: CompareImages_def bindA_step tryA_step)
  have "dp_Manifest rep = [] \<longleftrightarrow> crc = 7"
    using CompareImages_manifest [OF run man] by (simp add: demo_entry_def doubleton_eq_iff)
  then show "\<exists>rep. fst (CompareImages ''base'' ''img'' ?s) = Ret rep \<and> (dp_Manifest rep = [] \<longleftrightarrow> crc = 7)"
    using run by simp
qed

end
