(* ===== verification/Promote_Theorems.thy ===== *)
theory Promote_Theorems
  imports Control_Theorems Demo_Host
begin

text \<open>
  Pinning (\<open>pkg/control/promote.go\<close>) against the garbage collector
  (\<open>pkg/control/retention.go\<close>): the two share only the text of the pin file.
\<close>

section \<open>Lines of a text that grows\<close>

lemma split_lines_append:
  assumes "a = [] \<or> last a = CHR 0x0A"
  shows "split_lines (a @ b) = split_lines a @ split_lines b"
  using assms
proof (induction a)
  case (Cons c a)
  show ?case
  proof (cases "a = []")
    case True
    then show ?thesis using Cons.prems by simp
  next
    case False
    then have "split_lines a \<noteq> []" by (cases a) (auto split: list.split)
    then show ?thesis using Cons False by (auto split: list.split)
  qed
qed simp

lemma split_lines_line: "CHR 0x0A \<notin> set l \<Longrightarrow> split_lines (l @ [CHR 0x0A]) = [l]"
  by (induction l) auto

text \<open>A text whose last line is \<open>q\<close> (nothing when the text ends in a newline), grown by a line.\<close>

lemma split_lines_grown:
  assumes "pre = [] \<or> last pre = CHR 0x0A" and "CHR 0x0A \<notin> set q" and "CHR 0x0A \<notin> set p"
  shows "split_lines (pre @ q @ p @ [CHR 0x0A]) = split_lines pre @ [q @ p]"
  using split_lines_append [OF assms(1), of "q @ p @ [CHR 0x0A]"] split_lines_line [of "q @ p"] assms(2,3) by simp

section \<open>The pin file\<close>

text \<open>The text of a file, empty when there is none; a path that survives a line of the pin file.\<close>

definition text_at :: "string \<Rightarrow> 'x os_state_scheme \<Rightarrow> string" where
  "text_at name s = (case node_at s (path_of name) of Some (FileN b) \<Rightarrow> string_of b | _ \<Rightarrow> [])"

definition pin_line :: "string \<Rightarrow> bool" where
  "pin_line p \<longleftrightarrow> p \<noteq> [] \<and> \<not> is_space (hd p) \<and> \<not> is_space (last p) \<and> hd p \<noteq> CHR ''#'' \<and> CHR 0x0A \<notin> set p \<and>
     int (length p) < max_token"

lemma pinnedLines_line:
  assumes "pin_line p"
  shows "pinnedLines [p] = [Clean p]" and "last p \<noteq> CHR 0x0D"
proof -
  have "TrimSpace p = p" using assms by (intro TrimSpace_id) (simp add: pin_line_def)
  moreover have "\<not> HasPrefix p ''#''" using assms by (cases p) (auto simp: pin_line_def HasPrefix_def)
  ultimately show "pinnedLines [p] = [Clean p]" using assms by (simp add: pinnedLines_def pin_line_def)
  show "last p \<noteq> CHR 0x0D" using assms by (auto simp: pin_line_def is_space_def)
qed

lemma pinnedLines_append: "pinnedLines (a @ b) = pinnedLines a @ pinnedLines b"
  by (simp add: pinnedLines_def)

lemma LoadPinnedPaths_text:
  assumes "pf \<noteq> []"
  shows "LoadPinnedPaths pf s = (Ret pinned, s) \<Longrightarrow>
      \<not> snd (scan_text (text_at pf s)) \<and> pinned = pinnedLines (fst (scan_text (text_at pf s)))"
    and "node_at s (path_of pf) = Some (FileN (bytes_of tx)) \<Longrightarrow> \<not> snd (scan_text tx) \<Longrightarrow>
      LoadPinnedPaths pf s = (Ret (pinnedLines (fst (scan_text tx))), s)"
  using assms
  by (auto simp: LoadPinnedPaths_def text_at_def os_Open_def tryA_def bindA_def Let_def scan_text_def pinnedLines_def
      split: option.splits node.splits if_splits)

lemma appendPinned_grows:
  assumes "appendPinnedPath pf path s = (Ret (), t)" and "pf \<noteq> []"
  obtains old where "LoadPinnedPaths pf s = (Ret old, s)" and "Clean path \<in> set old" and "t = s"
  | old where "LoadPinnedPaths pf s = (Ret old, s)" and "Clean path \<notin> set old"
    and "node_at t (path_of pf) = Some (FileN (bytes_of (text_at pf s @ Clean path @ [CHR 0x0A])))"
proof -
  obtain old s1 where ld: "LoadPinnedPaths pf s = (Ret old, s1)"
    and rest: "(if Clean path \<in> set old then retA () else os_AppendFile pf (bytes_of (Clean path @ nl))) s1 = (Ret (), t)"
    using assms(1) unfolding appendPinnedPath_def Let_def by (rule bindA_RetE)
  have s1: "s1 = s" using LoadPinnedPaths_pure [of pf s] ld by simp
  show ?thesis
  proof (cases "Clean path \<in> set old")
    case True
    then show ?thesis using that(1) ld rest s1 by simp
  next
    case False
    obtain prev where opn: "open_for_write pf (pop_fault s) = Ret prev"
      and t: "t = store_file (path_of pf) (prev @ bytes_of (Clean path @ nl)) (pop_fault s)"
      using rest False s1 by (auto elim!: os_write_RetE)
    have "prev = bytes_of (text_at pf s)"
      using opn by (auto simp: open_for_write_Ret text_at_def)
    then have "node_at t (path_of pf) = Some (FileN (bytes_of (text_at pf s @ Clean path @ [CHR 0x0A])))"
      using t by (simp add: node_at_store_file open_for_write_length [OF opn] nl_def)
    then show ?thesis using that(2) ld s1 False by blast
  qed
qed

text \<open>What the collector reads after a path has been pinned: with a newline at the end of the
  file the old pins and the new one, else the new path glued to the last line.\<close>

lemma grown_pins:
  assumes run: "appendPinnedPath pf path s = (Ret (), t)" and pf: "pf \<noteq> []"
    and body: "text_at pf s = pre @ q" "pre = [] \<or> last pre = CHR 0x0A" "CHR 0x0A \<notin> set q" "q = [] \<or> pin_line q"
    and path: "pin_line (Clean path)" "int (length (q @ Clean path)) < max_token"
  shows "(\<exists>old. LoadPinnedPaths pf s = (Ret old, s) \<and> Clean path \<in> set old \<and> t = s) \<or>
    LoadPinnedPaths pf t = (Ret (pinnedLines (fst (scan_text pre)) @ [Clean (q @ Clean path)]), t)"
  using appendPinned_grows [OF run pf]
proof cases
  case (2 old)
  let ?l = "q @ Clean path"
  have nl: "CHR 0x0A \<notin> set (Clean path)" using path(1) by (simp add: pin_line_def)
  have lines: "split_lines (text_at pf s @ Clean path @ [CHR 0x0A]) = split_lines pre @ [?l]"
    using split_lines_grown [OF body(2,3) nl] body(1) by simp
  have "\<not> snd (scan_text (text_at pf s))" using LoadPinnedPaths_text(1) [OF pf 2(1)] by simp
  then have short: "\<forall>l \<in> set (split_lines pre). int (length l) < max_token"
    using split_lines_append [OF body(2), of q] body(1) by (auto simp: scan_text_def list_ex_iff not_le)
  then have all: "takeWhile (\<lambda>l. int (length l) < max_token) (split_lines pre) = split_lines pre"
    by (simp add: takeWhile_eq_all_conv)
  have pl: "pin_line ?l"
    using path body(3,4) by (cases "q = []") (auto simp: pin_line_def)
  have scan: "scan_text (text_at pf s @ Clean path @ [CHR 0x0A]) = (fst (scan_text pre) @ [?l], False)"
    using short path(2) pinnedLines_line(2) [OF pl] by (auto simp: scan_text_def lines list_ex_iff takeWhile_append all)
  show ?thesis
    using LoadPinnedPaths_text(2) [OF pf 2(3)] scan pinnedLines_line(1) [OF pl]
    by (simp add: pinnedLines_append)
qed blast

section \<open>Pinning protects\<close>

lemma keeps_wf_os_appendPinned: "keeps wf_os (appendPinnedPath pf path)"
  unfolding appendPinnedPath_def Let_def
proof (rule keeps_bindA)
  show "keeps wf_os (LoadPinnedPaths pf)" by (simp add: keeps_def LoadPinnedPaths_pure)
  show "keeps wf_os (if Clean path \<in> set old then retA () else os_AppendFile pf b)" for old b
    by (simp add: keeps_pure keeps_wf_os_write)
qed

text \<open>C15: an image that \<open>promote\<close> has pinned survives garbage collection. When the pin file is
  empty, missing or ends in a newline, a successful pin adds the path to what the collector
  reads there and drops nothing; a collection that reads this pin file then leaves the image's
  tree as it is, however old it is, whatever the disk does. The path must not start or end
  in white space or start with a number sign, which the pin file cannot express.\<close>

theorem pinned_survives_gc:
  assumes "appendPinnedPath (g_PinFile opts) (Join (gcRoot opts) name) s = (Ret (), t)" and "g_PinFile opts \<noteq> []"
    and "text_at (g_PinFile opts) s = [] \<or> last (text_at (g_PinFile opts) s) = CHR 0x0A"
    and "pin_line (Clean (Join (gcRoot opts) name))" and "plain name"
    and "RunImageGC opts dryRun t = (Ret (plan, removed, err), u)" and "wf_os s"
    and "\<forall>w \<in> set (children t (path_of (gcRoot opts))). plain w"
  shows "tree_same (path_of (gcRoot opts) @ [name]) t u \<and>
    (\<exists>old new. LoadPinnedPaths (g_PinFile opts) s = (Ret old, s) \<and> LoadPinnedPaths (g_PinFile opts) t = (Ret new, t) \<and>
      set new = insert (Clean (Join (gcRoot opts) name)) (set old))"
proof -
  let ?pf = "g_PinFile opts" and ?path = "Join (gcRoot opts) name"
  obtain old where old: "LoadPinnedPaths ?pf s = (Ret old, s)"
    using appendPinned_grows [OF assms(1,2)] by metis
  have "\<exists>new. LoadPinnedPaths ?pf t = (Ret new, t) \<and> set new = insert (Clean ?path) (set old)"
    using grown_pins [OF assms(1,2) _ assms(3) _ _ assms(4), of "[]"] LoadPinnedPaths_text(1) [OF assms(2) old] assms(4) old
    by (auto simp: pin_line_def Clean_Clean insert_absorb)
  then obtain new where new: "LoadPinnedPaths ?pf t = (Ret new, t)" "set new = insert (Clean ?path) (set old)" by blast
  have "gc_protected opts new t name" using new(2) by (simp add: gc_protected_def Let_def)
  then show ?thesis
    using gc_protected_frame [OF assms(6) keepsD [OF keeps_wf_os_appendPinned assms(7,1)] assms(8) new(1) assms(5)] old new
    by blast
qed

text \<open>Without the newline the path is glued to the last line: both pins are lost, and the collector
  removes both images.\<close>

definition demo_pins :: "string \<Rightarrow> os_state" where
  "demo_pins pins = (demo_os
     [([''.'', ''r''], DirN), ([''.'', ''pins''], FileN (bytes_of pins)),
      ([''.'', ''r'', ''a''], DirN), ([''.'', ''r'', ''a'', ''COMPLETE''], FileN []),
      ([''.'', ''r'', ''b''], DirN), ([''.'', ''r'', ''b'', ''COMPLETE''], FileN [])])\<lparr>clock := 100\<rparr>"

lemma unterminated_pins_lost:
  "map_outcome (\<lambda>(plan, removed, err). (removed, err))
     (fst (bindA (appendPinnedPath ''pins'' ''r/b'') (\<lambda>_. RunImageGC demo_gc_opts False) (demo_pins ''r/a''))) =
   Ret ([''r/a'', ''r/b''], None)"
  by code_simp

theorem pinned_survives_gc_witness:
  "tree_same (path_of ''r'' @ [''b'']) (snd (appendPinnedPath ''pins'' ''r/b'' (demo_pins (''r/a'' @ [CHR 0x0A]))))
     (snd (bindA (appendPinnedPath ''pins'' ''r/b'') (\<lambda>_. RunImageGC demo_gc_opts False) (demo_pins (''r/a'' @ [CHR 0x0A]))))"
proof -
  let ?s = "demo_pins (''r/a'' @ [CHR 0x0A])"
  have opts: "gcRoot demo_gc_opts = ''r''" "g_PinFile demo_gc_opts = ''pins''"
    by (simp_all add: gcRoot_def demo_gc_opts_def)
  have join: "Join ''r'' ''b'' = ''r/b''" "Clean ''r/b'' = ''r/b''" by code_simp+
  have "fst (appendPinnedPath ''pins'' ''r/b'' ?s) = Ret ()" by code_simp
  then obtain t where t: "appendPinnedPath ''pins'' ''r/b'' ?s = (Ret (), t)" by (metis prod.collapse)
  have gc: "map_outcome (\<lambda>(plan, removed, err). (removed, err)) (fst (bindA (appendPinnedPath ''pins'' ''r/b'')
      (\<lambda>_. RunImageGC demo_gc_opts False) ?s)) = Ret ([], None)"
    by code_simp
  obtain plan removed err u where u: "RunImageGC demo_gc_opts False t = (Ret (plan, removed, err), u)"
  proof -
    obtain r u where "RunImageGC demo_gc_opts False t = (r, u)" by fastforce
    with gc t that show thesis by (cases r) (auto simp: bindA_step)
  qed
  have "children (snd (appendPinnedPath ''pins'' ''r/b'' ?s)) (path_of ''r'') = [''a'', ''b'']" by code_simp
  then have names: "\<forall>w \<in> set (children t (path_of ''r'')). plain w" using t by (simp add: plain_def)
  have body: "text_at ''pins'' ?s = ''r/a'' @ [CHR 0x0A]" by code_simp
  have "wf_os ?s" unfolding wf_os_def demo_pins_def demo_os_def node_at_def by auto
  moreover have "pin_line ''r/b''" by code_simp
  ultimately show ?thesis
    using pinned_survives_gc [of demo_gc_opts "''b''" ?s t False plan removed err u] t u names body
    by (simp add: opts join plain_def bindA_step)
qed

end
