(* ===== verification/Report_Theorems.thy ===== *)
theory Report_Theorems
  imports Demo_Host
begin

text \<open>
  Small facts about what the command line prints and parses: the tables of
  \<open>pkg/report/report.go\<close> and \<open>pkg/bench/bench.go\<close>, and the ages of \<open>gc\<close>.
\<close>

section \<open>The table of a report\<close>

text \<open>For ASCII cells a line of cells is longer than its borders, by one for each column.\<close>

lemma cellLine_longer:
  assumes "\<forall>c \<in> set cols. \<forall>x \<in> set c. (of_char x :: nat) < 128"
  shows "length (cellLine cols) = length (borderLine cols) + length cols"
  using assms
  by (induction cols) (auto simp: cellLine_def borderLine_def colWidth_def pad_right_def rune_count_ascii)

section \<open>The table of a benchmark\<close>

lemma pad_length:
  "\<forall>x \<in> set c. (of_char x :: nat) < 128 \<Longrightarrow> length c \<le> n \<Longrightarrow> length (pad_right n c) = n"
  "\<forall>x \<in> set c. (of_char x :: nat) < 128 \<Longrightarrow> length c \<le> n \<Longrightarrow> length (pad_left n c) = n"
  by (simp_all add: pad_right_def pad_left_def rune_count_ascii)

text \<open>A row whose cells fit is as long as the lines around it.\<close>

lemma benchRow_aligned:
  assumes "\<forall>c \<in> {re_Op r, Itoa (re_Count r), Duration_String (Duration_Round (re_Elapsed r) Microsecond),
      fixed1 (re_PerOpUs r), Itoa (re_Errors r)}. \<forall>x \<in> set c. (of_char x :: nat) < 128"
    and "length (re_Op r) \<le> 6" and "length (Itoa (re_Count r)) \<le> 5"
    and "length (Duration_String (Duration_Round (re_Elapsed r) Microsecond)) \<le> 9"
    and "length (fixed1 (re_PerOpUs r)) \<le> 8" and "length (Itoa (re_Errors r)) \<le> 6"
  shows "length (benchRow r) = length (''+--------+-------+-----------+----------+--------+'' @ nl)"
  using assms by (simp add: benchRow_def pad_length nl_def)

section \<open>Ages\<close>

text \<open>The days of \<open>--older-than\<close> are multiplied in 64 bits: 213504 of them come out as less than
  half an hour, so that nearly everything is old enough to be removed.\<close>

lemma parseAge_wraps: "parseAge ''213504d'' = Inr 1526290448384 \<and> (1526290448384 :: Duration) < 30 * 60 * Second"
proof
  have "HasSuffix ''213504d'' ''d''" by code_simp
  moreover have "Atoi ''213504'' = Some 213504"
    by (simp add: Atoi_def dec_nat_def digit_val_def is_digit_def)
  ultimately show "parseAge ''213504d'' = Inr 1526290448384" by (simp add: parseAge_def atoi_def Hour_def)
  show "(1526290448384 :: Duration) < 30 * 60 * Second" by (simp add: Second_def)
qed

end
