(* ===== verification/Shim_Tracker.thy ===== *)
theory Shim_Tracker
  imports Prelude "HOL-Library.Multiset"
begin

text \<open>
  \<open>shim/tracker.cpp\<close>, \<open>shim/errcode.c\<close> and the bookkeeping of \<open>shim/interpose.c\<close>:
  what the shim remembers of the process's calls into the CUDA driver. Handles and device
  addresses are 64-bit words, \<open>0\<close> the null pointer. A hash map is an association list in
  one of the orders it may be iterated in; allocations lie in 64 such maps by their
  address. Every method runs under its mutex and is one step. \<open>interposed\<close> is the effect of
  one call of the process, with the driver's answers as arguments. The theory closes with
  the refinement: sorting the 64 maps by sequence number gives the list of live allocations
  in the order they were made.
\<close>

section \<open>State\<close>

type_synonym handle = u64
type_synonym dptr = u64
type_synonym CUresult = u32

definition CUDA_SUCCESS :: CUresult where "CUDA_SUCCESS = 0"

record AllocRec =
  a_base :: dptr
  a_size :: u64
  a_ctx :: handle
  a_flags :: u32
  a_seq :: u64

record StreamRec =
  s_stream :: handle
  s_ctx :: handle
  s_flags :: u32
  s_priority :: u32
  s_capture_status :: u32

record CtxRec =
  c_ctx :: handle
  c_dev :: u32
  c_flags :: u32

record ModuleRec =
  mo_mod :: handle
  mo_ctx :: handle
  mo_path :: string
  mo_image :: bytes
  mo_seq :: u64

record SymbolRec =
  y_fn :: handle
  y_mod :: handle
  y_name :: string

record EventRec =
  v_event :: handle
  v_ctx :: handle
  v_flags :: u32

record Tracker =
  t_shards :: "(dptr \<times> AllocRec) list list"
  t_streams :: "(handle \<times> StreamRec) list"
  t_ctxs :: "(handle \<times> CtxRec) list"
  t_modules :: "(handle \<times> ModuleRec) list"
  t_symbols :: "SymbolRec list"
  t_events :: "(handle \<times> EventRec) list"
  t_primary :: handle
  t_primary_flags :: u32
  t_device :: u32
  t_device_flags :: u32
  t_bad :: bool
  t_bad_code :: u32
  t_bad_reason :: string
  t_image_dir :: string
  t_state :: u32
  t_next_seq :: u64
  t_host_callbacks :: u64

definition kShards :: nat where "kShards = 64"

definition Tracker0 :: Tracker where
  "Tracker0 = \<lparr>t_shards = replicate kShards [], t_streams = [], t_ctxs = [], t_modules = [], t_symbols = [],
     t_events = [], t_primary = 0, t_primary_flags = 0, t_device = 0, t_device_flags = 0, t_bad = False,
     t_bad_code = 0, t_bad_reason = [], t_image_dir = [], t_state = 0, t_next_seq = 1, t_host_callbacks = 0\<rparr>"

section \<open>tracker.cpp\<close>

definition shard_of :: "dptr \<Rightarrow> nat" where
  "shard_of p = unat (drop_bit 6 p) mod kShards"

definition track_alloc :: "dptr \<Rightarrow> u64 \<Rightarrow> handle \<Rightarrow> u32 \<Rightarrow> Tracker \<Rightarrow> Tracker" where
  "track_alloc p sz ctx fl tr =
     (if p = 0 then tr
      else
        let i = shard_of p;
            rec = \<lparr>a_base = p, a_size = sz, a_ctx = ctx, a_flags = fl, a_seq = t_next_seq tr\<rparr>
        in tr\<lparr>t_next_seq := t_next_seq tr + 1,
              t_shards := (t_shards tr)[i := AList.update p rec (t_shards tr ! i)]\<rparr>)"

definition untrack_alloc :: "dptr \<Rightarrow> Tracker \<Rightarrow> Tracker" where
  "untrack_alloc p tr =
     (if p = 0 then tr
      else tr\<lparr>t_shards := (t_shards tr)[shard_of p := AList.delete p (t_shards tr ! shard_of p)]\<rparr>)"

definition lookup_alloc :: "dptr \<Rightarrow> Tracker \<Rightarrow> AllocRec option" where
  "lookup_alloc p tr = map_of (t_shards tr ! shard_of p) p"

definition allocs_snapshot :: "Tracker \<Rightarrow> AllocRec list" where
  "allocs_snapshot tr = sort_key a_seq (map snd (concat (t_shards tr)))"

definition alloc_count :: "Tracker \<Rightarrow> u64" where
  "alloc_count tr = foldl (\<lambda>n m. n + word_of_nat (length m)) 0 (t_shards tr)"

definition total_bytes :: "Tracker \<Rightarrow> u64" where
  "total_bytes tr = foldl (\<lambda>t kv. t + a_size (snd kv)) 0 (concat (t_shards tr))"

definition track_stream :: "handle \<Rightarrow> handle \<Rightarrow> u32 \<Rightarrow> Tracker \<Rightarrow> Tracker" where
  "track_stream s ctx fl tr =
     (if s = 0 then tr
      else tr\<lparr>t_streams := AList.update s
        \<lparr>s_stream = s, s_ctx = ctx, s_flags = fl, s_priority = 0, s_capture_status = 0\<rparr> (t_streams tr)\<rparr>)"

definition untrack_stream :: "handle \<Rightarrow> Tracker \<Rightarrow> Tracker" where
  "untrack_stream s tr = (if s = 0 then tr else tr\<lparr>t_streams := AList.delete s (t_streams tr)\<rparr>)"

definition update_stream_state :: "handle \<Rightarrow> u32 \<Rightarrow> u32 \<Rightarrow> Tracker \<Rightarrow> Tracker" where
  "update_stream_state s priority capture tr =
     (if s = 0 then tr
      else (case map_of (t_streams tr) s of
        None \<Rightarrow> tr
      | Some r \<Rightarrow> tr\<lparr>t_streams := AList.update s (r\<lparr>s_priority := priority, s_capture_status := capture\<rparr>) (t_streams tr)\<rparr>))"

definition streams_snapshot :: "Tracker \<Rightarrow> StreamRec list" where
  "streams_snapshot tr = map snd (t_streams tr)"

definition track_ctx :: "handle \<Rightarrow> u32 \<Rightarrow> u32 \<Rightarrow> Tracker \<Rightarrow> Tracker" where
  "track_ctx c d fl tr =
     (if c = 0 then tr else tr\<lparr>t_ctxs := AList.update c \<lparr>c_ctx = c, c_dev = d, c_flags = fl\<rparr> (t_ctxs tr)\<rparr>)"

definition untrack_ctx :: "handle \<Rightarrow> Tracker \<Rightarrow> Tracker" where
  "untrack_ctx c tr = (if c = 0 then tr else tr\<lparr>t_ctxs := AList.delete c (t_ctxs tr)\<rparr>)"

definition ctxs_snapshot :: "Tracker \<Rightarrow> CtxRec list" where
  "ctxs_snapshot tr = map snd (t_ctxs tr)"

text \<open>The image is copied only when its length is given and not zero.\<close>

definition track_module :: "handle \<Rightarrow> handle \<Rightarrow> string \<Rightarrow> bytes \<Rightarrow> nat \<Rightarrow> Tracker \<Rightarrow> Tracker" where
  "track_module m ctx path img image_len tr =
     (if m = 0 then tr
      else tr\<lparr>t_next_seq := t_next_seq tr + 1,
        t_modules := AList.update m \<lparr>mo_mod = m, mo_ctx = ctx, mo_path = path,
          mo_image = take image_len img, mo_seq = t_next_seq tr\<rparr> (t_modules tr)\<rparr>)"

definition untrack_module :: "handle \<Rightarrow> Tracker \<Rightarrow> Tracker" where
  "untrack_module m tr = (if m = 0 then tr else tr\<lparr>t_modules := AList.delete m (t_modules tr)\<rparr>)"

definition modules_snapshot :: "Tracker \<Rightarrow> ModuleRec list" where
  "modules_snapshot tr = sort_key mo_seq (map snd (t_modules tr))"

definition track_symbol :: "handle \<Rightarrow> handle \<Rightarrow> string \<Rightarrow> Tracker \<Rightarrow> Tracker" where
  "track_symbol fn m name tr =
     (if fn = 0 then tr else tr\<lparr>t_symbols := t_symbols tr @ [\<lparr>y_fn = fn, y_mod = m, y_name = name\<rparr>]\<rparr>)"

definition symbols_for_module :: "handle \<Rightarrow> Tracker \<Rightarrow> SymbolRec list" where
  "symbols_for_module m tr = filter (\<lambda>s. y_mod s = m) (t_symbols tr)"

definition track_event :: "handle \<Rightarrow> handle \<Rightarrow> u32 \<Rightarrow> Tracker \<Rightarrow> Tracker" where
  "track_event e ctx fl tr =
     (if e = 0 then tr else tr\<lparr>t_events := AList.update e \<lparr>v_event = e, v_ctx = ctx, v_flags = fl\<rparr> (t_events tr)\<rparr>)"

definition untrack_event :: "handle \<Rightarrow> Tracker \<Rightarrow> Tracker" where
  "untrack_event e tr = (if e = 0 then tr else tr\<lparr>t_events := AList.delete e (t_events tr)\<rparr>)"

definition events_snapshot :: "Tracker \<Rightarrow> EventRec list" where
  "events_snapshot tr = map snd (t_events tr)"

definition host_callback_enter :: "Tracker \<Rightarrow> Tracker" where
  "host_callback_enter tr = tr\<lparr>t_host_callbacks := t_host_callbacks tr + 1\<rparr>"

definition host_callback_leave :: "Tracker \<Rightarrow> Tracker" where
  "host_callback_leave tr =
     (if 0 < t_host_callbacks tr then tr\<lparr>t_host_callbacks := t_host_callbacks tr - 1\<rparr> else tr)"

definition set_primary :: "handle \<Rightarrow> Tracker \<Rightarrow> Tracker" where
  "set_primary c tr =
     (let fl = (case map_of (t_ctxs tr) c of None \<Rightarrow> 0 | Some r \<Rightarrow> c_flags r)
      in tr\<lparr>t_primary := c, t_primary_flags := fl\<rparr>)"

definition mark_unsupported :: "u32 \<Rightarrow> string \<Rightarrow> Tracker \<Rightarrow> Tracker" where
  "mark_unsupported code reason tr = tr\<lparr>t_bad := True, t_bad_code := code, t_bad_reason := reason\<rparr>"

text \<open>What \<open>clear\<close> empties; the primary context, the device and the counters stay.\<close>

definition tracker_clear :: "Tracker \<Rightarrow> Tracker" where
  "tracker_clear tr = tr\<lparr>t_shards := replicate kShards [], t_streams := [], t_ctxs := [], t_modules := [],
     t_symbols := [], t_events := []\<rparr>"

record TrackerStats =
  ts_alloc_count :: u64
  ts_total_bytes :: u64
  ts_stream_count :: u64
  ts_module_count :: u64
  ts_symbol_count :: u64
  ts_event_count :: u64
  ts_ctx_count :: u64
  ts_unsupported_code :: u32
  ts_state :: u32

definition stats_snapshot :: "Tracker \<Rightarrow> TrackerStats" where
  "stats_snapshot tr = \<lparr>ts_alloc_count = alloc_count tr, ts_total_bytes = total_bytes tr,
     ts_stream_count = word_of_nat (length (streams_snapshot tr)), ts_module_count = word_of_nat (length (t_modules tr)),
     ts_symbol_count = word_of_nat (length (t_symbols tr)), ts_event_count = word_of_nat (length (t_events tr)),
     ts_ctx_count = word_of_nat (length (ctxs_snapshot tr)), ts_unsupported_code = t_bad_code tr, ts_state = t_state tr\<rparr>"

section \<open>errcode.c and interpose.c\<close>

definition CKPT_ERR_NCCL :: u32 where "CKPT_ERR_NCCL = 100"
definition CKPT_ERR_CUDA_GRAPH :: u32 where "CKPT_ERR_CUDA_GRAPH = 101"
definition CKPT_ERR_MIG :: u32 where "CKPT_ERR_MIG = 102"
definition CKPT_ERR_MULTI_GPU :: u32 where "CKPT_ERR_MULTI_GPU = 103"
definition CKPT_ERR_PEER_ACCESS :: u32 where "CKPT_ERR_PEER_ACCESS = 104"

definition ckpt_err_name :: "u32 \<Rightarrow> string" where
  "ckpt_err_name code =
     (if code = 0 then ''none'' else if code = CKPT_ERR_NCCL then ''nccl''
      else if code = CKPT_ERR_CUDA_GRAPH then ''cuda_graph'' else if code = CKPT_ERR_MIG then ''mig''
      else if code = CKPT_ERR_MULTI_GPU then ''multi_gpu'' else if code = CKPT_ERR_PEER_ACCESS then ''peer_access''
      else ''unsupported'')"

text \<open>Each test that succeeds overwrites what the one before it marked.\<close>

definition guard_symbol :: "string \<Rightarrow> Tracker \<Rightarrow> Tracker" where
  "guard_symbol api tr =
     (let tr1 = (if sublist ''nccl'' api \<or> sublist ''NCCL'' api then mark_unsupported CKPT_ERR_NCCL ''nccl'' tr else tr);
          tr2 = (if sublist ''Graph'' api \<or> sublist ''graph'' api
                 then mark_unsupported CKPT_ERR_CUDA_GRAPH ''cuda graph'' tr1 else tr1)
      in if sublist ''MIG'' api \<or> sublist ''mig'' api then mark_unsupported CKPT_ERR_MIG ''mig'' tr2 else tr2)"

text \<open>
  A call of the process and what the driver answered: the result, the handles it returned,
  and the calling thread's current context where the wrapper asks for it.
\<close>

datatype cuda_call =
    CuInit CUresult "int option"
  | CuDeviceGet CUresult u32
  | CuDeviceSetFlags u32
  | CuDevicePrimaryCtxRetain CUresult handle u32
  | CuCtxCreate CUresult handle u32 u32
  | CuCtxDestroy handle
  | CuCtxSetCurrent handle
  | CuModuleLoad CUresult handle string handle
  | CuModuleLoadData CUresult handle bytes handle
  | CuModuleUnload handle
  | CuModuleGetFunction CUresult handle handle string
  | CuMemAlloc CUresult dptr u64 handle
  | CuMemFree dptr
  | CuStreamCreate CUresult handle u32 handle
  | CuStreamDestroy handle
  | CuEventCreate CUresult handle u32 handle
  | CuEventDestroy handle
  | CuLaunchHostFunc bool
  | HostWrapDone
  | CuGraphLaunch
  | CuStreamBeginCapture
  | CuStreamEndCapture
  | CuDeviceCanAccessPeer u32 u32
  | CuGetProcAddress string

fun interposed :: "cuda_call \<Rightarrow> Tracker \<Rightarrow> Tracker" where
  "interposed (CuInit r n) tr =
     (if r = CUDA_SUCCESS \<and> (case n of None \<Rightarrow> False | Some n \<Rightarrow> 1 < n)
      then mark_unsupported CKPT_ERR_MULTI_GPU ''multi gpu'' tr else tr)"
| "interposed (CuDeviceGet r dev) tr = (if r = CUDA_SUCCESS then tr\<lparr>t_device := dev\<rparr> else tr)"
| "interposed (CuDeviceSetFlags flags) tr = tr\<lparr>t_device_flags := flags\<rparr>"
| "interposed (CuDevicePrimaryCtxRetain r ctx dev) tr =
     (if r = CUDA_SUCCESS \<and> ctx \<noteq> 0 then set_primary ctx (track_ctx ctx dev 0 tr) else tr)"
| "interposed (CuCtxCreate r ctx flags dev) tr =
     (if r = CUDA_SUCCESS \<and> ctx \<noteq> 0 then set_primary ctx (track_ctx ctx dev flags tr) else tr)"
| "interposed (CuCtxDestroy ctx) tr = untrack_ctx ctx tr"
| "interposed (CuCtxSetCurrent ctx) tr = (if ctx \<noteq> 0 then set_primary ctx tr else tr)"
| "interposed (CuModuleLoad r m path cur) tr =
     (if r = CUDA_SUCCESS \<and> m \<noteq> 0 then track_module m cur path [] 0 tr else tr)"
| "interposed (CuModuleLoadData r m img cur) tr =
     (if r = CUDA_SUCCESS \<and> m \<noteq> 0 then track_module m cur [] img 0 tr else tr)"
| "interposed (CuModuleUnload m) tr = untrack_module m tr"
| "interposed (CuModuleGetFunction r fn m name) tr =
     (if r = CUDA_SUCCESS \<and> fn \<noteq> 0 then track_symbol fn m name tr else tr)"
| "interposed (CuMemAlloc r p sz cur) tr = (if r = CUDA_SUCCESS then track_alloc p sz cur 0 tr else tr)"
| "interposed (CuMemFree p) tr = untrack_alloc p tr"
| "interposed (CuStreamCreate r s flags cur) tr = (if r = CUDA_SUCCESS then track_stream s cur flags tr else tr)"
| "interposed (CuStreamDestroy s) tr = untrack_stream s tr"
| "interposed (CuEventCreate r e flags cur) tr =
     (if r = CUDA_SUCCESS \<and> e \<noteq> 0 then track_event e cur flags tr else tr)"
| "interposed (CuEventDestroy e) tr = untrack_event e tr"
| "interposed (CuLaunchHostFunc available) tr = (if available then host_callback_enter tr else tr)"
| "interposed HostWrapDone tr = host_callback_leave tr"
| "interposed CuGraphLaunch tr = mark_unsupported CKPT_ERR_CUDA_GRAPH ''cuda graph'' tr"
| "interposed CuStreamBeginCapture tr = mark_unsupported CKPT_ERR_CUDA_GRAPH ''cuda graph'' tr"
| "interposed CuStreamEndCapture tr = mark_unsupported CKPT_ERR_CUDA_GRAPH ''cuda graph'' tr"
| "interposed (CuDeviceCanAccessPeer dev peer) tr =
     (if dev \<noteq> peer then mark_unsupported CKPT_ERR_PEER_ACCESS ''peer access'' tr else tr)"
| "interposed (CuGetProcAddress symbol) tr = guard_symbol symbol tr"

text \<open>Everything the process did since the shim was loaded.\<close>

definition tracked :: "cuda_call list \<Rightarrow> Tracker" where
  "tracked calls = foldl (\<lambda>tr c. interposed c tr) Tracker0 calls"

section \<open>The 64 maps against one list\<close>

text \<open>The specification: the live allocations, oldest first.\<close>

type_synonym live = "dptr \<times> u64 \<times> handle"

fun live_step :: "live list \<Rightarrow> cuda_call \<Rightarrow> live list" where
  "live_step L (CuMemAlloc r p sz cur) =
     (if r = CUDA_SUCCESS \<and> p \<noteq> 0 then filter (\<lambda>l. fst l \<noteq> p) L @ [(p, sz, cur)] else L)"
| "live_step L (CuMemFree p) = filter (\<lambda>l. fst l \<noteq> p) L"
| "live_step L _ = L"

definition live_allocs :: "cuda_call list \<Rightarrow> live list" where
  "live_allocs calls = foldl live_step [] calls"

definition alloc_view :: "AllocRec \<Rightarrow> live" where
  "alloc_view a = (a_base a, a_size a, a_ctx a)"

text \<open>Every allocation lies once, in the map of its address.\<close>

definition shards_ok :: "(dptr \<times> AllocRec) list list \<Rightarrow> bool" where
  "shards_ok sh \<longleftrightarrow> length sh = kShards \<and>
     (\<forall>i < kShards. distinct (map fst (sh ! i)) \<and>
        (\<forall>(k, a) \<in> set (sh ! i). shard_of k = i \<and> a_base a = k \<and> k \<noteq> 0))"

lemma shard_of_less [simp]: "shard_of p < kShards"
  by (simp add: shard_of_def kShards_def)

lemma shards_ok_update:
  assumes "shards_ok sh" and "i < kShards" and "distinct (map fst m)"
    and "\<And>k a. (k, a) \<in> set m \<Longrightarrow> shard_of k = i \<and> a_base a = k \<and> k \<noteq> 0"
  shows "shards_ok (sh[i := m])"
  using assms by (auto simp: shards_ok_def nth_list_update)

lemma set_AList_update_subset: "set (AList.update k v l) \<subseteq> insert (k, v) (set l)"
  by (induction l) auto

lemma mset_concat_update:
  "i < length xs \<Longrightarrow> mset (concat (xs[i := m])) + mset (xs ! i) = mset (concat xs) + mset m"
proof (induction xs arbitrary: i)
  case (Cons x xs)
  then show ?case by (cases i) (auto simp: ac_simps)
qed simp

lemma shards_okD:
  assumes "shards_ok sh" and "i < kShards"
  shows "distinct (map fst (sh ! i))"
    and "(k, a) \<in> set (sh ! i) \<Longrightarrow> shard_of k = i \<and> a_base a = k \<and> k \<noteq> 0"
  using assms by (auto simp: shards_ok_def)

lemma shards_ok_base:
  assumes "shards_ok sh" and "kv \<in> set (concat sh)"
  shows "a_base (snd kv) = fst kv \<and> fst kv \<noteq> 0"
proof -
  from assms(2) obtain m where "m \<in> set sh" and kv: "kv \<in> set m" by auto
  then obtain i where "i < length sh" "sh ! i = m" by (auto simp: in_set_conv_nth)
  then show ?thesis
    using shards_okD(2) [OF assms(1), of i "fst kv" "snd kv"] kv assms(1) by (simp add: shards_ok_def)
qed

lemma filter_concat_shard:
  assumes "shards_ok sh"
  shows "concat (sh[shard_of p := filter (\<lambda>kv. fst kv \<noteq> p) (sh ! shard_of p)]) = filter (\<lambda>kv. fst kv \<noteq> p) (concat sh)"
proof -
  have "filter (\<lambda>kv. fst kv \<noteq> p) (sh ! i) = sh ! i" if "i < kShards" "i \<noteq> shard_of p" for i
    using shards_okD(2) [OF assms that(1)] that(2) by (intro filter_True) auto
  then have "map (filter (\<lambda>kv. fst kv \<noteq> p)) sh = sh[shard_of p := filter (\<lambda>kv. fst kv \<noteq> p) (sh ! shard_of p)]"
    using assms by (intro nth_equalityI) (auto simp: shards_ok_def nth_list_update)
  then show ?thesis by (simp add: filter_concat)
qed

lemma mset_AList_update:
  "distinct (map fst al) \<Longrightarrow> mset (AList.update k v al) = add_mset (k, v) (mset (filter (\<lambda>kv. fst kv \<noteq> k) al))"
proof (induction al)
  case (Cons kv al)
  moreover have "k \<notin> fst ` set al \<Longrightarrow> mset (filter (\<lambda>kv. fst kv \<noteq> k) al) = mset al"
    by (metis (mono_tags, lifting) filter_True image_eqI)
  ultimately show ?case by (cases kv) auto
qed simp

lemma shards_delete:
  "shards_ok sh \<Longrightarrow> concat (sh[shard_of p := AList.delete p (sh ! shard_of p)]) = filter (\<lambda>kv. fst kv \<noteq> p) (concat sh)"
  using filter_concat_shard [of sh p] by (simp add: AList.delete_eq case_prod_beta' eq_commute)

lemma mset_shards_update:
  assumes "shards_ok sh"
  shows "mset (concat (sh[shard_of p := AList.update p r (sh ! shard_of p)])) =
    add_mset (p, r) (mset (filter (\<lambda>kv. fst kv \<noteq> p) (concat sh)))"
proof -
  let ?i = "shard_of p" and ?m = "filter (\<lambda>kv. fst kv \<noteq> p) (sh ! shard_of p)"
  have len: "length sh = kShards" using assms by (simp add: shards_ok_def)
  have "mset (concat (sh[?i := AList.update p r (sh ! ?i)])) + mset ?m =
      mset (concat (sh[?i := ?m])) + mset (AList.update p r (sh ! ?i))"
    using mset_concat_update [of ?i "sh[?i := ?m]" "AList.update p r (sh ! ?i)"] len by simp
  also have "\<dots> = add_mset (p, r) (mset (concat (sh[?i := ?m]))) + mset ?m"
    using mset_AList_update [OF shards_okD(1) [OF assms shard_of_less]] by simp
  finally show ?thesis unfolding filter_concat_shard [OF assms] by (rule add_right_imp_eq)
qed

text \<open>
  The relation: the maps are sound, and their records are, in some order, a list with the
  wanted view whose sequence numbers increase and stay below the next one.
\<close>

definition tracks :: "Tracker \<Rightarrow> AllocRec list \<Rightarrow> bool" where
  "tracks tr As \<longleftrightarrow> shards_ok (t_shards tr) \<and> mset (map snd (concat (t_shards tr))) = mset As \<and>
     sorted_wrt (<) (map a_seq As) \<and> (\<forall>a \<in> set As. a_seq a < t_next_seq tr)"

lemma map_snd_filter_shards:
  assumes "shards_ok sh"
  shows "map snd (filter (\<lambda>kv. fst kv \<noteq> p) (concat sh)) = filter (\<lambda>a. a_base a \<noteq> p) (map snd (concat sh))"
proof -
  have base: "a_base (snd kv) = fst kv" if "kv \<in> set (concat sh)" for kv
    using shards_ok_base [OF assms that] by simp
  show ?thesis
    unfolding filter_map by (intro arg_cong [of _ _ "map snd"] filter_cong refl) (simp only: base comp_apply)
qed

lemma allocs_snapshot_tracks:
  assumes "tracks tr As"
  shows "allocs_snapshot tr = As"
proof -
  from assms have "distinct (map a_seq As)" and "sorted (map a_seq As)"
    by (auto simp: tracks_def strict_sorted_iff)
  moreover have "mset (map snd (concat (t_shards tr))) = mset As" using assms by (simp add: tracks_def)
  moreover from this have "set (map snd (concat (t_shards tr))) = set As" by (metis set_mset_mset)
  ultimately show ?thesis
    unfolding allocs_snapshot_def by (intro sort_key_inj_key_eq) (simp_all add: distinct_map)
qed

lemma sorted_wrt_map_filter: "sorted_wrt R (map f xs) \<Longrightarrow> sorted_wrt R (map f (filter P xs))"
  by (induction xs) auto

lemma tracks_alloc:
  assumes "tracks tr As" and "p \<noteq> 0" and "t_next_seq tr < t_next_seq tr + 1"
  shows "tracks (track_alloc p sz ctx fl tr) (filter (\<lambda>a. a_base a \<noteq> p) As @
    [\<lparr>a_base = p, a_size = sz, a_ctx = ctx, a_flags = fl, a_seq = t_next_seq tr\<rparr>])"
proof -
  let ?sh = "t_shards tr" and ?i = "shard_of p"
  let ?r = "\<lparr>a_base = p, a_size = sz, a_ctx = ctx, a_flags = fl, a_seq = t_next_seq tr\<rparr>"
  have ok: "shards_ok ?sh" and ms: "mset (map snd (concat ?sh)) = mset As" using assms(1) by (simp_all add: tracks_def)
  have "shards_ok (?sh[?i := AList.update p ?r (?sh ! ?i)])"
  proof (rule shards_ok_update [OF ok shard_of_less])
    show "distinct (map fst (AList.update p ?r (?sh ! ?i)))"
      using shards_okD(1) [OF ok shard_of_less] by (simp add: distinct_update)
    fix k a assume "(k, a) \<in> set (AList.update p ?r (?sh ! ?i))"
    then have "(k, a) = (p, ?r) \<or> (k, a) \<in> set (?sh ! ?i)"
      using set_AList_update_subset by fastforce
    then show "shard_of k = ?i \<and> a_base a = k \<and> k \<noteq> 0"
      using shards_okD(2) [OF ok shard_of_less] assms(2) by auto
  qed
  moreover have "mset (map snd (concat (?sh[?i := AList.update p ?r (?sh ! ?i)]))) = mset (filter (\<lambda>a. a_base a \<noteq> p) As @ [?r])"
  proof -
    have "mset (map snd (concat (?sh[?i := AList.update p ?r (?sh ! ?i)]))) =
        add_mset ?r (mset (map snd (filter (\<lambda>kv. fst kv \<noteq> p) (concat ?sh))))"
      using mset_shards_update [OF ok, of p ?r] by (simp only: mset_map) simp
    also have "\<dots> = mset (filter (\<lambda>a. a_base a \<noteq> p) As @ [?r])"
      unfolding map_snd_filter_shards [OF ok] using ms by (simp only: mset_filter mset_append) simp
    finally show ?thesis .
  qed
  moreover have "sorted_wrt (<) (map a_seq (filter (\<lambda>a. a_base a \<noteq> p) As @ [?r]))"
    using assms(1) sorted_wrt_map_filter by (auto simp: tracks_def sorted_wrt_append)
  moreover have "\<forall>a \<in> set (filter (\<lambda>a. a_base a \<noteq> p) As @ [?r]). a_seq a < t_next_seq tr + 1"
    using assms(1,3) by (auto simp: tracks_def)
  ultimately show ?thesis using assms(2) by (simp add: tracks_def track_alloc_def Let_def)
qed

lemma tracks_free:
  assumes "tracks tr As" and "p \<noteq> 0"
  shows "tracks (untrack_alloc p tr) (filter (\<lambda>a. a_base a \<noteq> p) As)"
proof -
  let ?sh = "t_shards tr" and ?i = "shard_of p"
  have ok: "shards_ok ?sh" and ms: "mset (map snd (concat ?sh)) = mset As" using assms(1) by (simp_all add: tracks_def)
  have "shards_ok (?sh[?i := AList.delete p (?sh ! ?i)])"
    using shards_okD(1) [OF ok shard_of_less] shards_okD(2) [OF ok shard_of_less]
    by (intro shards_ok_update [OF ok shard_of_less]) (auto simp: AList.delete_eq distinct_map_filter)
  moreover have "mset (map snd (concat (?sh[?i := AList.delete p (?sh ! ?i)]))) = mset (filter (\<lambda>a. a_base a \<noteq> p) As)"
    unfolding shards_delete [OF ok] map_snd_filter_shards [OF ok] by (metis ms mset_filter)
  ultimately show ?thesis
    using assms sorted_wrt_map_filter by (auto simp: tracks_def untrack_alloc_def)
qed

text \<open>Every other call leaves the allocations alone.\<close>

lemma tracks_other:
  assumes "tracks tr As" and "t_shards tr' = t_shards tr" and "t_next_seq tr \<le> t_next_seq tr'"
  shows "tracks tr' As"
  using assms by (auto simp: tracks_def)

lemma tracks_Tracker0: "tracks Tracker0 []"
  by (auto simp: tracks_def shards_ok_def Tracker0_def concat_replicate_trivial)

fun alloc_call :: "cuda_call \<Rightarrow> bool" where
  "alloc_call (CuMemAlloc r p sz cur) = True"
| "alloc_call (CuMemFree p) = True"
| "alloc_call _ = False"

lemma interposed_other:
  assumes "\<not> alloc_call c"
  shows "t_shards (interposed c tr) = t_shards tr"
    and "t_next_seq (interposed c tr) = t_next_seq tr \<or> t_next_seq (interposed c tr) = t_next_seq tr + 1"
  using assms
  by (cases c; simp add: set_primary_def track_ctx_def untrack_ctx_def track_module_def untrack_module_def
      track_symbol_def track_stream_def untrack_stream_def track_event_def untrack_event_def host_callback_enter_def
      host_callback_leave_def mark_unsupported_def guard_symbol_def Let_def)+

lemma live_step_other: "\<not> alloc_call c \<Longrightarrow> live_step L c = L"
  by (cases c) simp_all

lemma next_seq_interposed:
  "t_next_seq (interposed c tr) = t_next_seq tr \<or> t_next_seq (interposed c tr) = t_next_seq tr + 1"
proof (cases "alloc_call c")
  case True
  then show ?thesis by (cases c) (simp_all add: track_alloc_def untrack_alloc_def Let_def)
qed (rule interposed_other(2))

lemma tracks_nonnull:
  assumes "tracks tr As"
  shows "filter (\<lambda>a. a_base a \<noteq> 0) As = As"
proof (rule filter_True, rule ballI)
  fix a assume "a \<in> set As"
  moreover have "set As = set (map snd (concat (t_shards tr)))"
    using assms unfolding tracks_def by (metis set_mset_mset)
  ultimately obtain kv where "kv \<in> set (concat (t_shards tr))" and "snd kv = a" by auto
  then show "a_base a \<noteq> 0" using assms shards_ok_base unfolding tracks_def by metis
qed

lemma interposed_tracks:
  assumes "tracks tr As" and "t_next_seq tr < t_next_seq tr + 1"
  shows "\<exists>As'. tracks (interposed c tr) As' \<and> map alloc_view As' = live_step (map alloc_view As) c"
proof -
  have view: "map alloc_view (filter (\<lambda>a. a_base a \<noteq> p) As) = filter (\<lambda>l. fst l \<noteq> p) (map alloc_view As)" for p
    by (simp add: filter_map comp_def alloc_view_def)
  consider (mem) r p sz cur where "c = CuMemAlloc r p sz cur" "r = CUDA_SUCCESS" "p \<noteq> 0"
    | (free) p where "c = CuMemFree p" "p \<noteq> 0"
    | (none) "interposed c tr = tr" "live_step (map alloc_view As) c = map alloc_view As"
    | (other) "\<not> alloc_call c"
  proof (cases "alloc_call c")
    case True
    then consider (a) r p sz cur where "c = CuMemAlloc r p sz cur" | (f) p where "c = CuMemFree p" by (cases c) auto
    then show thesis
    proof cases
      case a
      show thesis
      proof (cases "r = CUDA_SUCCESS \<and> p \<noteq> 0")
        case True
        then show thesis using mem [OF a] by simp
      next
        case False
        then show thesis using a by (intro none) (auto simp: track_alloc_def)
      qed
    next
      case f
      show thesis
      proof (cases "p = 0")
        case True
        then show thesis
          using f view [of 0] tracks_nonnull [OF assms(1)] by (intro none) (simp_all add: untrack_alloc_def)
      next
        case False
        then show thesis using f by (intro free)
      qed
    qed
  qed (rule other)
  then show ?thesis
  proof cases
    case mem
    then show ?thesis
      using tracks_alloc [OF assms(1) mem(3) assms(2), of sz cur 0]
      by (intro exI conjI) (simp, simp only: mem live_step.simps map_append view, simp add: alloc_view_def)
  next
    case free
    then show ?thesis using tracks_free [OF assms(1) free(2)] view [of p] by (intro exI conjI) simp_all
  next
    case none
    then show ?thesis using assms(1) by auto
  next
    case other
    then show ?thesis
      using tracks_other [OF assms(1) interposed_other(1) [OF other]] interposed_other(2) [OF other, of tr] assms(2)
      by (intro exI [of _ As]) (auto simp: live_step_other)
  qed
qed

lemma less_Suc_word:
  fixes w :: u64
  assumes "unat w < 2 ^ 64 - 1"
  shows "w < w + 1" and "unat (w + 1) = unat w + 1"
proof -
  show "unat (w + 1) = unat w + 1" using assms by (simp add: unat_word_ariths)
  then show "w < w + 1" by (simp add: word_less_nat_alt)
qed

lemma tracked_tracks:
  assumes "length calls < 2 ^ 64 - 1"
  shows "(\<exists>As. tracks (tracked calls) As \<and> map alloc_view As = live_allocs calls) \<and>
    unat (t_next_seq (tracked calls)) \<le> length calls + 1"
  using assms
proof (induction calls rule: rev_induct)
  case Nil
  then show ?case using tracks_Tracker0 by (auto simp: tracked_def live_allocs_def Tracker0_def)
next
  case (snoc c calls)
  let ?tr = "tracked calls"
  from snoc obtain As where As: "tracks ?tr As" "map alloc_view As = live_allocs calls"
    and n: "unat (t_next_seq ?tr) \<le> length calls + 1" by auto
  then have less: "unat (t_next_seq ?tr) < 2 ^ 64 - 1" using snoc.prems by simp
  from interposed_tracks [OF As(1) less_Suc_word(1) [OF less], of c] As(2)
  show ?case
    using next_seq_interposed [of c ?tr] less_Suc_word(2) [OF less] n by (auto simp: tracked_def live_allocs_def)
qed

text \<open>The counters, read off the same maps.\<close>

lemma alloc_count_eq: "alloc_count tr = word_of_nat (length (allocs_snapshot tr))"
proof -
  have "foldl (\<lambda>n m. n + word_of_nat (length m)) k sh = k + word_of_nat (length (concat sh))" for k :: u64 and sh :: "(dptr \<times> AllocRec) list list"
    by (induction sh arbitrary: k) (simp_all add: ac_simps)
  then show ?thesis by (simp add: alloc_count_def allocs_snapshot_def)
qed

lemma total_bytes_eq: "total_bytes tr = sum_list (map a_size (allocs_snapshot tr))"
proof -
  have "foldl (\<lambda>t kv. t + a_size (snd kv)) k kvs = k + sum_list (map a_size (map snd kvs))" for k :: u64 and kvs :: "(dptr \<times> AllocRec) list"
    by (induction kvs arbitrary: k) (simp_all add: ac_simps)
  moreover have "sum_list (map a_size (sort_key a_seq xs)) = sum_list (map a_size xs)" for xs :: "AllocRec list"
    by (metis mset_map mset_sort sum_mset_sum_list)
  ultimately show ?thesis
    unfolding total_bytes_def allocs_snapshot_def by (simp only: add_0)
qed

end
