(* ===== verification/Shim_Driver.thy ===== *)
theory Shim_Driver
  imports Shim_Tracker Shim_Files
begin

text \<open>
  The CUDA driver as the shim meets it, the state of the process the shim lives in, the
  pool of pinned buffers (\<open>shim/pinned_pool.cpp\<close>) and the quiescing of the GPU
  (\<open>shim/quiesce.cpp\<close>). The driver is code the repository does not hold: the record
  \<open>driver\<close> has one field per entry point, over an arbitrary driver state. The shim
  exports the wrappers of \<open>interpose.c\<close> under the driver's names, so its own calls go
  through them and change the tracker as well; the definitions \<open>sh_\<close> below are those
  calls. A function that returns a code and writes a text into an error file is an action
  whose error is that text.
\<close>

section \<open>The driver\<close>

text \<open>Where a call takes the current context, the first argument is the number of the thread.\<close>

record 'g driver =
  d_Init :: "'g \<Rightarrow> CUresult \<times> 'g"
  d_DeviceGetCount :: "'g \<Rightarrow> int option"
  d_CtxSynchronize :: "'g \<Rightarrow> CUresult \<times> 'g"
  d_StreamSynchronize :: "handle \<Rightarrow> 'g \<Rightarrow> CUresult \<times> 'g"
  d_EventSynchronize :: "handle \<Rightarrow> 'g \<Rightarrow> CUresult \<times> 'g"
  d_CallbacksDone :: "'g \<Rightarrow> nat"
  d_CtxGetCurrent :: "nat \<Rightarrow> 'g \<Rightarrow> CUresult \<times> handle"
  d_CtxSetCurrent :: "nat \<Rightarrow> handle \<Rightarrow> 'g \<Rightarrow> CUresult \<times> 'g"
  d_PrimaryCtxRetain :: "u32 \<Rightarrow> 'g \<Rightarrow> (CUresult \<times> handle) \<times> 'g"
  d_HostAlloc :: "u64 \<Rightarrow> 'g \<Rightarrow> (CUresult \<times> u64) \<times> 'g"
  d_FreeHost :: "u64 \<Rightarrow> 'g \<Rightarrow> 'g"
  d_DtoH :: "dptr \<Rightarrow> u64 \<Rightarrow> 'g \<Rightarrow> (CUresult \<times> bytes) \<times> 'g"
  d_HtoD :: "dptr \<Rightarrow> bytes \<Rightarrow> 'g \<Rightarrow> CUresult \<times> 'g"
  d_MemAlloc :: "u64 \<Rightarrow> 'g \<Rightarrow> (CUresult \<times> dptr) \<times> 'g"
  d_MemFree :: "dptr \<Rightarrow> 'g \<Rightarrow> 'g"
  d_Granularity :: "u32 \<Rightarrow> 'g \<Rightarrow> CUresult \<times> u64"
  d_AddressReserve :: "u64 \<Rightarrow> u64 \<Rightarrow> dptr \<Rightarrow> 'g \<Rightarrow> (CUresult \<times> dptr) \<times> 'g"
  d_AddressFree :: "dptr \<Rightarrow> u64 \<Rightarrow> 'g \<Rightarrow> 'g"
  d_Create :: "u64 \<Rightarrow> u32 \<Rightarrow> 'g \<Rightarrow> (CUresult \<times> handle) \<times> 'g"
  d_Release :: "handle \<Rightarrow> 'g \<Rightarrow> 'g"
  d_Map :: "dptr \<Rightarrow> u64 \<Rightarrow> handle \<Rightarrow> 'g \<Rightarrow> CUresult \<times> 'g"
  d_Unmap :: "dptr \<Rightarrow> u64 \<Rightarrow> 'g \<Rightarrow> 'g"
  d_SetAccess :: "dptr \<Rightarrow> u64 \<Rightarrow> u32 \<Rightarrow> 'g \<Rightarrow> CUresult \<times> 'g"
  d_ModuleLoad :: "string \<Rightarrow> 'g \<Rightarrow> (CUresult \<times> handle) \<times> 'g"
  d_ModuleLoadData :: "bytes \<Rightarrow> 'g \<Rightarrow> (CUresult \<times> handle) \<times> 'g"
  d_ModuleGetFunction :: "handle \<Rightarrow> string \<Rightarrow> 'g \<Rightarrow> (CUresult \<times> handle) \<times> 'g"
  d_StreamGetPriority :: "handle \<Rightarrow> 'g \<Rightarrow> CUresult \<times> u32"
  d_StreamIsCapturing :: "handle \<Rightarrow> 'g \<Rightarrow> CUresult \<times> u32"
  d_ErrorString :: "CUresult \<Rightarrow> string option"

definition CUDA_ERROR_INVALID_VALUE :: CUresult where "CUDA_ERROR_INVALID_VALUE = 1"
definition CUDA_ERROR_OUT_OF_MEMORY :: CUresult where "CUDA_ERROR_OUT_OF_MEMORY = 2"

section \<open>The process\<close>

record Block =
  b_ptr :: u64
  b_cap :: u64
  b_free :: bool

text \<open>\<open>sm_host p\<close> are the bytes of the pinned buffer at \<open>p\<close>.\<close>

record 'g shim =
  sm_trk :: Tracker
  sm_pool :: "Block list"
  sm_host :: "u64 \<Rightarrow> bytes"
  sm_gpu :: 'g

type_synonym ('g, 'a) shact = "('g shim, 'a) act"

definition hook :: "cuda_call \<Rightarrow> ('g, 'x) shim_scheme \<Rightarrow> ('g, 'x) shim_scheme" where
  "hook c s = s\<lparr>sm_trk := interposed c (sm_trk s)\<rparr>"

definition on_trk :: "(Tracker \<Rightarrow> Tracker) \<Rightarrow> ('g, unit) shact" where
  "on_trk f s = (Ret (), s\<lparr>sm_trk := f (sm_trk s)\<rparr>)"

definition trkA :: "(Tracker \<Rightarrow> 'a) \<Rightarrow> ('g, 'a) shact" where
  "trkA f = readA (\<lambda>s. Ret (f (sm_trk s)))"

definition on_gpu :: "('g \<Rightarrow> 'a \<times> 'g) \<Rightarrow> ('g, 'a) shact" where
  "on_gpu f s = (let (a, g) = f (sm_gpu s) in (Ret a, s\<lparr>sm_gpu := g\<rparr>))"

text \<open>The context the wrappers record; \<open>nullptr\<close> when the driver has no answer.\<close>

definition current_ctx :: "'g driver \<Rightarrow> nat \<Rightarrow> 'g \<Rightarrow> handle" where
  "current_ctx d w g = (case d_CtxGetCurrent d w g of (r, c) \<Rightarrow> if r = CUDA_SUCCESS then c else 0)"

definition sh_Init :: "'g driver \<Rightarrow> ('g, CUresult) shact" where
  "sh_Init d s = (let (r, g) = d_Init d (sm_gpu s)
     in (Ret r, hook (CuInit r (d_DeviceGetCount d g)) (s\<lparr>sm_gpu := g\<rparr>)))"

definition set_current :: "'g driver \<Rightarrow> nat \<Rightarrow> handle \<Rightarrow> ('g, 'x) shim_scheme \<Rightarrow> CUresult \<times> ('g, 'x) shim_scheme" where
  "set_current d w ctx s = (let s1 = hook (CuCtxSetCurrent ctx) s; (r, g) = d_CtxSetCurrent d w ctx (sm_gpu s1)
     in (r, s1\<lparr>sm_gpu := g\<rparr>))"

definition sh_CtxSetCurrent :: "'g driver \<Rightarrow> nat \<Rightarrow> handle \<Rightarrow> ('g, CUresult) shact" where
  "sh_CtxSetCurrent d w ctx s = (let (r, s') = set_current d w ctx s in (Ret r, s'))"

definition sh_PrimaryCtxRetain :: "'g driver \<Rightarrow> u32 \<Rightarrow> ('g, CUresult \<times> handle) shact" where
  "sh_PrimaryCtxRetain d dev s = (let ((r, ctx), g) = d_PrimaryCtxRetain d dev (sm_gpu s)
     in (Ret (r, ctx), hook (CuDevicePrimaryCtxRetain r ctx dev) (s\<lparr>sm_gpu := g\<rparr>)))"

definition sh_MemAlloc :: "'g driver \<Rightarrow> u64 \<Rightarrow> ('g, CUresult \<times> dptr) shact" where
  "sh_MemAlloc d sz s = (let cur = current_ctx d 0 (sm_gpu s); ((r, p), g) = d_MemAlloc d sz (sm_gpu s)
     in (Ret (r, p), hook (CuMemAlloc r p sz cur) (s\<lparr>sm_gpu := g\<rparr>)))"

definition sh_MemFree :: "'g driver \<Rightarrow> dptr \<Rightarrow> ('g, unit) shact" where
  "sh_MemFree d p s = (let s1 = hook (CuMemFree p) s in (Ret (), s1\<lparr>sm_gpu := d_MemFree d p (sm_gpu s1)\<rparr>))"

definition sh_ModuleLoad :: "'g driver \<Rightarrow> string \<Rightarrow> ('g, CUresult \<times> handle) shact" where
  "sh_ModuleLoad d path s = (let cur = current_ctx d 0 (sm_gpu s); ((r, m), g) = d_ModuleLoad d path (sm_gpu s)
     in (Ret (r, m), hook (CuModuleLoad r m path cur) (s\<lparr>sm_gpu := g\<rparr>)))"

definition sh_ModuleLoadData :: "'g driver \<Rightarrow> bytes \<Rightarrow> ('g, CUresult \<times> handle) shact" where
  "sh_ModuleLoadData d img s = (let cur = current_ctx d 0 (sm_gpu s); ((r, m), g) = d_ModuleLoadData d img (sm_gpu s)
     in (Ret (r, m), hook (CuModuleLoadData r m img cur) (s\<lparr>sm_gpu := g\<rparr>)))"

definition sh_ModuleGetFunction :: "'g driver \<Rightarrow> handle \<Rightarrow> string \<Rightarrow> ('g, CUresult \<times> handle) shact" where
  "sh_ModuleGetFunction d m name s = (let ((r, fn), g) = d_ModuleGetFunction d m name (sm_gpu s)
     in (Ret (r, fn), hook (CuModuleGetFunction r fn m name) (s\<lparr>sm_gpu := g\<rparr>)))"

text \<open>The text of \<open>snapshot.err\<close> and \<open>restore.err\<close>.\<close>

definition fail_text :: "'g driver \<Rightarrow> int \<Rightarrow> CUresult \<Rightarrow> string \<Rightarrow> string" where
  "fail_text d code r msg = err_line code msg (if r = CUDA_SUCCESS then None else d_ErrorString d r)"

definition failA :: "'g driver \<Rightarrow> int \<Rightarrow> CUresult \<Rightarrow> string \<Rightarrow> ('s, 'a) act" where
  "failA d code r msg = errA (FmtError (fail_text d code r msg))"

section \<open>pinned\_pool.cpp\<close>

text \<open>The first free block that is large enough.\<close>

fun take_block :: "u64 \<Rightarrow> Block list \<Rightarrow> (u64 \<times> Block list) option" where
  "take_block nbytes [] = None"
| "take_block nbytes (b # bs) =
     (if b_free b \<and> nbytes \<le> b_cap b then Some (b_ptr b, b\<lparr>b_free := False\<rparr> # bs)
      else map_option (\<lambda>(p, bs'). (p, b # bs')) (take_block nbytes bs))"

text \<open>\<open>0\<close> is the null pointer.\<close>

definition pool_acquire :: "'g driver \<Rightarrow> u64 \<Rightarrow> ('g, 'x) shim_scheme \<Rightarrow> u64 \<times> ('g, 'x) shim_scheme" where
  "pool_acquire d nbytes s =
     (if nbytes = 0 then (0, s)
      else case take_block nbytes (sm_pool s) of
        Some (p, bs) \<Rightarrow> (p, s\<lparr>sm_pool := bs\<rparr>)
      | None \<Rightarrow>
          (let ((r, p), g) = d_HostAlloc d nbytes (sm_gpu s); s1 = s\<lparr>sm_gpu := g\<rparr> in
           if r \<noteq> CUDA_SUCCESS then (0, s1)
           else (p, s1\<lparr>sm_pool := sm_pool s1 @ [\<lparr>b_ptr = p, b_cap = nbytes, b_free = False\<rparr>]\<rparr>)))"

fun free_block :: "u64 \<Rightarrow> Block list \<Rightarrow> Block list" where
  "free_block p [] = []"
| "free_block p (b # bs) = (if b_ptr b = p then b\<lparr>b_free := True\<rparr> # bs else b # free_block p bs)"

definition pool_release :: "u64 \<Rightarrow> ('g, 'x) shim_scheme \<Rightarrow> ('g, 'x) shim_scheme" where
  "pool_release p s = (if p = 0 then s else s\<lparr>sm_pool := free_block p (sm_pool s)\<rparr>)"

definition pool_clear :: "'g driver \<Rightarrow> ('g, 'x) shim_scheme \<Rightarrow> ('g, 'x) shim_scheme" where
  "pool_clear d s =
     (let g = foldl (\<lambda>g b. if b_ptr b \<noteq> 0 then d_FreeHost d (b_ptr b) g else g) (sm_gpu s) (sm_pool s)
      in s\<lparr>sm_gpu := g, sm_pool := []\<rparr>)"

text \<open>Writing and reading the first bytes of a buffer.\<close>

definition host_put :: "u64 \<Rightarrow> bytes \<Rightarrow> ('g, 'x) shim_scheme \<Rightarrow> ('g, 'x) shim_scheme" where
  "host_put p b s = s\<lparr>sm_host := (sm_host s)(p := b @ drop (length b) (sm_host s p))\<rparr>"

definition host_get :: "u64 \<Rightarrow> u64 \<Rightarrow> ('g, 'x) shim_scheme \<Rightarrow> bytes" where
  "host_get p n s = take (unat n) (sm_host s p)"

section \<open>quiesce.cpp\<close>

fun syncAll :: "(handle \<Rightarrow> 'g \<Rightarrow> CUresult \<times> 'g) \<Rightarrow> handle list \<Rightarrow> ('g, bool) shact" where
  "syncAll f [] = retA True"
| "syncAll f (h # hs) = bindA (on_gpu (f h)) (\<lambda>r. if r \<noteq> CUDA_SUCCESS then retA False else syncAll f hs)"

text \<open>Callbacks of the process end while the driver synchronises.\<close>

definition callbacks_end :: "'g driver \<Rightarrow> ('g, unit) shact" where
  "callbacks_end d s = (Ret (), s\<lparr>sm_trk := (interposed HostWrapDone ^^ d_CallbacksDone d (sm_gpu s)) (sm_trk s)\<rparr>)"

fun spinLoop :: "'g driver \<Rightarrow> nat \<Rightarrow> ('g, int) shact" where
  "spinLoop d n s =
     (if t_host_callbacks (sm_trk s) = 0 then (Ret 0, s)
      else if n = 0 then (Ret (- 24), s)
      else bindA (on_gpu (d_CtxSynchronize d)) (\<lambda>r.
        if r \<noteq> CUDA_SUCCESS then retA (- 23)
        else bindA (callbacks_end d) (\<lambda>_. spinLoop d (n - 1))) s)"

declare spinLoop.simps [simp del]

definition ckpt_quiesce_gpu :: "'g driver \<Rightarrow> ('g, int) shact" where
  "ckpt_quiesce_gpu d =
     bindA (on_gpu (d_CtxSynchronize d)) (\<lambda>r.
       if r \<noteq> CUDA_SUCCESS then retA (- 20)
       else bindA (trkA (\<lambda>tr. map s_stream (streams_snapshot tr))) (\<lambda>ss.
         bindA (syncAll (d_StreamSynchronize d) ss) (\<lambda>ok.
           if \<not> ok then retA (- 21)
           else bindA (trkA (\<lambda>tr. map v_event (events_snapshot tr))) (\<lambda>evs.
             bindA (syncAll (d_EventSynchronize d) evs) (\<lambda>ok.
               if \<not> ok then retA (- 22) else spinLoop d 100000)))))"

end
