(* ===== verification/Shim_Workers.thy ===== *)
theory Shim_Workers
  imports Prelude
begin

text \<open>
  The worker threads of \<open>shim/snapshot.cu\<close> and \<open>shim/restore.cu\<close>. Both start a number of
  threads over a list of tasks: a thread takes the next index with \<open>fetch_add\<close>, stops when
  the tasks are used up or the shared failure code is set, works on its task and, when that
  fails, stores the code and stops. A schedule is the list of thread numbers in the order in
  which the threads make their atomic steps, so every interleaving is a schedule. The work on
  a task is a list of stages, each atomic. The locale \<open>worker_pool\<close> says what the stages
  must promise; in it, once and for both files: when all threads have stopped without a
  failure every task is done, a failure is on record in some task, and every fair schedule
  stops all threads.
\<close>

section \<open>Definitions\<close>

datatype pc = Fetch | Check nat | Stage nat nat | Exit

text \<open>A stage gets the number of its thread and of its task.\<close>

type_synonym 's job = "nat \<Rightarrow> nat \<Rightarrow> 's \<Rightarrow> int \<times> 's"

record 's pool =
  wp_next :: nat
  wp_fail :: int
  wp_pcs :: "pc list"
  wp_shared :: 's

definition pool_start :: "nat \<Rightarrow> 's \<Rightarrow> 's pool" where
  "pool_start workers s = \<lparr>wp_next = 0, wp_fail = 0, wp_pcs = replicate workers Fetch, wp_shared = s\<rparr>"

definition worker_step :: "'s job list \<Rightarrow> nat \<Rightarrow> nat \<Rightarrow> 's pool \<Rightarrow> 's pool" where
  "worker_step jobs n w st =
     (if length (wp_pcs st) \<le> w then st
      else case wp_pcs st ! w of
        Fetch \<Rightarrow> st\<lparr>wp_next := Suc (wp_next st), wp_pcs := (wp_pcs st)[w := Check (wp_next st)]\<rparr>
      | Check i \<Rightarrow> st\<lparr>wp_pcs := (wp_pcs st)[w := if n \<le> i \<or> wp_fail st \<noteq> 0 then Exit else Stage 0 i]\<rparr>
      | Stage k i \<Rightarrow>
          (let (rc, s') = (jobs ! k) w i (wp_shared st) in
           if rc \<noteq> 0 then st\<lparr>wp_fail := rc, wp_pcs := (wp_pcs st)[w := Exit], wp_shared := s'\<rparr>
           else st\<lparr>wp_pcs := (wp_pcs st)[w := if Suc k < length jobs then Stage (Suc k) i else Fetch], wp_shared := s'\<rparr>)
      | Exit \<Rightarrow> st)"

definition run_workers :: "'s job list \<Rightarrow> nat \<Rightarrow> nat list \<Rightarrow> 's pool \<Rightarrow> 's pool" where
  "run_workers jobs n sched st = foldl (\<lambda>st w. worker_step jobs n w st) st sched"

definition joined :: "'s pool \<Rightarrow> bool" where
  "joined st \<longleftrightarrow> list_all (\<lambda>p. p = Exit) (wp_pcs st)"

text \<open>
  A schedule \<open>sched\<close> of the threads, then enough rounds for all of them to stop: steps of a
  stopped thread do nothing, so every run in which no thread is held up for ever is one of these.
\<close>

definition run_pool :: "'s job list \<Rightarrow> nat \<Rightarrow> nat \<Rightarrow> nat list \<Rightarrow> 's \<Rightarrow> 's pool" where
  "run_pool jobs n workers sched s =
     run_workers jobs n (sched @ concat (replicate ((length jobs + 3) * n + 2 * workers + 1) [0..<workers]))
       (pool_start workers s)"

text \<open>\<open>min(8, hardware_concurrency)\<close>, no more than the tasks, at least one.\<close>

definition workers_for :: "u32 \<Rightarrow> nat \<Rightarrow> nat" where
  "workers_for hw n =
     (let w = (if hw = 0 then 4 else min 8 (unat hw)); w' = (if n < w then n else w) in if w' = 0 then 1 else w')"

section \<open>Every fair schedule ends\<close>

definition weight :: "nat \<Rightarrow> nat \<Rightarrow> pc \<Rightarrow> nat" where
  "weight m n p = (case p of Fetch \<Rightarrow> 2 | Check i \<Rightarrow> if i < n then m + 4 else 1 | Stage k i \<Rightarrow> m - k + 3 | Exit \<Rightarrow> 0)"

lemma weight_0: "weight m n p = 0 \<longleftrightarrow> p = Exit"
  by (cases p) (auto simp: weight_def)

definition work_left :: "nat \<Rightarrow> nat \<Rightarrow> 's pool \<Rightarrow> nat" where
  "work_left m n st = (m + 3) * (n - wp_next st) + sum_list (map (weight m n) (wp_pcs st))"

lemma sum_list_update_less:
  fixes xs :: "nat list"
  shows "i < length xs \<Longrightarrow> sum_list (xs[i := y]) + xs ! i = sum_list xs + y"
proof (induction xs arbitrary: i)
  case (Cons x xs)
  then show ?case by (cases i) (auto simp: ac_simps)
qed simp

lemma weights_update:
  assumes "w < length pcs"
  shows "sum_list (map (weight m n) (pcs[w := p])) + weight m n (pcs ! w) = sum_list (map (weight m n) pcs) + weight m n p"
  using sum_list_update_less [of w "map (weight m n) pcs" "weight m n p"] assms by (simp add: map_update)

lemma worker_step_less:
  fixes st :: "'s pool"
  assumes "jobs \<noteq> []"
  shows "worker_step jobs n w st = st \<and> (w < length (wp_pcs st) \<longrightarrow> wp_pcs st ! w = Exit) \<or>
    work_left (length jobs) n (worker_step jobs n w st) < work_left (length jobs) n st"
proof (cases "w < length (wp_pcs st)")
  case True
  note upd = weights_update [OF True, of "length jobs" n]
  show ?thesis
  proof (cases "wp_pcs st ! w")
    case Fetch
    have "(length jobs + 3) * (n - wp_next st) = (length jobs + 3) * (n - Suc (wp_next st)) + (length jobs + 3)"
      if "wp_next st < n"
      using that by (metis Suc_diff_Suc mult_Suc_right add.commute)
    then show ?thesis
      using upd [of "Check (wp_next st)"] True Fetch
      by (cases "wp_next st < n") (simp_all add: worker_step_def work_left_def weight_def)
  next
    case (Check i)
    then show ?thesis
      using upd [of "if n \<le> i \<or> wp_fail st \<noteq> 0 then Exit else Stage 0 i"] True
      by (auto simp: worker_step_def work_left_def weight_def split: if_splits)
  next
    case (Stage k i)
    obtain rc s' where "(jobs ! k) w i (wp_shared st) = (rc, s')" by (cases "(jobs ! k) w i (wp_shared st)")
    then show ?thesis
      using upd [of Exit] upd [of "if Suc k < length jobs then Stage (Suc k) i else Fetch"] True Stage assms
      by (auto simp: worker_step_def work_left_def weight_def split: if_splits)
  next
    case Exit
    then show ?thesis using True by (simp add: worker_step_def)
  qed
qed (simp add: worker_step_def)

lemma worker_step_length [simp]: "length (wp_pcs (worker_step jobs n w st)) = length (wp_pcs st)"
  by (auto simp: worker_step_def Let_def split: pc.split prod.split)

lemma run_workers_length [simp]: "length (wp_pcs (run_workers jobs n sched st)) = length (wp_pcs st)"
  by (induction sched arbitrary: st) (simp_all add: run_workers_def)

lemma run_workers_less:
  fixes st :: "'s pool"
  assumes "jobs \<noteq> []"
  shows "run_workers jobs n sched st = st \<and> (\<forall>w \<in> set sched. w < length (wp_pcs st) \<longrightarrow> wp_pcs st ! w = Exit) \<or>
    work_left (length jobs) n (run_workers jobs n sched st) < work_left (length jobs) n st"
proof (induction sched arbitrary: st)
  case (Cons w sched)
  show ?case
    using worker_step_less [OF assms, of n w st] Cons [of "worker_step jobs n w st"] by (auto simp: run_workers_def)
qed (simp add: run_workers_def)

text \<open>A round is a stretch of the schedule in which every thread has its turn.\<close>

lemma rounds_join:
  fixes st :: "'s pool"
  assumes "jobs \<noteq> []" and "\<forall>r \<in> set rounds. {..<length (wp_pcs st)} \<subseteq> set r"
    and "work_left (length jobs) n st \<le> length rounds" and "rounds \<noteq> []"
  shows "joined (run_workers jobs n (concat rounds) st)"
  using assms(2-4)
proof (induction rounds arbitrary: st)
  case (Cons r rounds)
  let ?st = "run_workers jobs n r st"
  have split: "run_workers jobs n (concat (r # rounds)) st = run_workers jobs n (concat rounds) ?st"
    by (simp add: run_workers_def)
  consider (same) "?st = st" "\<forall>w \<in> set r. w < length (wp_pcs st) \<longrightarrow> wp_pcs st ! w = Exit"
    | (less) "work_left (length jobs) n ?st < work_left (length jobs) n st"
    using run_workers_less [OF assms(1)] by blast
  then show ?case
  proof cases
    case same
    then have "\<forall>w < length (wp_pcs st). wp_pcs st ! w = Exit" using Cons.prems(1) by auto
    then have all: "joined st" by (simp add: joined_def list_all_length)
    moreover have "run_workers jobs n sched st = st" for sched
      using all
      by (induction sched) (auto simp: run_workers_def worker_step_def joined_def list_all_length)
    ultimately show ?thesis using same(1) split by simp
  next
    case less
    show ?thesis
    proof (cases "rounds = []")
      case True
      then have "work_left (length jobs) n ?st = 0" using less Cons.prems(2) by simp
      then have "\<forall>p \<in> set (wp_pcs ?st). weight (length jobs) n p = 0" by (simp add: work_left_def)
      then have "\<forall>p \<in> set (wp_pcs ?st). p = Exit"
        by (simp add: weight_0)
      then show ?thesis using True by (simp add: joined_def list_all_iff run_workers_def)
    next
      case False
      then show ?thesis
        using Cons.IH [of ?st] less Cons.prems unfolding split by simp
    qed
  qed
qed simp

lemma work_left_start: "work_left m n (pool_start workers s) = (m + 3) * n + 2 * workers"
  by (simp add: work_left_def pool_start_def weight_def sum_list_replicate)

lemma run_workers_append: "run_workers jobs n (a @ b) st = run_workers jobs n b (run_workers jobs n a st)"
  by (simp add: run_workers_def)

lemma run_pool_joined:
  assumes "jobs \<noteq> []"
  shows "joined (run_pool jobs n workers sched s)"
proof -
  let ?st = "run_workers jobs n sched (pool_start workers s)"
  have "work_left (length jobs) n ?st \<le> (length jobs + 3) * n + 2 * workers"
    using run_workers_less [OF assms, of n sched "pool_start workers s"] work_left_start [of "length jobs" n workers s]
    by auto
  moreover have "length (wp_pcs ?st) = workers" by (simp add: pool_start_def)
  ultimately show ?thesis
    unfolding run_pool_def run_workers_append by (intro rounds_join [OF assms]) auto
qed

lemma workers_for_pos: "workers_for hw n \<noteq> 0"
  by (simp add: workers_for_def Let_def)

section \<open>What the threads have done\<close>

text \<open>
  \<open>G\<close> is an invariant of the shared state, \<open>D k i\<close> says that the first \<open>k\<close> stages of
  task \<open>i\<close> are done, \<open>E i\<close> that task \<open>i\<close> has recorded its failure. A stage
  may disturb no other task.
\<close>

locale worker_pool =
  fixes jobs :: "'s job list" and n :: nat
    and G :: "'s \<Rightarrow> bool" and D :: "nat \<Rightarrow> nat \<Rightarrow> 's \<Rightarrow> bool" and E :: "nat \<Rightarrow> 's \<Rightarrow> bool"
  assumes jobs_nonempty: "jobs \<noteq> []"
    and stage: "k < length jobs \<Longrightarrow> i < n \<Longrightarrow> G s \<Longrightarrow> D k i s \<Longrightarrow> (jobs ! k) w i s = (rc, s') \<Longrightarrow>
      G s' \<and> (if rc = 0 then D (Suc k) i s' else E i s')"
    and frame: "k < length jobs \<Longrightarrow> i < n \<Longrightarrow> G s \<Longrightarrow> D k i s \<Longrightarrow> (jobs ! k) w i s = (rc, s') \<Longrightarrow>
      j < n \<Longrightarrow> j \<noteq> i \<Longrightarrow> (D m j s \<longrightarrow> D m j s') \<and> (E j s \<longrightarrow> E j s')"
begin

fun holds :: "pc \<Rightarrow> nat option" where
  "holds Fetch = None"
| "holds (Check i) = Some i"
| "holds (Stage k i) = Some i"
| "holds Exit = None"

text \<open>No two threads hold the same task.\<close>

definition excl :: "pc list \<Rightarrow> bool" where
  "excl pcs \<longleftrightarrow> (\<forall>w < length pcs. \<forall>v < length pcs. \<forall>i. holds (pcs ! w) = Some i \<longrightarrow> holds (pcs ! v) = Some i \<longrightarrow> v = w)"

definition free :: "pc list \<Rightarrow> nat \<Rightarrow> bool" where
  "free pcs i \<longleftrightarrow> (\<forall>p \<in> set pcs. holds p \<noteq> Some i)"

fun pc_ok :: "nat \<Rightarrow> int \<Rightarrow> 's \<Rightarrow> pc \<Rightarrow> bool" where
  "pc_ok nx fl s Fetch = True"
| "pc_ok nx fl s (Check i) = (i < nx \<and> (i < n \<longrightarrow> D 0 i s))"
| "pc_ok nx fl s (Stage k i) = (i < nx \<and> i < n \<and> k < length jobs \<and> D k i s)"
| "pc_ok nx fl s Exit = (fl \<noteq> 0 \<or> n \<le> nx)"

text \<open>Every task is waiting, held, done or given up, and a failure is on record.\<close>

definition inv :: "'s pool \<Rightarrow> bool" where
  "inv st \<longleftrightarrow> G (wp_shared st) \<and> excl (wp_pcs st) \<and>
     (\<forall>p \<in> set (wp_pcs st). pc_ok (wp_next st) (wp_fail st) (wp_shared st) p) \<and>
     (\<forall>i < n. if wp_next st \<le> i then D 0 i (wp_shared st)
        else free (wp_pcs st) i \<longrightarrow> wp_fail st = 0 \<longrightarrow> D (length jobs) i (wp_shared st)) \<and>
     (wp_fail st \<noteq> 0 \<longrightarrow> (\<exists>i < n. i < wp_next st \<and> free (wp_pcs st) i \<and> E i (wp_shared st)))"

lemma inv_start:
  assumes "G s" and "\<And>i. i < n \<Longrightarrow> D 0 i s"
  shows "inv (pool_start workers s)"
  using assms by (simp add: inv_def excl_def pool_start_def)

lemma excl_update:
  assumes "excl pcs" and "\<And>i. holds p = Some i \<Longrightarrow> holds (pcs ! w) = Some i \<or> free pcs i"
  shows "excl (pcs[w := p])"
  unfolding excl_def
proof (intro allI impI)
  fix u v i
  assume u: "u < length (pcs[w := p])" and v: "v < length (pcs[w := p])"
    and hu: "holds (pcs[w := p] ! u) = Some i" and hv: "holds (pcs[w := p] ! v) = Some i"
  have other: "x = w" if "x < length pcs" "holds (pcs ! x) = Some i" "holds p = Some i" "w < length pcs" for x
    using assms(2) [OF that(3)] that assms(1) unfolding excl_def free_def by (metis nth_mem)
  show "v = u"
    using u v hu hv other [of u] other [of v] assms(1) unfolding excl_def
    by (cases "u = w"; cases "v = w") auto
qed

lemma holds_less: "pc_ok nx fl s p \<Longrightarrow> holds p = Some i \<Longrightarrow> i < nx"
  by (cases p) auto

lemma free_ahead:
  assumes "\<forall>p \<in> set pcs. pc_ok nx fl s p" and "nx \<le> i"
  shows "free pcs i"
  using assms holds_less unfolding free_def by fastforce

lemma free_update:
  assumes "w < length pcs" and "excl pcs"
  shows "free (pcs[w := p]) i \<longleftrightarrow> holds p \<noteq> Some i \<and> (free pcs i \<or> holds (pcs ! w) = Some i)"
proof -
  have "free (pcs[w := p]) i \<longleftrightarrow> (\<forall>v < length pcs. holds (pcs[w := p] ! v) \<noteq> Some i)"
    by (auto simp: free_def all_set_conv_all_nth)
  also have "\<dots> \<longleftrightarrow> holds p \<noteq> Some i \<and> (\<forall>v < length pcs. v \<noteq> w \<longrightarrow> holds (pcs ! v) \<noteq> Some i)"
    using assms(1) by (auto simp: nth_list_update)
  also have "\<dots> \<longleftrightarrow> holds p \<noteq> Some i \<and> (free pcs i \<or> holds (pcs ! w) = Some i)"
    using assms unfolding excl_def by (auto simp: free_def all_set_conv_all_nth)
  finally show ?thesis .
qed

text \<open>A step of thread \<open>w\<close> to the counter \<open>p\<close> that leaves the shared state.\<close>

lemma inv_move:
  assumes "inv st" and w: "w < length (wp_pcs st)"
    and "\<And>i. holds p = Some i \<Longrightarrow> holds (wp_pcs st ! w) = Some i"
    and "\<And>i. holds (wp_pcs st ! w) = Some i \<Longrightarrow> i < n \<Longrightarrow> holds p = Some i \<or> wp_fail st \<noteq> 0"
    and "pc_ok (wp_next st) (wp_fail st) (wp_shared st) p"
  shows "inv (st\<lparr>wp_pcs := (wp_pcs st)[w := p]\<rparr>)"
proof -
  have ex: "excl (wp_pcs st)" using assms(1) by (simp add: inv_def)
  have "excl ((wp_pcs st)[w := p])" by (rule excl_update [OF ex]) (simp add: assms(3))
  moreover have "\<forall>q \<in> set ((wp_pcs st)[w := p]). pc_ok (wp_next st) (wp_fail st) (wp_shared st) q"
    using assms(1,5) set_update_subset_insert unfolding inv_def by fastforce
  moreover have "free (wp_pcs st) i \<Longrightarrow> free ((wp_pcs st)[w := p]) i" for i
    using free_update [OF w ex] assms(3) w unfolding free_def by (metis nth_mem)
  ultimately show ?thesis
    using assms(1,4) free_update [OF w ex] unfolding inv_def by fastforce
qed

text \<open>A stage of thread \<open>w\<close> on its task.\<close>

lemma pc_ok_frame:
  assumes "pc_ok nx fl s p" and "holds p \<noteq> Some i" and "fl \<noteq> 0 \<longrightarrow> fl' \<noteq> 0"
    and "\<And>j m. j < n \<Longrightarrow> j \<noteq> i \<Longrightarrow> D m j s \<Longrightarrow> D m j s'"
  shows "pc_ok nx fl' s' p"
  using assms by (cases p) auto

lemma inv_stage:
  assumes inv: "inv st" and w: "w < length (wp_pcs st)" and pc: "wp_pcs st ! w = Stage k i"
    and run: "(jobs ! k) w i (wp_shared st) = (rc, s')"
    and p: "rc \<noteq> 0 \<Longrightarrow> p = Exit" "rc = 0 \<Longrightarrow> Suc k < length jobs \<Longrightarrow> p = Stage (Suc k) i"
      "rc = 0 \<Longrightarrow> \<not> Suc k < length jobs \<Longrightarrow> p = Fetch"
    and fl: "fl = (if rc = 0 then wp_fail st else rc)"
  shows "inv (st\<lparr>wp_fail := fl, wp_pcs := (wp_pcs st)[w := p], wp_shared := s'\<rparr>)"
proof -
  let ?s = "wp_shared st" and ?nx = "wp_next st" and ?pcs = "wp_pcs st"
  have ex: "excl ?pcs" and G: "G ?s" and ok: "\<forall>q \<in> set ?pcs. pc_ok ?nx (wp_fail st) ?s q"
    using inv by (simp_all add: inv_def)
  have "pc_ok ?nx (wp_fail st) ?s (Stage k i)" using ok w pc by (metis nth_mem)
  then have i: "i < ?nx" "i < n" and k: "k < length jobs" and D: "D k i ?s" by simp_all
  note st = stage [OF k i(2) G D run] and fr = frame [OF k i(2) G D run]
  have held: "holds (?pcs ! w) = Some i" using pc by simp
  have free_i: "\<not> free ?pcs i" using held w unfolding free_def by (metis nth_mem)
  have hp: "holds p = Some j \<Longrightarrow> j = i" for j using p by (cases "rc = 0"; cases "Suc k < length jobs") auto
  have upd: "free (?pcs[w := p]) j \<longleftrightarrow> holds p \<noteq> Some j \<and> (free ?pcs j \<or> j = i)" for j
    using free_update [OF w ex] held by auto
  have fl0: "wp_fail st \<noteq> 0 \<longrightarrow> fl \<noteq> 0" using fl by simp
  have "pc_ok ?nx fl s' q" if q: "q \<in> set (?pcs[w := p])" for q
  proof -
    obtain v where v: "v < length ?pcs" "q = ?pcs[w := p] ! v" using q by (auto simp: in_set_conv_nth)
    show ?thesis
    proof (cases "v = w")
      case True
      then show ?thesis using v w p st i k fl by (cases "rc = 0"; cases "Suc k < length jobs") auto
    next
      case False
      then have "q = ?pcs ! v" using v by simp
      moreover from this have "holds q \<noteq> Some i"
        using ex False v w held unfolding excl_def by metis
      ultimately show ?thesis using ok v(1) fr fl0 by (intro pc_ok_frame [of ?nx "wp_fail st" ?s q i fl s']) auto
    qed
  qed
  moreover have "excl (?pcs[w := p])" by (rule excl_update [OF ex]) (use hp held in auto)
  moreover have "if ?nx \<le> j then D 0 j s' else free (?pcs[w := p]) j \<longrightarrow> fl = 0 \<longrightarrow> D (length jobs) j s'"
    if j: "j < n" for j
  proof (cases "j = i")
    case True
    have "\<not> Suc k < length jobs \<Longrightarrow> Suc k = length jobs" using k by simp
    then show ?thesis
      using True i st upd [of i] fl p by (cases "rc = 0"; cases "Suc k < length jobs") auto
  next
    case False
    then show ?thesis using inv j fr [OF j False] upd [of j] fl fl0 unfolding inv_def by auto
  qed
  moreover have "\<exists>j < n. j < ?nx \<and> free (?pcs[w := p]) j \<and> E j s'" if fl_set: "fl \<noteq> 0"
  proof (cases "rc = 0")
    case True
    then obtain j where j: "j < n" "j < ?nx" "free ?pcs j" "E j ?s" using inv fl fl_set unfolding inv_def by auto
    then have "j \<noteq> i" using free_i by auto
    then show ?thesis using j fr [OF j(1)] upd [of j] hp by auto
  next
    case False
    then show ?thesis using i st upd [of i] p by auto
  qed
  ultimately show ?thesis using st unfolding inv_def by simp
qed

lemma inv_fetch:
  assumes inv: "inv st" and w: "w < length (wp_pcs st)" and pc: "wp_pcs st ! w = Fetch"
  shows "inv (st\<lparr>wp_next := Suc (wp_next st), wp_pcs := (wp_pcs st)[w := Check (wp_next st)]\<rparr>)"
proof -
  let ?s = "wp_shared st" and ?nx = "wp_next st" and ?pcs = "wp_pcs st"
  have ex: "excl ?pcs" and ok: "\<forall>q \<in> set ?pcs. pc_ok ?nx (wp_fail st) ?s q" using inv by (simp_all add: inv_def)
  have fr: "free ?pcs ?nx" by (rule free_ahead [OF ok]) simp
  have upd: "free (?pcs[w := Check ?nx]) j \<longleftrightarrow> ?nx \<noteq> j \<and> free ?pcs j" for j
    using free_update [OF w ex] pc by simp
  have "excl (?pcs[w := Check ?nx])" by (rule excl_update [OF ex]) (use fr in auto)
  moreover have "pc_ok (Suc ?nx) (wp_fail st) ?s q" if "q \<in> set (?pcs[w := Check ?nx])" for q
  proof -
    have "q = Check ?nx \<or> q \<in> set ?pcs" using that set_update_subset_insert [of ?pcs w "Check ?nx"] by blast
    then consider "q = Check ?nx" | "q \<in> set ?pcs" by blast
    then show ?thesis
    proof cases
      case 1
      then show ?thesis using inv by (auto simp: inv_def)
    next
      case 2
      then have "pc_ok ?nx (wp_fail st) ?s q" using ok by blast
      then show ?thesis by (cases q) auto
    qed
  qed
  ultimately show ?thesis
    using inv upd unfolding inv_def by (auto simp: not_less_eq_eq less_Suc_eq split: if_splits)
qed

lemma inv_step:
  assumes inv: "inv st"
  shows "inv (worker_step jobs n w st)"
proof (cases "w < length (wp_pcs st)")
  case True
  show ?thesis
  proof (cases "wp_pcs st ! w")
    case Fetch
    then show ?thesis using inv_fetch [OF inv True] True by (simp add: worker_step_def)
  next
    case (Check i)
    have "pc_ok (wp_next st) (wp_fail st) (wp_shared st) (Check i)"
      using inv Check True unfolding inv_def by (metis nth_mem)
    then have "inv (st\<lparr>wp_pcs := (wp_pcs st)[w := if n \<le> i \<or> wp_fail st \<noteq> 0 then Exit else Stage 0 i]\<rparr>)"
      using Check jobs_nonempty by (intro inv_move [OF inv True]) (auto split: if_splits)
    then show ?thesis using Check True by (simp add: worker_step_def)
  next
    case (Stage k i)
    obtain rc s' where run: "(jobs ! k) w i (wp_shared st) = (rc, s')" by (cases "(jobs ! k) w i (wp_shared st)")
    show ?thesis
      using inv_stage [OF inv True Stage run, of Exit rc]
        inv_stage [OF inv True Stage run, of "if Suc k < length jobs then Stage (Suc k) i else Fetch" "wp_fail st"]
        True Stage run by (simp add: worker_step_def split: if_splits)
  next
    case Exit
    then show ?thesis using inv True by (simp add: worker_step_def)
  qed
qed (use inv in \<open>simp add: worker_step_def\<close>)

lemma inv_run: "inv st \<Longrightarrow> inv (run_workers jobs n sched st)"
  by (induction sched arbitrary: st) (simp_all add: run_workers_def inv_step)

text \<open>What holds once all threads have stopped.\<close>

lemma all_done:
  assumes "G s" and "\<And>i. i < n \<Longrightarrow> D 0 i s" and "workers \<noteq> 0"
    and "run_workers jobs n sched (pool_start workers s) = st" and "joined st" and "wp_fail st = 0"
  shows "G (wp_shared st) \<and> (\<forall>i < n. D (length jobs) i (wp_shared st))"
proof -
  have inv: "inv st" using inv_run [OF inv_start [OF assms(1,2)]] assms(4) by metis
  have "length (wp_pcs st) = workers" using assms(4) by (auto simp: pool_start_def)
  then have "wp_pcs st \<noteq> []" using assms(3) by auto
  moreover have ex: "\<forall>p \<in> set (wp_pcs st). p = Exit" using assms(5) by (simp add: joined_def list_all_iff)
  ultimately have "n \<le> wp_next st"
    using inv assms(6) unfolding inv_def by (metis list.set_intros(1) neq_Nil_conv pc_ok.simps(4))
  moreover have "free (wp_pcs st) i" for i using ex by (auto simp: free_def)
  ultimately show ?thesis using inv assms(6) unfolding inv_def by fastforce
qed

lemma failure_recorded:
  assumes "G s" and "\<And>i. i < n \<Longrightarrow> D 0 i s"
    and "wp_fail (run_workers jobs n sched (pool_start workers s)) \<noteq> 0"
  shows "\<exists>i < n. E i (wp_shared (run_workers jobs n sched (pool_start workers s)))"
  using inv_run [OF inv_start [OF assms(1,2)], of sched workers] assms(3) unfolding inv_def by blast

lemma pool_result:
  assumes "G s" and "\<And>i. i < n \<Longrightarrow> D 0 i s" and "workers \<noteq> 0"
  shows "joined (run_pool jobs n workers sched s)"
    and "wp_fail (run_pool jobs n workers sched s) = 0 \<Longrightarrow>
      G (wp_shared (run_pool jobs n workers sched s)) \<and>
      (\<forall>i < n. D (length jobs) i (wp_shared (run_pool jobs n workers sched s)))"
    and "wp_fail (run_pool jobs n workers sched s) \<noteq> 0 \<Longrightarrow>
      G (wp_shared (run_pool jobs n workers sched s)) \<and> (\<exists>i < n. E i (wp_shared (run_pool jobs n workers sched s)))"
proof -
  show j: "joined (run_pool jobs n workers sched s)" by (rule run_pool_joined [OF jobs_nonempty])
  show "wp_fail (run_pool jobs n workers sched s) = 0 \<Longrightarrow>
      G (wp_shared (run_pool jobs n workers sched s)) \<and>
      (\<forall>i < n. D (length jobs) i (wp_shared (run_pool jobs n workers sched s)))"
    using all_done [OF assms] j unfolding run_pool_def by blast
  show "wp_fail (run_pool jobs n workers sched s) \<noteq> 0 \<Longrightarrow>
      G (wp_shared (run_pool jobs n workers sched s)) \<and> (\<exists>i < n. E i (wp_shared (run_pool jobs n workers sched s)))"
    using failure_recorded [OF assms(1,2)] inv_run [OF inv_start [OF assms(1,2)]] unfolding run_pool_def inv_def by blast
qed

end

end
