(* ===== verification/Shim_Snapshot.thy ===== *)
theory Shim_Snapshot
  imports Shim_Driver Shim_Workers Crc32c
begin

text \<open>
  \<open>shim/coalesce.cpp\<close>, the writing half of \<open>shim/module_io.cpp\<close> and
  \<open>shim/snapshot.cu\<close>: adjacent allocations are copied as one block by a pool of threads,
  then the files of the image are written. The result of \<open>snapshot_files\<close> is the list of the
  files in the order in which they are written, each with the code of its failure to open.
  The C structs are laid out as on 64-bit Linux: between the count and the total of the
  manifest header lie four bytes of padding, whose contents are the argument \<open>pad\<close>.
\<close>

section \<open>coalesce.cpp\<close>

record CoalescedAlloc =
  co_base :: dptr
  co_size :: u64
  co_ctx :: handle
  co_flags :: u32
  co_seq :: u64
  co_parts :: "AllocRec list"

definition co_start :: "AllocRec \<Rightarrow> CoalescedAlloc" where
  "co_start a = \<lparr>co_base = a_base a, co_size = a_size a, co_ctx = a_ctx a, co_flags = a_flags a,
     co_seq = a_seq a, co_parts = [a]\<rparr>"

fun coLoop :: "CoalescedAlloc \<Rightarrow> AllocRec list \<Rightarrow> CoalescedAlloc list" where
  "coLoop cur [] = [cur]"
| "coLoop cur (a # as) =
     (if a_ctx a = co_ctx cur \<and> a_base a = co_base cur + co_size cur
      then coLoop (cur\<lparr>co_size := co_size cur + a_size a, co_parts := co_parts cur @ [a]\<rparr>) as
      else cur # coLoop (co_start a) as)"

fun coalesce_allocs :: "AllocRec list \<Rightarrow> CoalescedAlloc list" where
  "coalesce_allocs [] = []"
| "coalesce_allocs (a # as) = coLoop (co_start a) as"

section \<open>The checksum\<close>

definition crc32c_table :: "u32 \<Rightarrow> u32" where
  "crc32c_table i = ((\<lambda>c. if c AND 1 \<noteq> 0 then 0x82F63B78 XOR drop_bit 1 c else drop_bit 1 c) ^^ 8) i"

definition crc32c :: "bytes \<Rightarrow> u32" where
  "crc32c data =
     foldl (\<lambda>c b. crc32c_table ((c XOR ucast b) AND 0xFF) XOR drop_bit 8 c) 0xFFFFFFFF data XOR 0xFFFFFFFF"

section \<open>module\_io.cpp, writing\<close>

definition kModMagic :: u32 where "kModMagic = 0x4D4F4455"
definition kCtxMagic :: u32 where "kCtxMagic = 0x43585458"
definition kStrMagic :: u32 where "kStrMagic = 0x5354524D"

definition put_text :: "bytes \<Rightarrow> bytes" where
  "put_text b = le_put 4 (word_of_nat (length b) :: u32) @ b"

definition io_header :: "u32 \<Rightarrow> bytes" where
  "io_header magic = le_put 4 magic @ le_put 2 (1 :: u16) @ le_put 2 (0 :: u16)"

definition putModule :: "Tracker \<Rightarrow> ModuleRec \<Rightarrow> bytes" where
  "putModule tr m =
     le_put 8 (mo_ctx m) @ le_put 4 (if mo_image m = [] then 0 else 1 :: u32)
     @ put_text (if mo_image m = [] then bytes_of (mo_path m) else mo_image m)
     @ (let syms = symbols_for_module (mo_mod m) tr in
        le_put 4 (word_of_nat (length syms) :: u32) @ concat (map (\<lambda>y. put_text (bytes_of (y_name y))) syms))"

definition ckpt_modules_write :: "Tracker \<Rightarrow> bytes" where
  "ckpt_modules_write tr =
     (let mods = modules_snapshot tr in
      io_header kModMagic @ le_put 4 (word_of_nat (length mods) :: u32) @ concat (map (putModule tr) mods))"

definition ckpt_ctx_write :: "Tracker \<Rightarrow> bytes" where
  "ckpt_ctx_write tr =
     io_header kCtxMagic @ le_put 8 (t_primary tr) @ le_put 4 (t_device tr) @ le_put 4 (t_primary_flags tr)
     @ le_put 4 (t_device_flags tr)"

definition putStream :: "'g driver \<Rightarrow> 'g \<Rightarrow> StreamRec \<Rightarrow> bytes" where
  "putStream d g sr =
     (let pri = snd (d_StreamGetPriority d (s_stream sr) g);
          cap = (case d_StreamIsCapturing d (s_stream sr) g of (r, st) \<Rightarrow>
            if r = CUDA_SUCCESS then st else s_capture_status sr)
      in le_put 8 (s_stream sr) @ le_put 8 (s_ctx sr) @ le_put 4 (s_flags sr) @ le_put 4 pri @ le_put 4 cap)"

definition ckpt_streams_write :: "'g driver \<Rightarrow> 'g \<Rightarrow> Tracker \<Rightarrow> bytes" where
  "ckpt_streams_write d g tr =
     (let ss = streams_snapshot tr in
      io_header kStrMagic @ le_put 4 (word_of_nat (length ss) :: u32) @ concat (map (putStream d g) ss))"

section \<open>snapshot.cu, the threads\<close>

record SnapTask =
  k_block :: CoalescedAlloc
  k_offset :: u64
  k_host :: u64
  k_prev :: handle
  k_crc :: u32
  k_err_code :: int
  k_err :: CUresult

definition noBlock :: CoalescedAlloc where
  "noBlock = \<lparr>co_base = 0, co_size = 0, co_ctx = 0, co_flags = 0, co_seq = 0, co_parts = []\<rparr>"

definition snapTask :: "u64 \<Rightarrow> SnapTask" where
  "snapTask off = \<lparr>k_block = noBlock, k_offset = off, k_host = 0, k_prev = 0, k_crc = 0, k_err_code = 0, k_err = 0\<rparr>"

record 'g snap = "'g shim" +
  sn_tasks :: "SnapTask list"

definition set_task :: "nat \<Rightarrow> (SnapTask \<Rightarrow> SnapTask) \<Rightarrow> 'g snap \<Rightarrow> 'g snap" where
  "set_task i f s = s\<lparr>sn_tasks := (sn_tasks s)[i := f (sn_tasks s ! i)]\<rparr>"

definition snap_failed :: "nat \<Rightarrow> int \<Rightarrow> CUresult \<Rightarrow> 'g snap \<Rightarrow> int \<times> 'g snap" where
  "snap_failed i code r s = (code, set_task i (\<lambda>t. t\<lparr>k_err_code := code, k_err := r\<rparr>) s)"

text \<open>
  One task of \<open>snap_worker\<close> in four steps: get a buffer, enter the context of the block,
  copy and go back to the context before, compute the checksum.
\<close>

definition snap_acquire :: "'g driver \<Rightarrow> CoalescedAlloc list \<Rightarrow> 'g snap job" where
  "snap_acquire d blocks w i s =
     (let (host, s1) = pool_acquire d (co_size (blocks ! i)) s;
          s2 = set_task i (\<lambda>t. t\<lparr>k_block := blocks ! i, k_host := host\<rparr>) s1
      in if host = 0 then snap_failed i (- 16) CUDA_ERROR_OUT_OF_MEMORY s2 else (0, s2))"

definition snap_enter :: "'g driver \<Rightarrow> CoalescedAlloc list \<Rightarrow> 'g snap job" where
  "snap_enter d blocks w i s =
     (let (r, prev) = d_CtxGetCurrent d w (sm_gpu s) in
      if r \<noteq> CUDA_SUCCESS then snap_failed i (- 13) r s
      else
        let s1 = set_task i (\<lambda>t. t\<lparr>k_prev := prev\<rparr>) s in
        if co_ctx (blocks ! i) = 0 then (0, s1)
        else
          let (r, s2) = set_current d w (co_ctx (blocks ! i)) s1 in
          if r \<noteq> CUDA_SUCCESS then snap_failed i (- 14) r s2 else (0, s2))"

definition snap_copy :: "'g driver \<Rightarrow> CoalescedAlloc list \<Rightarrow> 'g snap job" where
  "snap_copy d blocks w i s =
     (let ((r, b), g) = d_DtoH d (co_base (blocks ! i)) (co_size (blocks ! i)) (sm_gpu s);
          t = sn_tasks s ! i;
          s1 = s\<lparr>sm_gpu := g\<rparr>;
          s2 = (if r = CUDA_SUCCESS then host_put (k_host t) b s1 else s1);
          s3 = (if k_prev t \<noteq> 0 then snd (set_current d w (k_prev t) s2) else s2)
      in if r \<noteq> CUDA_SUCCESS then snap_failed i (- 15) r s3 else (0, s3))"

definition snap_crc :: "CoalescedAlloc list \<Rightarrow> 'g snap job" where
  "snap_crc blocks w i s =
     (0, set_task i (\<lambda>t. t\<lparr>k_crc := crc32c (host_get (k_host t) (co_size (blocks ! i)) s)\<rparr>) s)"

definition snap_jobs :: "'g driver \<Rightarrow> CoalescedAlloc list \<Rightarrow> 'g snap job list" where
  "snap_jobs d blocks = [snap_acquire d blocks, snap_enter d blocks, snap_copy d blocks, snap_crc blocks]"

fun snapTasks :: "u64 \<Rightarrow> CoalescedAlloc list \<Rightarrow> SnapTask list" where
  "snapTasks off [] = []"
| "snapTasks off (b # bs) = snapTask off # snapTasks (off + co_size b) bs"

definition snap_total :: "CoalescedAlloc list \<Rightarrow> u64" where
  "snap_total blocks = foldl (\<lambda>off b. off + co_size b) 0 blocks"

definition snap_start :: "CoalescedAlloc list \<Rightarrow> 'g shim \<Rightarrow> 'g snap" where
  "snap_start blocks s = shim.extend s \<lparr>sn_tasks = snapTasks 0 blocks\<rparr>"

section \<open>snapshot.cu, the files\<close>

record ChunkEntry =
  ce_ptr :: u64
  ce_size :: u64
  ce_offset :: u64
  ce_crc32c :: u32
  ce_pad :: u32

definition putChunk :: "ChunkEntry \<Rightarrow> bytes" where
  "putChunk e = le_put 8 (ce_ptr e) @ le_put 8 (ce_size e) @ le_put 8 (ce_offset e) @ le_put 4 (ce_crc32c e)
     @ le_put 4 (ce_pad e)"

definition snapHeader :: "u32 \<Rightarrow> u32 \<Rightarrow> u64 \<Rightarrow> bytes" where
  "snapHeader pad cnt tot =
     le_put 4 (0x434B5054 :: u32) @ le_put 2 (2 :: u16) @ le_put 2 (0 :: u16) @ le_put 4 cnt @ le_put 4 pad @ le_put 8 tot"

definition snapManifest :: "u32 \<Rightarrow> ChunkEntry list \<Rightarrow> u64 \<Rightarrow> bytes" where
  "snapManifest pad es tot = snapHeader pad (word_of_nat (length es)) tot @ concat (map putChunk es)"

text \<open>The entries of one block: a checksum of its own for every allocation in it.\<close>

definition partEntry :: "bytes \<Rightarrow> SnapTask \<Rightarrow> AllocRec \<Rightarrow> ChunkEntry" where
  "partEntry host t a =
     (let rel = a_base a - co_base (k_block t)
      in \<lparr>ce_ptr = a_base a, ce_size = a_size a, ce_offset = k_offset t + rel,
          ce_crc32c = crc32c (take (unat (a_size a)) (drop (unat rel) host)), ce_pad = ucast (a_seq a)\<rparr>)"

definition taskEntries :: "('g, 'x) shim_scheme \<Rightarrow> SnapTask \<Rightarrow> ChunkEntry list" where
  "taskEntries s t = map (partEntry (sm_host s (k_host t)) t) (co_parts (k_block t))"

definition snapDevice :: "('g, 'x) shim_scheme \<Rightarrow> SnapTask list \<Rightarrow> bytes" where
  "snapDevice s ts = concat (map (\<lambda>t. host_get (k_host t) (co_size (k_block t)) s) ts)"

definition image_files :: "'g driver \<Rightarrow> u32 \<Rightarrow> u64 \<Rightarrow> 'g snap \<Rightarrow> snapfile list" where
  "image_files d pad tot s =
     (let tr = sm_trk s; ts = sn_tasks s in
      [(''device.bin'', snapDevice s ts, - 2),
       (''manifest.bin'', snapManifest pad (concat (map (taskEntries s) ts)) tot, - 3),
       (''dev.bin'', le_put 4 (t_device tr), - 4),
       (''ctx.bin'', ckpt_ctx_write tr, - 41),
       (''streams.bin'', ckpt_streams_write d (sm_gpu s) tr, - 51),
       (''modules.bin'', ckpt_modules_write tr, - 34)])"

definition release_all :: "u64 list \<Rightarrow> ('g, 'x) shim_scheme \<Rightarrow> ('g, 'x) shim_scheme" where
  "release_all ps s = foldl (\<lambda>s p. pool_release p s) s ps"

definition shim_of :: "('g, 'x) shim_scheme \<Rightarrow> 'g shim" where
  "shim_of s = shim.truncate s"

definition snapshot_files :: "'g driver \<Rightarrow> u32 \<Rightarrow> nat list \<Rightarrow> u32 \<Rightarrow> ('g, snapfile list) shact" where
  "snapshot_files d hw sched pad =
     bindA (trkA (\<lambda>tr. tr)) (\<lambda>tr.
       if t_bad tr then failA d (- sint (t_bad_code tr)) CUDA_SUCCESS ''unsupported''
       else bindA (ckpt_quiesce_gpu d) (\<lambda>q.
         if q \<noteq> 0 then failA d (- 25) CUDA_SUCCESS ''quiesce''
         else (\<lambda>s.
           let blocks = coalesce_allocs (allocs_snapshot (sm_trk s)); n = length blocks;
               st = run_pool (snap_jobs d blocks) n (workers_for hw n) sched (snap_start blocks s);
               s1 = wp_shared st
           in case (if wp_fail st = 0 then None else find (\<lambda>t. k_err_code t \<noteq> 0) (sn_tasks s1)) of
                Some t \<Rightarrow> failA d (k_err_code t) (k_err t) ''dtoh'' (shim_of s1)
              | None \<Rightarrow>
                  (Ret (image_files d pad (snap_total blocks) s1),
                   shim_of (release_all (map k_host (sn_tasks s1)) s1)))))"

end
