(* ===== verification/Shim_Restore.thy ===== *)
theory Shim_Restore
  imports Shim_Snapshot
begin

text \<open>
  The reading half of \<open>shim/module_io.cpp\<close> and \<open>shim/restore.cu\<close>. The files of the
  image come from an argument \<open>rd\<close>: the bytes of a file of the image directory, or \<open>None\<close>
  when it cannot be opened. A stream that has met its end stays bad and yields zeros, as the
  variables it reads into start as zero. Every allocation is made again at its address, the
  bytes are read into pinned buffers, and a pool of threads copies them to the device.
\<close>

section \<open>Input streams\<close>

text \<open>What is left to read, and whether every read so far was complete.\<close>

type_synonym istream = "bytes \<times> bool"

definition is_read :: "nat \<Rightarrow> istream \<Rightarrow> bytes \<times> istream" where
  "is_read n f =
     (let (bs, good) = f in
      if \<not> good then (replicate n 0, f)
      else if n \<le> length bs then (take n bs, (drop n bs, True))
      else (bs @ replicate (n - length bs) 0, ([], False)))"

definition is_word :: "nat \<Rightarrow> istream \<Rightarrow> 'a::len word \<times> istream" where
  "is_word n f = (let (b, f') = is_read n f in (le_get b, f'))"

definition is_skip :: "nat \<Rightarrow> istream \<Rightarrow> istream" where
  "is_skip n f = (let (bs, good) = f in if good then (drop n bs, True) else f)"

section \<open>module\_io.cpp, reading\<close>

definition c_string :: "bytes \<Rightarrow> string" where
  "c_string b = takeWhile (\<lambda>c. c \<noteq> CHR 0x00) (string_of b)"

fun readSymbols :: "'g driver \<Rightarrow> handle \<Rightarrow> nat \<Rightarrow> istream \<Rightarrow> ('g, istream) shact" where
  "readSymbols d m 0 f = retA f"
| "readSymbols d m (Suc n) f =
     (let (nlen, f1) = (is_word 4 f :: u32 \<times> istream);
          (name, f2) = (if nlen = 0 then ([], f1) else is_read (unat nlen) f1) in
      bindA (sh_ModuleGetFunction d m (c_string name)) (\<lambda>(r, fn).
      bindA (if r = CUDA_SUCCESS then on_trk (track_symbol fn m (c_string name)) else retA ()) (\<lambda>_.
        readSymbols d m n f2)))"

text \<open>\<open>Inl\<close> is the code of a failure.\<close>

fun readModules :: "'g driver \<Rightarrow> nat \<Rightarrow> istream \<Rightarrow> ('g, int) shact" where
  "readModules d 0 f = retA 0"
| "readModules d (Suc n) f =
     (let (ctx, f1) = (is_word 8 f :: u64 \<times> istream);
          (kind, f2) = (is_word 4 f1 :: u32 \<times> istream);
          (len, f3) = (is_word 4 f2 :: u32 \<times> istream);
          (b, f4) = (if len = 0 then ([], f3) else is_read (unat len) f3);
          (sc, f5) = (is_word 4 f4 :: u32 \<times> istream);
          rest = (\<lambda>m. bindA (readSymbols d m (unat sc) f5) (readModules d n)) in
      bindA (if ctx \<noteq> 0 then bindA (sh_CtxSetCurrent d 0 ctx) (\<lambda>_. retA ()) else retA ()) (\<lambda>_.
        if kind = 0 then
          bindA (sh_ModuleLoad d (c_string b)) (\<lambda>(r, m).
            if r \<noteq> CUDA_SUCCESS then retA (- 32)
            else bindA (on_trk (track_module m ctx (c_string b) [] 0)) (\<lambda>_. rest m))
        else
          bindA (sh_ModuleLoadData d b) (\<lambda>(r, m).
            if r \<noteq> CUDA_SUCCESS then retA (- 33)
            else bindA (on_trk (track_module m ctx [] b (length b))) (\<lambda>_. rest m))))"

definition ckpt_modules_restore :: "'g driver \<Rightarrow> (string \<Rightarrow> bytes option) \<Rightarrow> ('g, int) shact" where
  "ckpt_modules_restore d rd =
     (case rd ''modules.bin'' of None \<Rightarrow> retA 0 | Some bs \<Rightarrow>
        let (magic, f1) = (is_word 4 (bs, True) :: u32 \<times> istream) in
        if magic \<noteq> kModMagic then retA (- 31)
        else
          let f2 = is_skip 2 (snd (is_word 2 f1 :: u16 \<times> istream));
              (cnt, f3) = (is_word 4 f2 :: u32 \<times> istream) in
          bindA (trkA t_primary) (\<lambda>cur.
          bindA (if cur \<noteq> 0 then bindA (sh_CtxSetCurrent d 0 cur) (\<lambda>_. retA ()) else retA ()) (\<lambda>_.
            readModules d (unat cnt) f3)))"

definition ckpt_ctx_restore :: "'g driver \<Rightarrow> (string \<Rightarrow> bytes option) \<Rightarrow> ('g, unit) shact" where
  "ckpt_ctx_restore d rd =
     (case rd ''ctx.bin'' of None \<Rightarrow> retA () | Some bs \<Rightarrow>
        let (magic, f1) = (is_word 4 (bs, True) :: u32 \<times> istream) in
        if magic \<noteq> kCtxMagic then retA ()
        else
          let (ctx, f2) = (is_word 8 (is_skip 4 f1) :: u64 \<times> istream);
              (dev, f3) = (is_word 4 f2 :: u32 \<times> istream);
              (ctx_flags, f4) = (is_word 4 f3 :: u32 \<times> istream);
              (dev_flags, f5) = (is_word 4 f4 :: u32 \<times> istream) in
          bindA (on_trk (\<lambda>tr. tr\<lparr>t_device := dev, t_device_flags := dev_flags\<rparr>)) (\<lambda>_.
            if ctx = 0 then retA ()
            else bindA (on_trk (\<lambda>tr. track_ctx ctx dev ctx_flags (set_primary ctx tr))) (\<lambda>_.
              bindA (sh_CtxSetCurrent d 0 ctx) (\<lambda>_. retA ()))))"

fun readStreams :: "nat \<Rightarrow> istream \<Rightarrow> Tracker \<Rightarrow> Tracker" where
  "readStreams 0 f tr = tr"
| "readStreams (Suc n) f tr =
     (let (st, f1) = (is_word 8 f :: u64 \<times> istream);
          (ctx, f2) = (is_word 8 f1 :: u64 \<times> istream);
          (flags, f3) = (is_word 4 f2 :: u32 \<times> istream);
          (pri, f4) = (is_word 4 f3 :: u32 \<times> istream);
          (capture, f5) = (is_word 4 f4 :: u32 \<times> istream)
      in readStreams n f5 (update_stream_state st pri capture tr))"

definition ckpt_streams_restore :: "(string \<Rightarrow> bytes option) \<Rightarrow> ('g, unit) shact" where
  "ckpt_streams_restore rd =
     (case rd ''streams.bin'' of None \<Rightarrow> retA () | Some bs \<Rightarrow>
        let (magic, f1) = (is_word 4 (bs, True) :: u32 \<times> istream) in
        if magic \<noteq> kStrMagic then retA ()
        else let (cnt, f2) = (is_word 4 (is_skip 4 f1) :: u32 \<times> istream)
          in on_trk (readStreams (unat cnt) f2))"

section \<open>restore.cu, the manifest\<close>

definition getChunk :: "bytes \<Rightarrow> ChunkEntry" where
  "getChunk b = \<lparr>ce_ptr = le_get (chunk b 0 8), ce_size = le_get (chunk b 8 8), ce_offset = le_get (chunk b 16 8),
     ce_crc32c = le_get (chunk b 24 4), ce_pad = le_get (chunk b 28 4)\<rparr>"

fun getChunks :: "nat \<Rightarrow> bytes \<Rightarrow> ChunkEntry list" where
  "getChunks 0 b = []"
| "getChunks (Suc n) b = getChunk (take 32 b) # getChunks n (drop 32 b)"

text \<open>The header is 24 bytes as the compiler lays it out; the entries follow, in the order of \<open>pad\<close>.\<close>

definition restore_manifest :: "bytes \<Rightarrow> (int \<times> string) + ChunkEntry list" where
  "restore_manifest bs =
     (let (hdr, f1) = is_read 24 (bs, True) in
      if (le_get (chunk hdr 0 4) :: u32) \<noteq> 0x434B5054 then Inl (- 2, ''magic'')
      else
        let n = unat (le_get (chunk hdr 8 4) :: u32); (body, f2) = is_read (n * 32) f1 in
        if \<not> snd f2 then Inl (- 3, ''manifest body'')
        else
          let es = getChunks n body in
          Inr (if list_ex (\<lambda>e. ce_pad e \<noteq> 0) es then sort_key ce_pad es else es))"

section \<open>restore.cu, the device\<close>

text \<open>
  Memory at a given address: reserve, create, map, allow access; on failure what was done is
  undone. The rounding to the granularity is in 64 bits.
\<close>

definition map_at :: "'g driver \<Rightarrow> u32 \<Rightarrow> dptr \<Rightarrow> u64 \<Rightarrow> 'g \<Rightarrow> CUresult \<times> 'g" where
  "map_at d dev want sz g =
     (let (gr, gran) = d_Granularity d dev g in
      if gr \<noteq> CUDA_SUCCESS then (gr, g)
      else
        let aligned = ((sz + gran - 1) div gran) * gran; ((r, addr), g1) = d_AddressReserve d aligned gran want g in
        if r \<noteq> CUDA_SUCCESS then (r, g1)
        else
          let ((r, h), g2) = d_Create d aligned dev g1 in
          if r \<noteq> CUDA_SUCCESS then (r, d_AddressFree d addr aligned g2)
          else
            let (r, g3) = d_Map d addr aligned h g2 in
            if r \<noteq> CUDA_SUCCESS then (r, d_AddressFree d addr aligned (d_Release d h g3))
            else
              let (r, g4) = d_SetAccess d addr aligned dev g3;
                  undo = (\<lambda>g. d_AddressFree d addr aligned (d_Release d h (d_Unmap d addr aligned g))) in
              if r \<noteq> CUDA_SUCCESS then (r, undo g4)
              else if addr \<noteq> want then (CUDA_ERROR_INVALID_VALUE, undo g4)
              else (CUDA_SUCCESS, g4))"

record RestoreTask =
  r_entry :: ChunkEntry
  r_ptr :: dptr
  r_host :: u64
  r_err_code :: int
  r_err :: CUresult

record 'g rest = "'g shim" +
  rs_tasks :: "RestoreTask list"

text \<open>The memory of one entry: where the driver puts it, if that is its address, or mapped there.\<close>

definition place_entry :: "'g driver \<Rightarrow> u32 \<Rightarrow> ChunkEntry \<Rightarrow> ('g, CUresult) shact" where
  "place_entry d dev e =
     bindA (sh_MemAlloc d (ce_size e)) (\<lambda>(ar, p).
       if ar \<noteq> CUDA_SUCCESS \<or> p \<noteq> ce_ptr e then
         bindA (if p \<noteq> 0 then sh_MemFree d p else retA ()) (\<lambda>_. on_gpu (map_at d dev (ce_ptr e) (ce_size e)))
       else retA CUDA_SUCCESS)"

text \<open>Its buffer, and its bytes out of \<open>device.bin\<close>.\<close>

definition fill_task :: "'g driver \<Rightarrow> bytes \<Rightarrow> ChunkEntry \<Rightarrow> ('g, RestoreTask) shact" where
  "fill_task d device e s =
     (let (host, s1) = pool_acquire d (ce_size e) s in
      if host = 0 then failA d (- 17) CUDA_ERROR_OUT_OF_MEMORY ''pinned'' s1
      else if 2 ^ 63 \<le> ce_offset e \<or> 2 ^ 63 \<le> ce_size e \<or> length device < unat (ce_offset e) + unat (ce_size e)
        then failA d (- 9) CUDA_SUCCESS ''device read'' s1
      else (Ret \<lparr>r_entry = e, r_ptr = ce_ptr e, r_host = host, r_err_code = 0, r_err = 0\<rparr>,
        host_put host (chunk device (unat (ce_offset e)) (unat (ce_size e))) s1))"

definition prepareTask :: "'g driver \<Rightarrow> u32 \<Rightarrow> handle \<Rightarrow> bytes \<Rightarrow> ChunkEntry \<Rightarrow> ('g, RestoreTask) shact" where
  "prepareTask d dev ctx device e =
     bindA (place_entry d dev e) (\<lambda>mr.
       if mr \<noteq> CUDA_SUCCESS then failA d (- 5) mr ''addr remap''
       else bindA (on_trk (track_alloc (ce_ptr e) (ce_size e) ctx 0)) (\<lambda>_. fill_task d device e))"

fun prepareTasks :: "'g driver \<Rightarrow> u32 \<Rightarrow> handle \<Rightarrow> bytes \<Rightarrow> ChunkEntry list \<Rightarrow> ('g, RestoreTask list) shact" where
  "prepareTasks d dev ctx device [] = retA []"
| "prepareTasks d dev ctx device (e # es) =
     bindA (prepareTask d dev ctx device e) (\<lambda>t.
     bindA (prepareTasks d dev ctx device es) (\<lambda>ts. retA (t # ts)))"

text \<open>One task of \<open>restore_htod_worker\<close>.\<close>

definition htod_job :: "'g driver \<Rightarrow> 'g rest job" where
  "htod_job d w i s =
     (let t = rs_tasks s ! i;
          (r, g) = d_HtoD d (r_ptr t) (host_get (r_host t) (ce_size (r_entry t)) s) (sm_gpu s);
          s1 = s\<lparr>sm_gpu := g\<rparr>
      in if r \<noteq> CUDA_SUCCESS
         then (- 10, s1\<lparr>rs_tasks := (rs_tasks s1)[i := t\<lparr>r_err_code := - 10, r_err := r\<rparr>]\<rparr>) else (0, s1))"

definition htod_all :: "'g driver \<Rightarrow> u32 \<Rightarrow> nat list \<Rightarrow> RestoreTask list \<Rightarrow> ('g, unit) shact" where
  "htod_all d hw sched tasks s =
     (let n = length tasks;
          st = run_pool [htod_job d] n (workers_for hw n) sched (shim.extend s \<lparr>rs_tasks = tasks\<rparr>);
          s1 = wp_shared st
      in case (if wp_fail st = 0 then None else find (\<lambda>t. r_err_code t \<noteq> 0) (rs_tasks s1)) of
           Some t \<Rightarrow> failA d (r_err_code t) (r_err t) ''htod'' (shim_of s1)
         | None \<Rightarrow> (Ret (), shim_of (release_all (map r_host (rs_tasks s1)) s1)))"

section \<open>restore.cu, the whole\<close>

text \<open>The device: the one the tracker knows, or the one of \<open>dev.bin\<close>.\<close>

definition restore_device :: "(string \<Rightarrow> bytes option) \<Rightarrow> ('g, u32) shact" where
  "restore_device rd =
     bindA (trkA t_device) (\<lambda>dev.
       if dev \<noteq> 0 then retA dev
       else (case rd ''dev.bin'' of None \<Rightarrow> retA dev | Some bs \<Rightarrow>
         let dev' = fst (is_word 4 (bs, True) :: u32 \<times> istream)
         in bindA (on_trk (\<lambda>tr. tr\<lparr>t_device := dev'\<rparr>)) (\<lambda>_. retA dev')))"

text \<open>The context: the one the tracker knows, or the primary one of the device, which is retained.\<close>

definition restore_ctx :: "'g driver \<Rightarrow> u32 \<Rightarrow> ('g, handle) shact" where
  "restore_ctx d dev =
     bindA (trkA t_primary) (\<lambda>ctx.
     bindA (if ctx \<noteq> 0 then retA ctx
            else bindA (sh_PrimaryCtxRetain d dev) (\<lambda>(r, c).
              if r \<noteq> CUDA_SUCCESS then failA d (- 7) CUDA_SUCCESS ''ctx retain'' else retA c)) (\<lambda>ctx.
     bindA (sh_CtxSetCurrent d 0 ctx) (\<lambda>r.
       if r \<noteq> CUDA_SUCCESS then failA d (- 8) r ''ctx set''
       else bindA (on_trk (\<lambda>tr. (set_primary ctx tr)\<lparr>t_device := dev\<rparr>)) (\<lambda>_.
            bindA (on_trk (\<lambda>tr. let tr' = tracker_clear tr in track_ctx ctx dev (t_primary_flags tr') tr')) (\<lambda>_.
              retA ctx)))))"

definition ckpt_restore_load ::
  "'g driver \<Rightarrow> u32 \<Rightarrow> nat list \<Rightarrow> (string \<Rightarrow> bytes option) \<Rightarrow> ('g, unit) shact" where
  "ckpt_restore_load d hw sched rd =
     (case rd ''manifest.bin'' of None \<Rightarrow> failA d (- 1) CUDA_SUCCESS ''manifest'' | Some mf \<Rightarrow>
      (case restore_manifest mf of Inl (code, msg) \<Rightarrow> failA d code CUDA_SUCCESS msg | Inr want \<Rightarrow>
      (case rd ''device.bin'' of None \<Rightarrow> failA d (- 4) CUDA_SUCCESS ''device.bin'' | Some device \<Rightarrow>
        bindA (restore_device rd) (\<lambda>dev.
        bindA (sh_Init d) (\<lambda>r.
          if r \<noteq> CUDA_SUCCESS then failA d (- 6) r ''cuInit''
          else
            bindA (ckpt_ctx_restore d rd) (\<lambda>_.
            bindA (restore_ctx d dev) (\<lambda>ctx.
            bindA (ckpt_modules_restore d rd) (\<lambda>rc.
              if rc \<noteq> 0 then failA d (- 35) CUDA_SUCCESS ''modules''
              else
                bindA (ckpt_streams_restore rd) (\<lambda>_.
                bindA (prepareTasks d dev ctx device want) (\<lambda>tasks.
                bindA (htod_all d hw sched tasks) (\<lambda>_.
                bindA (on_gpu (d_CtxSynchronize d)) (\<lambda>r.
                  if r \<noteq> CUDA_SUCCESS then failA d (- 11) r ''sync''
                  else on_trk (\<lambda>tr. tr\<lparr>t_state := 3\<rparr>)))))))))))))"

end
