(* ===== verification/Shim_Snapshot_Laws.thy ===== *)
theory Shim_Snapshot_Laws
  imports Shim_Laws
begin

text \<open>
  A snapshot under every schedule of its threads: each block is copied into a buffer of its
  own, so the files written are those of a reference definition that knows no threads, no
  buffers and no merging: the bytes of every allocation one after the other, and one entry
  for each.
\<close>

section \<open>The threads\<close>

lemma snap_more: "shim.more s' = shim.more s \<Longrightarrow> sn_tasks (s' :: 'g snap) = sn_tasks s"
  by (cases s; cases s') simp

definition snapG :: "'g driver \<Rightarrow> ('g \<Rightarrow> dptr \<Rightarrow> byte) \<Rightarrow> ('g \<Rightarrow> u64 set) \<Rightarrow> CoalescedAlloc list \<Rightarrow> (dptr \<Rightarrow> byte)
    \<Rightarrow> 'g snap \<Rightarrow> bool" where
  "snapG d mem live blocks M s \<longleftrightarrow> driver_ok d mem live \<and> pool_ok live s \<and> mem (sm_gpu s) = M \<and>
     map k_offset (sn_tasks s) = map k_offset (snapTasks 0 blocks) \<and>
     (\<forall>i < length blocks. k_host (sn_tasks s ! i) \<noteq> 0 \<longrightarrow> lent (k_host (sn_tasks s ! i)) s) \<and>
     (\<forall>i < length blocks. \<forall>j < length blocks. i \<noteq> j \<longrightarrow> k_host (sn_tasks s ! i) \<noteq> 0 \<longrightarrow>
        k_host (sn_tasks s ! i) \<noteq> k_host (sn_tasks s ! j))"

definition snapD :: "CoalescedAlloc list \<Rightarrow> (dptr \<Rightarrow> byte) \<Rightarrow> nat \<Rightarrow> nat \<Rightarrow> 'g snap \<Rightarrow> bool" where
  "snapD blocks M k i s \<longleftrightarrow> (let t = sn_tasks s ! i; b = blocks ! i in
     k_err_code t = 0 \<and> (if k = 0 then k_host t = 0 else k_host t \<noteq> 0 \<and> k_block t = b) \<and>
     (3 \<le> k \<longrightarrow> host_get (k_host t) (co_size b) s = region M (co_base b) (co_size b)))"

definition snapE :: "nat \<Rightarrow> 'g snap \<Rightarrow> bool" where
  "snapE i s \<longleftrightarrow> k_err_code (sn_tasks s ! i) \<noteq> 0"

lemma length_snapTasks [simp]: "length (snapTasks off bs) = length bs"
  by (induction off bs rule: snapTasks.induct) simp_all

lemma snapG_length: "snapG d mem live blocks M s \<Longrightarrow> length (sn_tasks s) = length blocks"
  unfolding snapG_def by (metis length_map length_snapTasks)

text \<open>A step that changes task \<open>i\<close> alone, and of the buffers at most that of task \<open>i\<close>.\<close>

definition touches :: "nat \<Rightarrow> 'g snap \<Rightarrow> 'g snap \<Rightarrow> bool" where
  "touches i s s' \<longleftrightarrow> length (sn_tasks s') = length (sn_tasks s) \<and>
     (\<forall>j < length (sn_tasks s). j \<noteq> i \<longrightarrow> sn_tasks s' ! j = sn_tasks s ! j \<and>
        (k_host (sn_tasks s ! j) \<noteq> 0 \<longrightarrow> sm_host s' (k_host (sn_tasks s ! j)) = sm_host s (k_host (sn_tasks s ! j))))"

lemma touches_frame:
  assumes "touches i s s'" and "j < length (sn_tasks s)" and "j \<noteq> i"
  shows "snapD blocks M k j s \<Longrightarrow> snapD blocks M k j s'" and "snapE j s \<Longrightarrow> snapE j s'"
  using assms by (auto simp: touches_def snapD_def snapE_def host_get_def Let_def split: if_splits)

lemma touches_trans: "touches i s s1 \<Longrightarrow> touches i s1 s2 \<Longrightarrow> touches i s s2"
  by (auto simp: touches_def)

lemma touches_set_task [simp]: "touches i s (set_task i f s)"
  by (simp add: touches_def set_task_def)

lemma set_task_simps [simp]:
  "i < length (sn_tasks s) \<Longrightarrow> sn_tasks (set_task i f s) ! i = f (sn_tasks s ! i)"
  "sm_pool (set_task i f s) = sm_pool s" "sm_host (set_task i f s) = sm_host s" "sm_gpu (set_task i f s) = sm_gpu s"
  "sm_trk (set_task i f s) = sm_trk s" "length (sn_tasks (set_task i f s)) = length (sn_tasks s)"
  by (simp_all add: set_task_def)

lemma snapG_step:
  assumes "snapG d mem live blocks M s" and "i < length blocks" and "touches i s s'"
    and "pool_ok live s'" and "mem (sm_gpu s') = mem (sm_gpu s)"
    and "k_offset (sn_tasks s' ! i) = k_offset (sn_tasks s ! i)"
    and "\<And>q. lent q s \<Longrightarrow> lent q s'"
    and "k_host (sn_tasks s' ! i) = k_host (sn_tasks s ! i) \<or>
      (k_host (sn_tasks s' ! i) \<noteq> 0 \<longrightarrow> lent (k_host (sn_tasks s' ! i)) s' \<and> \<not> lent (k_host (sn_tasks s' ! i)) s)"
  shows "snapG d mem live blocks M s'"
proof -
  have len: "length (sn_tasks s) = length blocks" using snapG_length [OF assms(1)] .
  have same: "sn_tasks s' ! j = sn_tasks s ! j" if "j < length blocks" "j \<noteq> i" for j
    using assms(3) that len by (simp add: touches_def)
  have "map k_offset (sn_tasks s') = map k_offset (sn_tasks s)"
  proof (rule nth_equalityI)
    show "length (map k_offset (sn_tasks s')) = length (map k_offset (sn_tasks s))"
      using assms(3) by (simp add: touches_def)
    fix j assume "j < length (map k_offset (sn_tasks s'))"
    then have "j < length (sn_tasks s)" and "j < length (sn_tasks s')" using assms(3) by (simp_all add: touches_def)
    then show "map k_offset (sn_tasks s') ! j = map k_offset (sn_tasks s) ! j"
      using same [of j] assms(6) len by (cases "j = i") simp_all
  qed
  moreover have host: "k_host (sn_tasks s' ! j) \<noteq> 0 \<longrightarrow> lent (k_host (sn_tasks s' ! j)) s'" if "j < length blocks" for j
    using assms(1,7,8) same [OF that] that unfolding snapG_def by (cases "j = i") auto
  moreover have "k_host (sn_tasks s' ! a) \<noteq> k_host (sn_tasks s' ! b)"
    if "a < length blocks" "b < length blocks" "a \<noteq> b" "k_host (sn_tasks s' ! a) \<noteq> 0" for a b
  proof -
    have old: "k_host (sn_tasks s ! x) \<noteq> k_host (sn_tasks s ! y)"
      if "x < length blocks" "y < length blocks" "x \<noteq> y" "k_host (sn_tasks s ! x) \<noteq> 0" for x y
      using assms(1) that unfolding snapG_def by blast
    have lent: "k_host (sn_tasks s ! x) \<noteq> 0 \<Longrightarrow> lent (k_host (sn_tasks s ! x)) s" if "x < length blocks" for x
      using assms(1) that unfolding snapG_def by blast
    consider "a = i" | "b = i" | "a \<noteq> i" "b \<noteq> i" by blast
    then show ?thesis
    proof cases
      case 1
      then show ?thesis
        using that assms(8) old [of a b] lent [of b] same [of b] by metis
    next
      case 2
      then show ?thesis
        using that assms(8) old [of a b] lent [of a] same [of a] by metis
    next
      case 3
      then show ?thesis using old [of a b] same that by simp
    qed
  qed
  ultimately show ?thesis using assms(1,4,5) unfolding snapG_def by simp
qed

text \<open>What a stage of task \<open>i\<close> does, as the pool of threads wants it.\<close>

definition stage_ok :: "'g driver \<Rightarrow> ('g \<Rightarrow> dptr \<Rightarrow> byte) \<Rightarrow> ('g \<Rightarrow> u64 set) \<Rightarrow> CoalescedAlloc list \<Rightarrow> (dptr \<Rightarrow> byte)
    \<Rightarrow> nat \<Rightarrow> nat \<Rightarrow> 'g snap \<Rightarrow> int \<Rightarrow> 'g snap \<Rightarrow> bool" where
  "stage_ok d mem live blocks M k i s rc s' \<longleftrightarrow> snapG d mem live blocks M s' \<and> touches i s s' \<and>
     (if rc = 0 then snapD blocks M (Suc k) i s' else snapE i s')"

lemma snap_failed_ok:
  assumes "snapG d mem live blocks M s'" and "i < length blocks" and "touches i s s'"
    and "snap_failed i code r s' = (rc, s'')" and "code \<noteq> 0"
  shows "stage_ok d mem live blocks M k i s rc s''"
proof -
  have len: "i < length (sn_tasks s')" using snapG_length [OF assms(1)] assms(2) by simp
  have s'': "rc = code" "s'' = set_task i (\<lambda>t. t\<lparr>k_err_code := code, k_err := r\<rparr>) s'"
    using assms(4) by (auto simp: snap_failed_def)
  have "snapG d mem live blocks M s''"
    unfolding s'' using assms(1) len
    by (intro snapG_step [OF assms(1,2)]) (simp_all add: snapG_def pool_ok_def lent_def)
  then show ?thesis
    using touches_trans [OF assms(3) touches_set_task] len assms(5) by (simp add: stage_ok_def s'' snapE_def)
qed

lemma snap_acquire_ok:
  assumes G: "snapG d mem live blocks M s" and i: "i < length blocks" and D: "snapD blocks M 0 i s"
    and run: "snap_acquire d blocks w i s = (rc, s')"
  shows "stage_ok d mem live blocks M 0 i s rc s'"
proof -
  obtain host s1 where acq: "pool_acquire d (co_size (blocks ! i)) s = (host, s1)" by force
  define s2 where "s2 = set_task i (\<lambda>t. t\<lparr>k_block := blocks ! i, k_host := host\<rparr>) s1"
  have ok: "driver_ok d mem live" "pool_ok live s" using G by (simp_all add: snapG_def)
  note p = pool_acquire_ok [OF ok acq]
  have ts: "sn_tasks s1 = sn_tasks s" by (rule snap_more [OF p(5)])
  have len: "length (sn_tasks s) = length blocks" by (rule snapG_length [OF G])
  have h0: "k_host (sn_tasks s ! i) = 0" "k_err_code (sn_tasks s ! i) = 0" using D by (simp_all add: snapD_def Let_def)
  have t2: "touches i s s2" using p(3) by (simp add: touches_def s2_def set_task_def ts)
  have i2: "sn_tasks s2 ! i = (sn_tasks s ! i)\<lparr>k_block := blocks ! i, k_host := host\<rparr>"
    using i len by (simp add: s2_def ts)
  have "snapG d mem live blocks M s2"
  proof (rule snapG_step [OF G i t2])
    show "pool_ok live s2" using p(1) by (simp add: s2_def pool_ok_def)
    show "mem (sm_gpu s2) = mem (sm_gpu s)" using p(2) by (simp add: s2_def)
    show "lent q s \<Longrightarrow> lent q s2" for q using p(6) by (simp add: s2_def lent_def)
    show "k_host (sn_tasks s2 ! i) = k_host (sn_tasks s ! i) \<or>
        (k_host (sn_tasks s2 ! i) \<noteq> 0 \<longrightarrow> lent (k_host (sn_tasks s2 ! i)) s2 \<and> \<not> lent (k_host (sn_tasks s2 ! i)) s)"
      using p(7) i2 by (simp add: s2_def lent_def)
  qed (simp add: i2)
  moreover have "(rc, s') = (if host = 0 then snap_failed i (- 16) CUDA_ERROR_OUT_OF_MEMORY s2 else (0, s2))"
    using run by (auto simp: snap_acquire_def acq s2_def Let_def)
  ultimately show ?thesis
  proof (cases "host = 0")
    case True
    with \<open>(rc, s') = _\<close> have "snap_failed i (- 16) CUDA_ERROR_OUT_OF_MEMORY s2 = (rc, s')" by simp
    from snap_failed_ok [OF \<open>snapG d mem live blocks M s2\<close> i t2 this] show ?thesis by simp
  qed (use t2 i2 h0 in \<open>simp add: stage_ok_def snapD_def Let_def\<close>)
qed

lemma set_current_snap:
  assumes G: "snapG d mem live blocks M s" and i: "i < length blocks" and run: "set_current d w c s = (r, s')"
  shows "snapG d mem live blocks M s'" and "touches i s s'" and "sn_tasks s' = sn_tasks s" and "sm_host s' = sm_host s"
proof -
  have ok: "driver_ok d mem live" using G by (simp add: snapG_def)
  note c = set_current_ok [OF ok run]
  show ts: "sn_tasks s' = sn_tasks s" by (rule snap_more [OF c(5)])
  then show t: "touches i s s'" using c(4) by (simp add: touches_def)
  show "snapG d mem live blocks M s'"
    by (rule snapG_step [OF G i t]) (use G c ts in \<open>simp_all add: snapG_def pool_ok_def lent_def\<close>)
  show "sm_host s' = sm_host s" by (rule c(4))
qed

lemma snap_enter_ok:
  assumes G: "snapG d mem live blocks M s" and i: "i < length blocks" and D: "snapD blocks M 1 i s"
    and run: "snap_enter d blocks w i s = (rc, s')"
  shows "stage_ok d mem live blocks M 1 i s rc s'"
proof -
  have ok: "driver_ok d mem live" "pool_ok live s" using G by (simp_all add: snapG_def)
  have len: "length (sn_tasks s) = length blocks" by (rule snapG_length [OF G])
  obtain r prev where get: "d_CtxGetCurrent d w (sm_gpu s) = (r, prev)" by force
  show ?thesis
  proof (cases "r = CUDA_SUCCESS")
    case False
    then show ?thesis
      using run get snap_failed_ok [OF G i, of s "- 13" r rc s' 1] by (simp add: snap_enter_def touches_def)
  next
    case True
    define s1 where "s1 = set_task i (\<lambda>t. t\<lparr>k_prev := prev\<rparr>) s"
    have t1: "touches i s s1" and i1: "sn_tasks s1 ! i = (sn_tasks s ! i)\<lparr>k_prev := prev\<rparr>"
      using i len by (simp_all add: s1_def)
    have G1: "snapG d mem live blocks M s1"
      by (rule snapG_step [OF G i t1]) (use ok i1 in \<open>simp_all add: s1_def pool_ok_def lent_def\<close>)
    have D1: "snapD blocks M 2 i s1" using D i1 by (simp add: snapD_def Let_def)
    show ?thesis
    proof (cases "co_ctx (blocks ! i) = 0")
      case True
      then show ?thesis
        using run get \<open>r = CUDA_SUCCESS\<close> G1 t1 D1 by (simp add: snap_enter_def s1_def stage_ok_def numeral_2_eq_2)
    next
      case False
      obtain r2 s2 where set: "set_current d w (co_ctx (blocks ! i)) s1 = (r2, s2)" by force
      note c = set_current_snap [OF G1 i set]
      have "snapD blocks M 2 i s2" using D1 c(3) by (simp add: snapD_def Let_def)
      then show ?thesis
        using run get \<open>r = CUDA_SUCCESS\<close> False set c(1) touches_trans [OF t1 c(2)]
          snap_failed_ok [OF c(1) i touches_trans [OF t1 c(2)], of "- 14" r2 rc s' 1]
        by (cases "r2 = CUDA_SUCCESS") (simp_all add: snap_enter_def stage_ok_def numeral_2_eq_2 flip: s1_def)
    qed
  qed
qed

lemma host_put_simps [simp]:
  "sn_tasks (host_put p b s) = sn_tasks s" "sm_pool (host_put p b s) = sm_pool s" "sm_gpu (host_put p b s) = sm_gpu s"
  "sm_trk (host_put p b s) = sm_trk s"
  by (simp_all add: host_put_def)

lemma host_get_put: "length b = unat n \<Longrightarrow> host_get p n (host_put p b s) = b"
  by (simp add: host_get_def host_put_def)

lemma snap_copy_ok:
  assumes G: "snapG d mem live blocks M s" and i: "i < length blocks" and D: "snapD blocks M 2 i s"
    and run: "snap_copy d blocks w i s = (rc, s')"
  shows "stage_ok d mem live blocks M 2 i s rc s'"
proof -
  let ?b = "blocks ! i" and ?t = "sn_tasks s ! i"
  have ok: "driver_ok d mem live" "pool_ok live s" and M: "mem (sm_gpu s) = M" using G by (simp_all add: snapG_def)
  have len: "length (sn_tasks s) = length blocks" by (rule snapG_length [OF G])
  obtain r b g where copy: "d_DtoH d (co_base ?b) (co_size ?b) (sm_gpu s) = ((r, b), g)" by (metis prod.collapse)
  note dtoh = driver_okD(3) [OF ok(1) copy]
  define s1 where "s1 = s\<lparr>sm_gpu := g\<rparr>"
  define s2 where "s2 = (if r = CUDA_SUCCESS then host_put (k_host ?t) b s1 else s1)"
  define s3 where "s3 = (if k_prev ?t \<noteq> 0 then snd (set_current d w (k_prev ?t) s2) else s2)"
  have h: "k_host ?t \<noteq> 0" "k_err_code ?t = 0" "k_block ?t = ?b" using D by (simp_all add: snapD_def Let_def)
  have others: "k_host (sn_tasks s ! j) \<noteq> k_host ?t" if "j < length blocks" "j \<noteq> i" for j
    using G i that h(1) unfolding snapG_def by metis
  have t2: "touches i s s2"
    using others len by (simp add: touches_def s2_def s1_def host_put_def)
  have ts2: "sn_tasks s2 = sn_tasks s" by (simp add: s2_def s1_def)
  have G2: "snapG d mem live blocks M s2"
    by (rule snapG_step [OF G i t2]) (use ok dtoh ts2 in \<open>simp_all add: s2_def s1_def pool_ok_def lent_def\<close>)
  obtain r3 s3' where set: "set_current d w (k_prev ?t) s2 = (r3, s3')" by force
  note c = set_current_snap [OF G2 i set]
  have s3: "s3 = s2 \<or> s3 = s3'" by (simp add: s3_def set)
  have ts3: "sn_tasks s3 = sn_tasks s" and host3: "sm_host s3 = sm_host s2" and G3: "snapG d mem live blocks M s3"
    using s3 ts2 c G2 by auto
  have t3: "touches i s s3" using s3 t2 touches_trans [OF t2 c(2)] by auto
  have run3: "(rc, s') = (if r \<noteq> CUDA_SUCCESS then snap_failed i (- 15) r s3 else (0, s3))"
    unfolding run [symmetric] snap_copy_def copy Let_def prod.case s1_def s2_def s3_def by (rule refl)
  show ?thesis
  proof (cases "r = CUDA_SUCCESS")
    case True
    have "host_get (k_host ?t) (co_size ?b) s3 = region M (co_base ?b) (co_size ?b)"
      using True dtoh M host_get_put [of b "co_size ?b" "k_host ?t" s1] host3 by (simp add: s2_def host_get_def)
    then have "snapD blocks M 3 i s3" using h ts3 by (simp add: snapD_def Let_def)
    then show ?thesis using True run3 G3 t3 by (simp add: stage_ok_def numeral_3_eq_3 numeral_2_eq_2)
  next
    case False
    then show ?thesis using run3 snap_failed_ok [OF G3 i t3, of "- 15" r rc s' 2] by simp
  qed
qed

lemma snap_crc_ok:
  assumes G: "snapG d mem live blocks M s" and i: "i < length blocks" and D: "snapD blocks M 3 i s"
    and run: "snap_crc blocks w i s = (rc, s')"
  shows "stage_ok d mem live blocks M 3 i s rc s'"
proof -
  have len: "length (sn_tasks s) = length blocks" by (rule snapG_length [OF G])
  define s1 where "s1 = set_task i (\<lambda>t. t\<lparr>k_crc := crc32c (host_get (k_host t) (co_size (blocks ! i)) s)\<rparr>) s"
  have s': "rc = 0" "s' = s1" using run by (simp_all add: snap_crc_def s1_def)
  have t1: "touches i s s1" by (simp add: s1_def)
  have "snapG d mem live blocks M s1"
    by (rule snapG_step [OF G i t1]) (use G i len in \<open>simp_all add: s1_def snapG_def pool_ok_def lent_def\<close>)
  moreover have "snapD blocks M 4 i s1"
    using D i len by (simp add: snapD_def Let_def s1_def host_get_def)
  ultimately show ?thesis using s' t1 by (simp add: stage_ok_def eval_nat_numeral)
qed

lemma snap_stage:
  assumes "k < length (snap_jobs d blocks)" and "i < length blocks" and "snapG d mem live blocks M s"
    and "snapD blocks M k i s" and "(snap_jobs d blocks ! k) w i s = (rc, s')"
  shows "stage_ok d mem live blocks M k i s rc s'"
proof -
  from assms(1) have "k = 0 \<or> k = 1 \<or> k = 2 \<or> k = 3" by (simp add: snap_jobs_def) linarith
  then consider "k = 0" | "k = 1" | "k = 2" | "k = 3" by blast
  then show ?thesis
    using assms snap_acquire_ok snap_enter_ok snap_copy_ok snap_crc_ok
    by cases (fastforce simp: snap_jobs_def)+
qed

interpretation snap: worker_pool "snap_jobs d blocks" "length blocks" "snapG d mem live blocks M" "snapD blocks M" snapE
  for d mem live blocks M
proof
  show "snap_jobs d blocks \<noteq> []" by (simp add: snap_jobs_def)
  fix k i w rc and s s' :: "'a snap"
  assume k: "k < length (snap_jobs d blocks)" "i < length blocks" "snapG d mem live blocks M s" "snapD blocks M k i s"
    "(snap_jobs d blocks ! k) w i s = (rc, s')"
  have ok: "stage_ok d mem live blocks M k i s rc s'" by (rule snap_stage [OF k])
  then show "snapG d mem live blocks M s' \<and> (if rc = 0 then snapD blocks M (Suc k) i s' else snapE i s')"
    by (simp add: stage_ok_def)
  fix j m assume j: "j < length blocks" "j \<noteq> i"
  then show "(snapD blocks M m j s \<longrightarrow> snapD blocks M m j s') \<and> (snapE j s \<longrightarrow> snapE j s')"
    using ok touches_frame [of i s s' j] snapG_length [OF k(3)] unfolding stage_ok_def by auto
qed

end
