(* ===== verification/Shim_Image.thy ===== *)
theory Shim_Image
  imports Shim_Snapshot_Laws
begin

text \<open>
  The files of a snapshot against a reference definition over the list of allocations.
\<close>

section \<open>The reference\<close>

fun ref_entries :: "(dptr \<Rightarrow> byte) \<Rightarrow> u64 \<Rightarrow> AllocRec list \<Rightarrow> ChunkEntry list" where
  "ref_entries M off [] = []"
| "ref_entries M off (a # as) =
     \<lparr>ce_ptr = a_base a, ce_size = a_size a, ce_offset = off, ce_crc32c = crc32c (region M (a_base a) (a_size a)),
      ce_pad = ucast (a_seq a)\<rparr> # ref_entries M (off + a_size a) as"

definition ref_device :: "(dptr \<Rightarrow> byte) \<Rightarrow> AllocRec list \<Rightarrow> bytes" where
  "ref_device M as = concat (map (\<lambda>a. region M (a_base a) (a_size a)) as)"

definition alloc_bytes :: "AllocRec list \<Rightarrow> nat" where
  "alloc_bytes as = sum_list (map (\<lambda>a. unat (a_size a)) as)"

definition alloc_sum :: "AllocRec list \<Rightarrow> u64" where
  "alloc_sum as = sum_list (map a_size as)"

lemma ref_entries_append: "ref_entries M off (as @ bs) = ref_entries M off as @ ref_entries M (off + alloc_sum as) bs"
  by (induction M off as rule: ref_entries.induct) (simp_all add: alloc_sum_def add.assoc)

lemma ref_device_append: "ref_device M (as @ bs) = ref_device M as @ ref_device M bs"
  by (simp add: ref_device_def)

lemma alloc_append [simp]:
  "alloc_bytes (as @ bs) = alloc_bytes as + alloc_bytes bs" "alloc_sum (as @ bs) = alloc_sum as + alloc_sum bs"
  by (simp_all add: alloc_bytes_def alloc_sum_def)

lemma alloc_Cons [simp]:
  "alloc_bytes (a # as) = unat (a_size a) + alloc_bytes as" "alloc_sum (a # as) = a_size a + alloc_sum as"
  "alloc_bytes [] = 0" "alloc_sum [] = 0"
  by (simp_all add: alloc_bytes_def alloc_sum_def)

lemma unat_alloc_sum: "alloc_bytes as < 2 ^ 64 \<Longrightarrow> unat (alloc_sum as) = alloc_bytes as"
proof (induction as)
  case (Cons a as)
  then have "unat (alloc_sum as) = alloc_bytes as" by simp
  then show ?case using Cons.prems by (simp add: unat_word_ariths)
qed simp

lemma length_ref_device: "length (ref_device M as) = alloc_bytes as"
  by (induction as) (simp_all add: ref_device_def)

lemma length_ref_entries [simp]: "length (ref_entries M off as) = length as"
  by (induction M off as rule: ref_entries.induct) simp_all

section \<open>One block\<close>

lemma region_slice:
  assumes "unat o' + unat n \<le> unat tot"
  shows "take (unat n) (drop (unat o') (region M p tot)) = region M (p + o') n"
proof (rule nth_equalityI)
  fix i assume "i < length (take (unat n) (drop (unat o') (region M p tot)))"
  then show "take (unat n) (drop (unat o') (region M p tot)) ! i = region M (p + o') n ! i"
    using assms by (simp add: region_def add.assoc)
qed (use assms in simp)

lemma unat_add_le: "unat (a :: u64) + n < 2 ^ 64 \<Longrightarrow> unat b = n \<Longrightarrow> unat (a + b) = unat a + unat b"
  by (simp add: unat_word_ariths)

lemma part_entries:
  assumes "chained (p + r) c as" and "unat r + alloc_bytes as \<le> unat tot"
    and "take (unat tot) host = region M p tot"
    and "co_base (k_block t) = p"
  shows "map (partEntry host t) as = ref_entries M (k_offset t + r) as"
  using assms(1,2)
proof (induction as arbitrary: r)
  case (Cons a as)
  have tot: "unat tot < 2 ^ LENGTH(64)" by (rule unsigned_less)
  have rel: "a_base a - p = r" and base: "a_base a = p + r" using Cons.prems(1) by simp_all
  have fit: "unat r + unat (a_size a) \<le> unat tot" using Cons.prems(2) by simp
  have "take (unat (a_size a)) (drop (unat r) host) = take (unat (a_size a)) (drop (unat r) (take (unat tot) host))"
    using fit by (simp add: drop_take min_def)
  also have "\<dots> = region M (a_base a) (a_size a)" unfolding assms(3) base by (rule region_slice [OF fit])
  finally have "partEntry host t a = hd (ref_entries M (k_offset t + r) (a # as))"
    using rel assms(4) by (simp add: partEntry_def Let_def)
  moreover have "unat (r + a_size a) = unat r + unat (a_size a)"
    using fit tot by (intro unat_add_le [where n = "unat (a_size a)"]) simp_all
  then have "map (partEntry host t) as = ref_entries M (k_offset t + (r + a_size a)) as"
    using Cons.prems by (intro Cons.IH) (simp_all add: add.assoc)
  ultimately show ?case by (simp add: add.assoc)
qed simp

lemma region_chain:
  assumes "chained p c as" and "alloc_bytes as < 2 ^ 64"
  shows "region M p (alloc_sum as) = ref_device M as"
  using assms
proof (induction as arbitrary: p)
  case (Cons a as)
  have s: "unat (alloc_sum as) = alloc_bytes as" using Cons.prems(2) by (intro unat_alloc_sum) simp
  have "unat (a_size a + alloc_sum as) = unat (a_size a) + unat (alloc_sum as)"
    using Cons.prems(2) s by (intro unat_add_le [where n = "alloc_bytes as"]) simp_all
  from region_add [OF this, of M p] Cons show ?case by (simp add: ref_device_def)
qed (simp add: region_def ref_device_def)

section \<open>All blocks\<close>

text \<open>A task whose block has been copied.\<close>

definition copied :: "('g, 'x) shim_scheme \<Rightarrow> (dptr \<Rightarrow> byte) \<Rightarrow> SnapTask \<Rightarrow> bool" where
  "copied s M t \<longleftrightarrow> host_get (k_host t) (co_size (k_block t)) s = region M (co_base (k_block t)) (co_size (k_block t))"

lemma block_entries:
  assumes "block_ok (k_block t)" and "copied s M t" and "alloc_bytes (co_parts (k_block t)) < 2 ^ 64"
  shows "taskEntries s t = ref_entries M (k_offset t) (co_parts (k_block t))"
    and "host_get (k_host t) (co_size (k_block t)) s = ref_device M (co_parts (k_block t))"
proof -
  let ?b = "k_block t"
  have size: "co_size ?b = alloc_sum (co_parts ?b)" and ch: "chained (co_base ?b) (co_ctx ?b) (co_parts ?b)"
    using assms(1) by (simp_all add: block_ok_def alloc_sum_def)
  show "taskEntries s t = ref_entries M (k_offset t) (co_parts ?b)"
    unfolding taskEntries_def
    using part_entries [of "co_base ?b" 0 "co_ctx ?b" "co_parts ?b" "co_size ?b" "sm_host s (k_host t)" M t] ch assms(2)
      unat_alloc_sum [OF assms(3)] size by (simp add: copied_def host_get_def)
  show "host_get (k_host t) (co_size ?b) s = ref_device M (co_parts ?b)"
    using assms(2) region_chain [OF ch assms(3), of M] size by (simp add: copied_def)
qed

lemma tasks_files:
  assumes "map k_block ts = blocks" and "map k_offset ts = map k_offset (snapTasks off blocks)"
    and "\<forall>t \<in> set ts. copied s M t" and "\<forall>b \<in> set blocks. block_ok b"
    and "alloc_bytes (concat (map co_parts blocks)) < 2 ^ 64"
  shows "concat (map (taskEntries s) ts) = ref_entries M off (concat (map co_parts blocks)) \<and>
    snapDevice s ts = ref_device M (concat (map co_parts blocks))"
  using assms
proof (induction ts arbitrary: off blocks)
  case Nil
  then show ?case by (auto simp: snapDevice_def ref_device_def)
next
  case (Cons t ts)
  then obtain bs where blocks: "blocks = k_block t # bs" and bs: "map k_block ts = bs" by auto
  have off: "k_offset t = off" using Cons.prems(2) blocks by (simp add: snapTask_def)
  have ok: "block_ok (k_block t)" and cp: "copied s M t" using Cons.prems(3,4) blocks by simp_all
  have small: "alloc_bytes (co_parts (k_block t)) < 2 ^ 64" "alloc_bytes (concat (map co_parts bs)) < 2 ^ 64"
    using Cons.prems(5) blocks by simp_all
  have "concat (map (taskEntries s) ts) = ref_entries M (off + co_size (k_block t)) (concat (map co_parts bs)) \<and>
      snapDevice s ts = ref_device M (concat (map co_parts bs))"
    using Cons.prems blocks bs small(2) by (intro Cons.IH) simp_all
  moreover have "co_size (k_block t) = alloc_sum (co_parts (k_block t))" using ok by (simp add: block_ok_def alloc_sum_def)
  ultimately show ?case
    using block_entries [OF ok cp small(1)] off blocks
    by (simp add: ref_entries_append ref_device_append) (simp add: snapDevice_def)
qed

lemma snap_total_eq: "\<forall>b \<in> set blocks. block_ok b \<Longrightarrow> snap_total blocks = alloc_sum (concat (map co_parts blocks))"
proof -
  have "\<forall>b \<in> set blocks. block_ok b \<Longrightarrow> foldl (\<lambda>off b. off + co_size b) k blocks = k + alloc_sum (concat (map co_parts blocks))"
    for k
    by (induction blocks arbitrary: k) (simp_all add: block_ok_def alloc_sum_def add.assoc)
  then show "\<forall>b \<in> set blocks. block_ok b \<Longrightarrow> snap_total blocks = alloc_sum (concat (map co_parts blocks))"
    by (simp add: snap_total_def)
qed

section \<open>The whole snapshot\<close>

text \<open>What the threads leave, from a state with a sound pool.\<close>

lemma snapTasks_init: "i < length bs \<Longrightarrow> k_host (snapTasks off bs ! i) = 0 \<and> k_err_code (snapTasks off bs ! i) = 0"
proof (induction off bs arbitrary: i rule: snapTasks.induct)
  case (2 off b bs)
  then show ?case by (cases i) (simp_all add: snapTask_def)
qed simp

lemma snap_start_ok:
  assumes "driver_ok d mem live" and "pool_ok live s" and "mem (sm_gpu s) = M"
  shows "snapG d mem live blocks M (snap_start blocks s)" and "i < length blocks \<Longrightarrow> snapD blocks M 0 i (snap_start blocks s)"
proof -
  have simps: "sn_tasks (snap_start blocks s) = snapTasks 0 blocks" "sm_pool (snap_start blocks s) = sm_pool s"
    "sm_gpu (snap_start blocks s) = sm_gpu s"
    by (simp_all add: snap_start_def shim.defs)
  show "snapG d mem live blocks M (snap_start blocks s)"
    using assms snapTasks_init [of _ blocks 0] by (simp add: snapG_def simps pool_ok_def lent_def)
  show "i < length blocks \<Longrightarrow> snapD blocks M 0 i (snap_start blocks s)"
    using snapTasks_init [of i blocks 0] by (simp add: snapD_def simps)
qed

text \<open>A failure of a thread is always reported.\<close>

lemma find_failure:
  assumes "i < length ts" and "P (ts ! i)"
  shows "find P ts \<noteq> None"
  using assms by (metis find_None_iff nth_mem)

lemma snapshot_files_spec:
  assumes drv: "driver_ok d mem live" and q: "ckpt_quiesce_gpu d s = (Ret 0, s1)" and pool: "pool_ok live s1"
    and bytes: "alloc_bytes (allocs_snapshot (sm_trk s1)) < 2 ^ 64"
    and run: "snapshot_files d hw sched pad s = (Ret files, s')"
  shows "\<exists>rest. files =
    [(''device.bin'', ref_device (mem (sm_gpu s1)) (allocs_snapshot (sm_trk s1)), - 2),
     (''manifest.bin'', snapManifest pad (ref_entries (mem (sm_gpu s1)) 0 (allocs_snapshot (sm_trk s1)))
        (alloc_sum (allocs_snapshot (sm_trk s1))), - 3)] @ rest \<and>
    map fst rest = [''dev.bin'', ''ctx.bin'', ''streams.bin'', ''modules.bin'']"
proof -
  let ?as = "allocs_snapshot (sm_trk s1)" and ?M = "mem (sm_gpu s1)"
  define blocks where "blocks = coalesce_allocs ?as"
  define st where "st = run_pool (snap_jobs d blocks) (length blocks) (workers_for hw (length blocks)) sched (snap_start blocks s1)"
  note start = snap_start_ok [OF drv pool refl, where blocks = blocks]
  have st: "st = run_pool (snap_jobs d blocks) (length blocks) (workers_for hw (length blocks)) sched (snap_start blocks s1)"
    by (simp add: st_def)
  have res: "wp_fail st = 0 \<Longrightarrow> snapG d mem live blocks ?M (wp_shared st) \<and> (\<forall>i < length blocks. snapD blocks ?M (length (snap_jobs d blocks)) i (wp_shared st))"
    "wp_fail st \<noteq> 0 \<Longrightarrow> snapG d mem live blocks ?M (wp_shared st) \<and> (\<exists>i < length blocks. snapE i (wp_shared st))"
    unfolding st by (rule snap.pool_result(2,3) [OF start workers_for_pos]; assumption)+
  have not_bad: "\<not> t_bad (sm_trk s)"
    using run by (auto simp: snapshot_files_def bindA_def trkA_def readA_def failA_def errA_def split: if_splits)
  have run1: "(case (if wp_fail st = 0 then None else find (\<lambda>t. k_err_code t \<noteq> 0) (sn_tasks (wp_shared st))) of
      Some t \<Rightarrow> failA d (k_err_code t) (k_err t) ''dtoh'' (shim_of (wp_shared st))
    | None \<Rightarrow> (Ret (image_files d pad (snap_total blocks) (wp_shared st)),
        shim_of (release_all (map k_host (sn_tasks (wp_shared st))) (wp_shared st)))) = (Ret files, s')"
    using run not_bad unfolding snapshot_files_def st_def blocks_def
    by (simp add: bindA_def trkA_def readA_def q Let_def)
  have len: "length (sn_tasks (wp_shared st)) = length blocks"
    using res snapG_length by blast
  have ok: "wp_fail st = 0"
  proof (rule ccontr)
    assume "wp_fail st \<noteq> 0"
    moreover from res(2) [OF this] obtain i where "i < length blocks" "snapE i (wp_shared st)" by blast
    then have "find (\<lambda>t. k_err_code t \<noteq> 0) (sn_tasks (wp_shared st)) \<noteq> None"
      using len by (intro find_failure [of i]) (simp_all add: snapE_def)
    ultimately show False using run1 by (auto simp: failA_def errA_def)
  qed
  let ?s = "wp_shared st"
  have files: "files = image_files d pad (snap_total blocks) ?s" using run1 ok by simp
  have G: "snapG d mem live blocks ?M ?s" and D: "\<forall>i < length blocks. snapD blocks ?M 4 i ?s"
    using res(1) [OF ok] by (simp_all add: snap_jobs_def eval_nat_numeral)
  have "map k_block (sn_tasks ?s) = blocks"
    using D len by (intro nth_equalityI) (simp_all add: snapD_def Let_def)
  moreover have "map k_offset (sn_tasks ?s) = map k_offset (snapTasks 0 blocks)" using G by (simp add: snapG_def)
  moreover have "\<forall>t \<in> set (sn_tasks ?s). copied ?s ?M t"
    using D len by (auto simp: snapD_def copied_def Let_def in_set_conv_nth)
  moreover have "concat (map co_parts blocks) = ?as" and "\<forall>b \<in> set blocks. block_ok b"
    using coalesce_exact_blocks [of ?as] by (simp_all add: blocks_def)
  ultimately have "concat (map (taskEntries ?s) (sn_tasks ?s)) = ref_entries ?M 0 ?as"
    and "snapDevice ?s (sn_tasks ?s) = ref_device ?M ?as" and "snap_total blocks = alloc_sum ?as"
    using tasks_files [of "sn_tasks ?s" blocks 0 ?s ?M] bytes snap_total_eq [of blocks] by simp_all
  then show ?thesis by (simp add: files image_files_def Let_def)
qed

end
