(* ===== verification/Shim_Manifest.thy ===== *)
theory Shim_Manifest
  imports Shim_Image Image_Format
begin

text \<open>
  The manifest of the shim from both sides: read by \<open>restore.cu\<close>, and read by the Go
  program. The compiler pads the shim's header to 24 bytes and its entries have 32 bytes
  under version 2, where \<open>pkg/image/format.go\<close> expects 20 and 64. The checksum is the
  same on both sides.
\<close>

section \<open>The checksum\<close>

lemma crc32c_table_pow: "crc32c_table i = (crc_shift ^^ 8) i"
proof -
  have "(\<lambda>c. if c AND 1 \<noteq> 0 then 0x82F63B78 XOR drop_bit 1 c else drop_bit 1 c) = crc_shift"
  proof
    fix c :: u32
    have "c AND 1 \<noteq> 0 \<longleftrightarrow> bit c 0" by (simp add: and_one_eq bit_0 odd_iff_mod_2_eq_one)
    then show "(if c AND 1 \<noteq> 0 then 0x82F63B78 XOR drop_bit 1 c else drop_bit 1 c) = crc_shift c"
      by (simp add: crc_shift_def castagnoli_def xor.commute)
  qed
  then show ?thesis by (simp add: crc32c_table_def)
qed

lemma crc32c_step: "crc32c_table ((c XOR ucast b) AND 0xFF) XOR drop_bit 8 c = crc_update c b"
proof -
  have "(c XOR ucast b) AND mask 8 = ucast (ucast c XOR b)"
  proof (rule bit_word_eqI)
    fix i assume "i < LENGTH(32)"
    then show "bit ((c XOR ucast b) AND mask 8) i = bit (ucast (ucast c XOR b) :: u32) i"
      by (auto simp: bit_simps dest: bit_imp_le_length)
  qed
  then have "(c XOR ucast b) AND 0xFF = ucast (ucast c XOR b)" by (simp add: mask_eq_exp_minus_1)
  then show ?thesis by (simp only: crc32c_table_pow crc_update_def crc_table_def)
qed

lemma crc32c_Go: "crc32c data = CRC32C data"
proof -
  have "(0xFFFFFFFF :: u32) = NOT 0" by simp
  moreover have "x XOR NOT 0 = NOT x" for x :: u32 by (rule bit_word_eqI) (auto simp: bit_simps)
  ultimately show ?thesis by (simp only: crc32c_def CRC32C_def crc32c_step)
qed

section \<open>Read by the shim\<close>

lemma length_snapHeader [simp]: "length (snapHeader pad cnt tot) = 24"
  by (simp add: snapHeader_def)

lemma length_putChunk [simp]: "length (putChunk e) = 32"
  by (simp add: putChunk_def)

lemma length_putChunks [simp]: "length (concat (map putChunk es)) = 32 * length es"
  by (induction es) simp_all

lemma snapHeader_fields [simp]:
  "le_get (chunk (snapHeader pad cnt tot) 0 4) = (0x434B5054 :: u32)"
  "le_get (chunk (snapHeader pad cnt tot) 8 4) = cnt"
  by (simp_all add: snapHeader_def chunk_def le_get_put_full)

lemma getChunk_putChunk [simp]: "getChunk (putChunk e) = e"
  by (cases e) (simp add: getChunk_def putChunk_def chunk_def le_get_put_full)

lemma getChunks_put: "getChunks (length es) (concat (map putChunk es)) = es"
  by (induction es) simp_all

lemma is_read_exact: "length b = n \<Longrightarrow> is_read n (b @ r, True) = (b, (r, True))"
  by (simp add: is_read_def)

lemma restore_manifest_own:
  assumes "length es < 2 ^ 32"
  shows "restore_manifest (snapManifest pad es tot) = Inr (if list_ex (\<lambda>e. ce_pad e \<noteq> 0) es then sort_key ce_pad es else es)"
proof -
  have "unat (word_of_nat (length es) :: u32) = length es" using assms by (simp add: unat_of_nat)
  moreover have "is_read (length es * 32) (concat (map putChunk es), True) = (concat (map putChunk es), ([], True))"
    using is_read_exact [of "concat (map putChunk es)" "length es * 32" "[]"] by simp
  ultimately show ?thesis
    by (simp add: restore_manifest_def snapManifest_def is_read_exact Let_def getChunks_put)
qed

section \<open>Read by Go\<close>

text \<open>Magic, version, flags and count are where Go looks for them.\<close>

lemma parseHeader_snapManifest:
  "\<exists>h r. parseHeader (snapManifest pad es tot) = Inr (h, r) \<and> h_Version h = VersionV2 \<and> h_Flags h = 0 \<and>
    h_Count h = word_of_nat (length es) \<and> length r = 4 + 32 * length es"
proof -
  let ?b = "take 20 (snapHeader pad (word_of_nat (length es)) tot)"
  let ?r = "drop 20 (snapHeader pad (word_of_nat (length es)) tot) @ concat (map putChunk es)"
  have split: "snapManifest pad es tot = ?b @ ?r" by (simp add: snapManifest_def)
  have "parseHeader (snapManifest pad es tot) = (if h_Magic (getHeader ?b) \<noteq> Magic then Inl ErrInvalid else Inr (getHeader ?b, ?r))"
    unfolding split by (simp add: parseHeader_def dec_struct_def headerSize_def)
  moreover have "h_Magic (getHeader ?b) = Magic" "h_Version (getHeader ?b) = VersionV2" "h_Flags (getHeader ?b) = 0"
    "h_Count (getHeader ?b) = word_of_nat (length es)"
    by (simp_all add: getHeader_def snapHeader_def chunk_def le_get_put_full Magic_def VersionV2_def)
  ultimately show ?thesis by simp
qed

text \<open>But the entries are too short for it, all the more when a write fell short.\<close>

lemma parseHeader_snapManifest_cut:
  "is_short (parseHeader (take n (snapManifest pad es tot))) \<or>
   (\<exists>h r. parseHeader (take n (snapManifest pad es tot)) = Inr (h, r) \<and> h_Version h = VersionV2 \<and> h_Flags h = 0 \<and>
     h_Count h = word_of_nat (length es) \<and> length r \<le> 4 + 32 * length es)"
proof (cases "n < headerSize")
  case True
  then show ?thesis by (intro disjI1 parseHeader_short) simp
next
  case False
  let ?b = "take 20 (snapHeader pad (word_of_nat (length es)) tot)"
  let ?r = "drop 20 (snapHeader pad (word_of_nat (length es)) tot) @ concat (map putChunk es)"
  have "take (20 + (n - 20)) (snapManifest pad es tot) = ?b @ take (n - 20) ?r"
    unfolding take_add by (simp add: snapManifest_def)
  then have split: "take n (snapManifest pad es tot) = ?b @ take (n - 20) ?r"
    using False by (simp add: headerSize_def)
  have "parseHeader (take n (snapManifest pad es tot)) =
      (if h_Magic (getHeader ?b) \<noteq> Magic then Inl ErrInvalid else Inr (getHeader ?b, take (n - 20) ?r))"
    unfolding split by (simp add: parseHeader_def dec_struct_def headerSize_def)
  moreover have "h_Magic (getHeader ?b) = Magic" "h_Version (getHeader ?b) = VersionV2" "h_Flags (getHeader ?b) = 0"
    "h_Count (getHeader ?b) = word_of_nat (length es)"
    by (simp_all add: getHeader_def snapHeader_def chunk_def le_get_put_full Magic_def VersionV2_def)
  moreover have "length (take (n - 20) ?r) \<le> 4 + 32 * length es" by simp
  ultimately show ?thesis by (intro disjI2 exI [of _ "getHeader ?b"] exI [of _ "take (n - 20) ?r"]) simp
qed

lemma parseManifest_snapManifest_cut:
  assumes "es \<noteq> []" and "length es < 2 ^ 32"
  shows "is_short (parseManifest (take n (snapManifest pad es tot)))"
  using parseHeader_snapManifest_cut [of n pad es tot]
proof
  assume "is_short (parseHeader (take n (snapManifest pad es tot)))"
  then show ?thesis by (auto simp: parseManifest_def is_short_def)
next
  assume "\<exists>h r. parseHeader (take n (snapManifest pad es tot)) = Inr (h, r) \<and> h_Version h = VersionV2 \<and> h_Flags h = 0 \<and>
     h_Count h = word_of_nat (length es) \<and> length r \<le> 4 + 32 * length es"
  then obtain h r where hd: "parseHeader (take n (snapManifest pad es tot)) = Inr (h, r)" "h_Version h = VersionV2"
    "h_Count h = word_of_nat (length es)" "length r \<le> 4 + 32 * length es" by blast
  have cnt: "unat (h_Count h) = length es" using hd(3) assms(2) by (simp add: unat_of_nat)
  have "length r < entryWidth VersionV2 * length es" using hd(4) assms(1) by (cases es) (simp_all add: entryWidth_def)
  then have "is_short (dec_list (readEntry VersionV2) (length es) r)" by (rule entry.dec_list_short)
  then show ?thesis using hd cnt by (auto simp: parseManifest_def is_short_def)
qed

lemma parseManifest_snapEmpty:
  "\<exists>h. parseManifest (snapManifest pad [] tot) = Inr ([], h)"
  using parseHeader_snapManifest [of pad "[]" tot] by (auto simp: parseManifest_def retD_def)

end
