(* ===== verification/Shim_Restore_Laws.thy ===== *)
theory Shim_Restore_Laws
  imports Shim_Manifest
begin

text \<open>
  What a restore leaves in the memory of the device, under every schedule of its threads:
  at the address of every entry the bytes \<open>device.bin\<close> has for it.
\<close>

section \<open>The driver and the buffers\<close>

text \<open>No other entry point takes back a pinned buffer.\<close>

definition grows :: "('g \<Rightarrow> 'b set) \<Rightarrow> ('g \<Rightarrow> 'a \<times> 'g) \<Rightarrow> bool" where
  "grows live f \<longleftrightarrow> (\<forall>g. live g \<subseteq> live (snd (f g)))"

definition buffers_stay :: "'g driver \<Rightarrow> ('g \<Rightarrow> u64 set) \<Rightarrow> bool" where
  "buffers_stay d live \<longleftrightarrow> grows live (d_Init d) \<and> (\<forall>dev. grows live (d_PrimaryCtxRetain d dev)) \<and>
     (\<forall>n. grows live (d_MemAlloc d n)) \<and> (\<forall>p g. live g \<subseteq> live (d_MemFree d p g)) \<and>
     (\<forall>n al p. grows live (d_AddressReserve d n al p)) \<and> (\<forall>p n g. live g \<subseteq> live (d_AddressFree d p n g)) \<and>
     (\<forall>n dev. grows live (d_Create d n dev)) \<and> (\<forall>h g. live g \<subseteq> live (d_Release d h g)) \<and>
     (\<forall>p n h. grows live (d_Map d p n h)) \<and> (\<forall>p n g. live g \<subseteq> live (d_Unmap d p n g)) \<and>
     (\<forall>p n dev. grows live (d_SetAccess d p n dev)) \<and> (\<forall>f. grows live (d_ModuleLoad d f)) \<and>
     (\<forall>b. grows live (d_ModuleLoadData d b)) \<and> (\<forall>m f. grows live (d_ModuleGetFunction d m f)) \<and>
     grows live (d_CtxSynchronize d) \<and> (\<forall>s. grows live (d_StreamSynchronize d s)) \<and>
     (\<forall>e. grows live (d_EventSynchronize d e))"

lemma growsD: "grows live f \<Longrightarrow> f g = (a, g') \<Longrightarrow> live g \<subseteq> live g'"
  unfolding grows_def by (metis snd_conv)

text \<open>Nothing is running on the device: synchronising changes no memory.\<close>

definition device_idle :: "'g driver \<Rightarrow> ('g \<Rightarrow> dptr \<Rightarrow> byte) \<Rightarrow> bool" where
  "device_idle d mem \<longleftrightarrow> (\<forall>g. mem (snd (d_CtxSynchronize d g)) = mem g)"

text \<open>The buffers of the tasks prepared so far are lent, apart, and hold the bytes of their entries.\<close>

definition task_ready :: "bytes \<Rightarrow> RestoreTask \<Rightarrow> ('g, 'x) shim_scheme \<Rightarrow> bool" where
  "task_ready device t s \<longleftrightarrow> (let e = r_entry t in
     r_host t \<noteq> 0 \<and> lent (r_host t) s \<and> r_ptr t = ce_ptr e \<and> unat (ce_offset e) + unat (ce_size e) \<le> length device \<and>
     host_get (r_host t) (ce_size e) s = chunk device (unat (ce_offset e)) (unat (ce_size e)))"

definition ready :: "('g \<Rightarrow> u64 set) \<Rightarrow> bytes \<Rightarrow> RestoreTask list \<Rightarrow> ('g, 'x) shim_scheme \<Rightarrow> bool" where
  "ready live device ts s \<longleftrightarrow> pool_ok live s \<and> distinct (map r_host ts) \<and> (\<forall>t \<in> set ts. task_ready device t s)"

lemma ready_step:
  assumes "ready live device ts s" and "sm_pool s' = sm_pool s" and "sm_host s' = sm_host s"
    and "live (sm_gpu s) \<subseteq> live (sm_gpu s')"
  shows "ready live device ts s'"
  using assms unfolding ready_def task_ready_def pool_ok_def lent_def host_get_def Let_def by auto

lemma ready_hook [simp]: "ready live device ts (hook c s) = ready live device ts s"
  by (simp add: ready_def task_ready_def pool_ok_def lent_def host_get_def hook_def)

lemma ready_trk [simp]: "ready live device ts (s\<lparr>sm_trk := tr\<rparr>) = ready live device ts s"
  by (simp add: ready_def task_ready_def pool_ok_def lent_def host_get_def)

lemma ready_gpu: "ready live device ts s \<Longrightarrow> live (sm_gpu s) \<subseteq> live g \<Longrightarrow> ready live device ts (s\<lparr>sm_gpu := g\<rparr>)"
  by (rule ready_step) simp_all

named_theorems ready_keeps

lemma ready_on_trk [ready_keeps]: "keeps (ready live device ts) (on_trk f)"
  by (simp add: keeps_def on_trk_def)

lemma ready_trkA [ready_keeps]: "keeps (ready live device ts) (trkA f)"
  by (simp add: trkA_def keeps_pure)

lemma ready_failA [ready_keeps]: "keeps (ready live device ts) (failA d code r msg)"
  by (simp add: failA_def keeps_pure)

lemma ready_on_gpu:
  assumes "grows live f"
  shows "keeps (ready live device ts) (on_gpu f)"
proof (rule keepsI)
  fix s :: "'a shim" assume "ready live device ts s"
  then show "ready live device ts (snd (on_gpu f s))"
    using growsD [OF assms, of "sm_gpu s"] by (cases "f (sm_gpu s)") (simp add: on_gpu_def ready_gpu)
qed

lemma buffers_stayD:
  assumes "buffers_stay d live"
  shows "grows live (d_Init d)" "grows live (d_PrimaryCtxRetain d dev)" "grows live (d_MemAlloc d n)"
    "grows live (d_ModuleLoad d f)" "grows live (d_ModuleLoadData d b)" "grows live (d_ModuleGetFunction d h f)"
    "live g \<subseteq> live (d_MemFree d p g)"
    "grows live (d_AddressReserve d n al p)" "live g \<subseteq> live (d_AddressFree d p n g)" "grows live (d_Create d n dev)"
    "live g \<subseteq> live (d_Release d h g)" "grows live (d_Map d p n h)" "live g \<subseteq> live (d_Unmap d p n g)"
    "grows live (d_SetAccess d p n dev)"
    "grows live (d_CtxSynchronize d)" "grows live (d_StreamSynchronize d sr)" "grows live (d_EventSynchronize d ev)"
  using assms by (simp_all add: buffers_stay_def)

lemma map_at_grows:
  assumes "buffers_stay d live"
  shows "grows live (map_at d dev want sz)"
  unfolding grows_def
proof
  fix g
  note b = buffers_stayD(8-14) [OF assms]
  obtain gr gran where gran: "d_Granularity d dev g = (gr, gran)" by force
  define al where "al = ((sz + gran - 1) div gran) * gran"
  obtain r1 p g1 where 1: "d_AddressReserve d al gran want g = ((r1, p), g1)" by (metis prod.collapse)
  obtain r2 h g2 where 2: "d_Create d al dev g1 = ((r2, h), g2)" by (metis prod.collapse)
  obtain r3 g3 where 3: "d_Map d p al h g2 = (r3, g3)" by force
  obtain r4 g4 where 4: "d_SetAccess d p al dev g3 = (r4, g4)" by force
  note l = growsD [OF b(1) 1] growsD [OF b(3) 2] growsD [OF b(5) 3] growsD [OF b(7) 4]
  note u = b(2) [of g2 p al] b(4) [of g3 h] b(2) [of "d_Release d h g3" p al] b(6) [of g4 p al]
    b(4) [of "d_Unmap d p al g4" h] b(2) [of "d_Release d h (d_Unmap d p al g4)" p al]
  show "live g \<subseteq> live (snd (map_at d dev want sz g))"
    using l u by (simp add: map_at_def gran 1 2 3 4 Let_def flip: al_def) blast
qed

text \<open>Every call of the driver that a restore makes before it copies keeps the buffers.\<close>

lemma ready_calls:
  assumes "buffers_stay d live"
  shows "keeps (ready live device ts) (sh_Init d)" and "keeps (ready live device ts) (sh_PrimaryCtxRetain d dev)"
    and "keeps (ready live device ts) (sh_MemAlloc d n)" and "keeps (ready live device ts) (sh_MemFree d p)"
    and "keeps (ready live device ts) (sh_ModuleLoad d f)" and "keeps (ready live device ts) (sh_ModuleLoadData d b)"
    and "keeps (ready live device ts) (sh_ModuleGetFunction d h f)"
    and "keeps (ready live device ts) (on_gpu (map_at d dev p n))"
proof -
  note g = buffers_stayD(1-6) [OF assms, THEN growsD]
  show "keeps (ready live device ts) (sh_Init d)"
    using g(1) by (fastforce simp: keeps_def sh_Init_def intro: ready_gpu split: prod.splits)
  show "keeps (ready live device ts) (sh_PrimaryCtxRetain d dev)"
    using g(2) by (fastforce simp: keeps_def sh_PrimaryCtxRetain_def intro: ready_gpu split: prod.splits)
  show "keeps (ready live device ts) (sh_MemAlloc d n)"
    using g(3) by (fastforce simp: keeps_def sh_MemAlloc_def Let_def intro: ready_gpu split: prod.splits)
  show "keeps (ready live device ts) (sh_ModuleLoad d f)"
    using g(4) by (fastforce simp: keeps_def sh_ModuleLoad_def Let_def intro: ready_gpu split: prod.splits)
  show "keeps (ready live device ts) (sh_ModuleLoadData d b)"
    using g(5) by (fastforce simp: keeps_def sh_ModuleLoadData_def Let_def intro: ready_gpu split: prod.splits)
  show "keeps (ready live device ts) (sh_ModuleGetFunction d h f)"
    using g(6) by (fastforce simp: keeps_def sh_ModuleGetFunction_def Let_def intro: ready_gpu split: prod.splits)
  show "keeps (ready live device ts) (sh_MemFree d p)"
  proof (rule keepsI)
    fix s :: "'a shim" assume r: "ready live device ts s"
    have "ready live device ts ((hook (CuMemFree p) s)\<lparr>sm_gpu := d_MemFree d p (sm_gpu (hook (CuMemFree p) s))\<rparr>)"
      by (rule ready_gpu) (use r buffers_stayD(7) [OF assms] in simp_all)
    then show "ready live device ts (snd (sh_MemFree d p s))" by (simp add: sh_MemFree_def Let_def)
  qed
  show "keeps (ready live device ts) (on_gpu (map_at d dev p n))"
    by (rule ready_on_gpu [OF map_at_grows [OF assms]])
qed

lemma ready_set_current:
  assumes "driver_ok d mem live"
  shows "keeps (ready live device ts) (sh_CtxSetCurrent d w c)"
proof (rule keepsI)
  fix s :: "'a shim" assume r: "ready live device ts s"
  obtain rc s' where run: "set_current d w c s = (rc, s')" by force
  note c = set_current_ok [OF assms run]
  have "ready live device ts s'" by (rule ready_step [OF r c(3,4)]) (simp add: c(2))
  then show "ready live device ts (snd (sh_CtxSetCurrent d w c s))" by (simp add: sh_CtxSetCurrent_def run)
qed

section \<open>Before the memory\<close>

lemma ready_readSymbols:
  "buffers_stay d live \<Longrightarrow> keeps (ready live device ts) (readSymbols d m n f)"
  by (induction n arbitrary: f)
    (auto simp: Let_def split: prod.splits intro!: keeps_bindA keeps_pure ready_keeps ready_calls)

lemma ready_readModules:
  assumes "driver_ok d mem live" and "buffers_stay d live"
  shows "keeps (ready live device ts) (readModules d n f)"
  by (induction n arbitrary: f)
    (auto simp: Let_def split: prod.splits
      intro!: keeps_bindA keeps_pure ready_keeps ready_calls [OF assms(2)] ready_set_current [OF assms(1)]
        ready_readSymbols [OF assms(2)])

lemma ready_stages:
  assumes "driver_ok d mem live" and "buffers_stay d live"
  shows "keeps (ready live device ts) (ckpt_modules_restore d rd)" and "keeps (ready live device ts) (ckpt_ctx_restore d rd)"
    and "keeps (ready live device ts) (ckpt_streams_restore rd)" and "keeps (ready live device ts) (restore_device rd)"
    and "keeps (ready live device ts) (restore_ctx d dev)"
  unfolding ckpt_modules_restore_def ckpt_ctx_restore_def ckpt_streams_restore_def restore_device_def restore_ctx_def
  by (auto simp: Let_def split: prod.splits option.splits
      intro!: keeps_bindA keeps_pure ready_keeps ready_calls [OF assms(2)] ready_set_current [OF assms(1)]
        ready_readModules [OF assms])

section \<open>Preparing the tasks\<close>

lemma ready_acquire:
  assumes d: "driver_ok d mem live" and r: "ready live device ts s" and acq: "pool_acquire d (ce_size e) s = (host, s1)"
    and host: "host \<noteq> 0" and fit: "unat (ce_offset e) + unat (ce_size e) \<le> length device"
    and t: "r_entry t = e" "r_ptr t = ce_ptr e" "r_host t = host"
  shows "ready live device (ts @ [t]) (host_put host (chunk device (unat (ce_offset e)) (unat (ce_size e))) s1)"
proof -
  let ?b = "chunk device (unat (ce_offset e)) (unat (ce_size e))"
  let ?s = "host_put host ?b s1"
  have pool: "pool_ok live s" using r by (simp add: ready_def)
  note p = pool_acquire_ok [OF d pool acq]
  have new: "r_host u \<noteq> host" if "u \<in> set ts" for u
    using r that p(7) host unfolding ready_def task_ready_def Let_def by metis
  have put: "sm_pool ?s = sm_pool s1" "sm_gpu ?s = sm_gpu s1" by (simp_all add: host_put_def)
  have "task_ready device u ?s" if "u \<in> set ts" for u
  proof -
    have "task_ready device u s" using r that by (simp add: ready_def)
    then show ?thesis
      using p(3) p(6) [of "r_host u"] new [OF that]
      by (simp add: task_ready_def Let_def lent_def put host_get_def host_put_def)
  qed
  moreover have "task_ready device t ?s"
    using p(7) host fit t host_get_put [of ?b "ce_size e" host s1]
    by (simp add: task_ready_def Let_def lent_def put)
  moreover have "pool_ok live ?s" using p(1) by (simp add: pool_ok_def put)
  moreover have "r_host t \<notin> r_host ` set ts" using new t(3) by (metis imageE)
  ultimately show ?thesis using r by (auto simp: ready_def)
qed

lemma prepareTask_ready:
  assumes d: "driver_ok d mem live" "buffers_stay d live" and r: "ready live device ts s"
    and run: "prepareTask d dev ctx device e s = (Ret t, s')"
  shows "ready live device (ts @ [t]) s' \<and> r_entry t = e"
proof -
  have place_keeps: "keeps (ready live device ts) (place_entry d dev e)"
    unfolding place_entry_def
    by (auto intro!: keeps_bindA keeps_pure ready_calls [OF d(2)] split: prod.splits)
  obtain mr sb where place: "place_entry d dev e s = (Ret mr, sb)"
    and run1: "(if mr \<noteq> CUDA_SUCCESS then failA d (- 5) mr ''addr remap''
       else bindA (on_trk (track_alloc (ce_ptr e) (ce_size e) ctx 0)) (\<lambda>_. fill_task d device e)) sb = (Ret t, s')"
    using run unfolding prepareTask_def by (rule bindA_RetE)
  have rb: "ready live device ts sb" by (rule keepsD [OF place_keeps r place])
  define sc where "sc = sb\<lparr>sm_trk := track_alloc (ce_ptr e) (ce_size e) ctx 0 (sm_trk sb)\<rparr>"
  have rc: "ready live device ts sc" using rb by (simp add: sc_def)
  have fill: "fill_task d device e sc = (Ret t, s')"
    using run1 by (auto simp: failA_def errA_def bindA_def on_trk_def sc_def split: if_splits)
  obtain host s1 where acq: "pool_acquire d (ce_size e) sc = (host, s1)" by force
  have res: "host \<noteq> 0" "unat (ce_offset e) + unat (ce_size e) \<le> length device"
    "t = \<lparr>r_entry = e, r_ptr = ce_ptr e, r_host = host, r_err_code = 0, r_err = 0\<rparr>"
    "s' = host_put host (chunk device (unat (ce_offset e)) (unat (ce_size e))) s1"
    using fill acq by (auto simp: fill_task_def failA_def errA_def split: if_splits)
  show ?thesis using ready_acquire [OF d(1) rc acq res(1,2), of t] res(3,4) by simp
qed

lemma prepareTasks_ready:
  assumes d: "driver_ok d mem live" "buffers_stay d live"
  shows "ready live device ts s \<Longrightarrow> prepareTasks d dev ctx device es s = (Ret ts', s') \<Longrightarrow>
    ready live device (ts @ ts') s' \<and> map r_entry ts' = es"
proof (induction es arbitrary: ts s ts')
  case (Cons e es)
  from Cons.prems(2) obtain t s1 ts1 where t: "prepareTask d dev ctx device e s = (Ret t, s1)"
    and rest: "prepareTasks d dev ctx device es s1 = (Ret ts1, s')" and ts': "ts' = t # ts1"
    by (auto elim!: bindA_RetE)
  from prepareTask_ready [OF d Cons.prems(1) t] have "ready live device (ts @ [t]) s1" and e: "r_entry t = e" by simp_all
  from Cons.IH [OF this(1) rest] e ts' show ?case by simp
qed simp

section \<open>The threads\<close>

definition entries_apart :: "ChunkEntry list \<Rightarrow> bool" where
  "entries_apart es \<longleftrightarrow> distinct es \<and>
     (\<forall>e \<in> set es. \<forall>e' \<in> set es. e \<noteq> e' \<longrightarrow> apart (ce_ptr e) (ce_size e) (ce_ptr e') (ce_size e'))"

definition entry_bytes :: "bytes \<Rightarrow> ChunkEntry \<Rightarrow> bytes" where
  "entry_bytes device e = chunk device (unat (ce_offset e)) (unat (ce_size e))"

definition task_key :: "RestoreTask \<Rightarrow> ChunkEntry \<times> dptr \<times> u64" where
  "task_key t = (r_entry t, r_ptr t, r_host t)"

definition htodG :: "'g driver \<Rightarrow> ('g \<Rightarrow> dptr \<Rightarrow> byte) \<Rightarrow> ('g \<Rightarrow> u64 set) \<Rightarrow> bytes \<Rightarrow> RestoreTask list \<Rightarrow> 'g rest \<Rightarrow> bool" where
  "htodG d mem live device tasks s \<longleftrightarrow> driver_ok d mem live \<and> entries_apart (map r_entry tasks) \<and>
     map task_key (rs_tasks s) = map task_key tasks \<and> (\<forall>t \<in> set tasks. task_ready device t s)"

definition htodD :: "('g \<Rightarrow> dptr \<Rightarrow> byte) \<Rightarrow> bytes \<Rightarrow> RestoreTask list \<Rightarrow> nat \<Rightarrow> nat \<Rightarrow> 'g rest \<Rightarrow> bool" where
  "htodD mem device tasks k i s \<longleftrightarrow> (let e = r_entry (tasks ! i) in
     k \<noteq> 0 \<longrightarrow> region (mem (sm_gpu s)) (ce_ptr e) (ce_size e) = entry_bytes device e)"

definition htodE :: "nat \<Rightarrow> 'g rest \<Rightarrow> bool" where
  "htodE i s \<longleftrightarrow> r_err_code (rs_tasks s ! i) \<noteq> 0"

lemma htodG_length: "htodG d mem live device tasks s \<Longrightarrow> length (rs_tasks s) = length tasks"
  unfolding htodG_def by (metis length_map)

lemma htod_job_ok:
  assumes G: "htodG d mem live device tasks s" and i: "i < length tasks" and run: "htod_job d w i s = (rc, s')"
  shows "htodG d mem live device tasks s'" and "if rc = 0 then htodD mem device tasks 1 i s' else htodE i s'"
    and "j < length tasks \<Longrightarrow> j \<noteq> i \<Longrightarrow> htodD mem device tasks m j s \<Longrightarrow> htodD mem device tasks m j s'"
    and "j < length tasks \<Longrightarrow> j \<noteq> i \<Longrightarrow> htodE j s \<Longrightarrow> htodE j s'"
proof -
  let ?t = "rs_tasks s ! i" and ?e = "r_entry (tasks ! i)"
  have d: "driver_ok d mem live" and ap: "entries_apart (map r_entry tasks)"
    and keys: "map task_key (rs_tasks s) = map task_key tasks" and rdy: "\<forall>t \<in> set tasks. task_ready device t s"
    using G by (simp_all add: htodG_def)
  have len: "length (rs_tasks s) = length tasks" using map_eq_imp_length_eq [OF keys] .
  have key: "task_key ?t = task_key (tasks ! i)" using keys i len by (metis nth_map)
  have t: "r_entry ?t = ?e" "r_ptr ?t = r_ptr (tasks ! i)" "r_host ?t = r_host (tasks ! i)"
    using key by (simp_all add: task_key_def)
  have ti: "task_ready device (tasks ! i) s" using rdy i by simp
  then have ptr: "r_ptr (tasks ! i) = ce_ptr ?e" and buf: "host_get (r_host (tasks ! i)) (ce_size ?e) s = entry_bytes device ?e"
    and fit: "unat (ce_offset ?e) + unat (ce_size ?e) \<le> length device"
    by (simp_all add: task_ready_def Let_def entry_bytes_def)
  have size: "length (entry_bytes device ?e) = unat (ce_size ?e)" using fit by (simp add: entry_bytes_def)
  obtain r g where copy: "d_HtoD d (ce_ptr ?e) (entry_bytes device ?e) (sm_gpu s) = (r, g)" by force
  obtain b where b: "length b = unat (ce_size ?e)" "mem g = mem_put (ce_ptr ?e) b (mem (sm_gpu s))"
    "r = CUDA_SUCCESS \<Longrightarrow> b = entry_bytes device ?e"
    using driver_okD(4) [OF d copy] size by auto
  define ts where "ts = (if r = CUDA_SUCCESS then rs_tasks s else (rs_tasks s)[i := ?t\<lparr>r_err_code := - 10, r_err := r\<rparr>])"
  have job: "htod_job d w i s = (if r = CUDA_SUCCESS then (0, s\<lparr>sm_gpu := g\<rparr>)
      else (- 10, s\<lparr>sm_gpu := g, rs_tasks := (rs_tasks s)[i := ?t\<lparr>r_err_code := - 10, r_err := r\<rparr>]\<rparr>))"
    by (simp add: htod_job_def Let_def t ptr buf copy)
  have rc: "rc = (if r = CUDA_SUCCESS then 0 else - 10)" using run unfolding job by (simp split: if_splits)
  have s': "s' = s\<lparr>sm_gpu := g, rs_tasks := ts\<rparr>"
    using run unfolding job by (cases s) (auto simp: ts_def split: if_splits)
  have keys': "map task_key ts = map task_key tasks"
  proof (cases "r = CUDA_SUCCESS")
    case False
    have "map task_key ts = (map task_key (rs_tasks s))[i := task_key ?t]"
      using False by (simp add: ts_def map_update task_key_def)
    then show ?thesis using keys key i by (metis list_update_id nth_map)
  qed (use keys in \<open>simp add: ts_def\<close>)
  have "task_ready device u s'" if "u \<in> set tasks" for u
    using rdy that by (simp add: s' task_ready_def Let_def lent_def host_get_def)
  then show "htodG d mem live device tasks s'" using d ap keys' by (simp add: htodG_def s')
  show "if rc = 0 then htodD mem device tasks 1 i s' else htodE i s'"
    using b size region_put_same [of b "ce_size ?e" "ce_ptr ?e" "mem (sm_gpu s)"] i len
    by (simp add: rc htodD_def htodE_def s' ts_def Let_def)
  show "htodE j s \<Longrightarrow> htodE j s'" if "j \<noteq> i"
    using that by (simp add: htodE_def s' ts_def)
  show "htodD mem device tasks m j s \<Longrightarrow> htodD mem device tasks m j s'" if j: "j < length tasks" "j \<noteq> i"
  proof -
    have "map r_entry tasks ! j \<noteq> map r_entry tasks ! i"
      using ap j i unfolding entries_apart_def by (metis length_map nth_eq_iff_index_eq)
    then have "apart (ce_ptr (r_entry (tasks ! j))) (ce_size (r_entry (tasks ! j))) (ce_ptr ?e) (ce_size ?e)"
      using ap j i unfolding entries_apart_def by simp
    then show "htodD mem device tasks m j s \<Longrightarrow> htodD mem device tasks m j s'"
      using b(1) by (simp add: htodD_def s' Let_def b(2) region_put_apart)
  qed
qed

interpretation htod: worker_pool "[htod_job d]" "length tasks" "htodG d mem live device tasks" "htodD mem device tasks" htodE
  for d mem live device tasks
proof
  show "[htod_job d] \<noteq> []" by simp
  fix k i w rc and s s' :: "'a rest"
  assume "k < length [htod_job d]" and k: "i < length tasks" "htodG d mem live device tasks s"
    and "([htod_job d] ! k) w i s = (rc, s')"
  then have k0: "k = 0" and run: "htod_job d w i s = (rc, s')" by simp_all
  note ok = htod_job_ok [OF k(2,1) run]
  show "htodG d mem live device tasks s' \<and> (if rc = 0 then htodD mem device tasks (Suc k) i s' else htodE i s')"
    using ok(1,2) k0 by (simp split: if_splits)
  show "(htodD mem device tasks m j s \<longrightarrow> htodD mem device tasks m j s') \<and> (htodE j s \<longrightarrow> htodE j s')"
    if "j < length tasks" "j \<noteq> i" for j m
    using ok(3,4) [OF that] by blast
qed

lemma release_all_gpu [simp]: "sm_gpu (release_all ps s) = sm_gpu s"
  unfolding release_all_def by (induction ps arbitrary: s) (simp_all add: pool_release_def)

lemma shim_of_gpu [simp]: "sm_gpu (shim_of s) = sm_gpu s"
  by (simp add: shim_of_def shim.truncate_def)

lemma find_restore_failure:
  "i < length ts \<Longrightarrow> r_err_code (ts ! i) \<noteq> 0 \<Longrightarrow> find (\<lambda>t. r_err_code t \<noteq> 0) ts \<noteq> None"
  by (auto simp: find_None_iff intro: nth_mem)

lemma htod_all_spec:
  assumes d: "driver_ok d mem live" and r: "ready live device tasks s" and ap: "entries_apart (map r_entry tasks)"
    and run: "htod_all d hw sched tasks s = (Ret (), s')"
  shows "\<forall>e \<in> set (map r_entry tasks). region (mem (sm_gpu s')) (ce_ptr e) (ce_size e) = entry_bytes device e"
proof -
  define s0 where "s0 = shim.extend s \<lparr>rs_tasks = tasks\<rparr>"
  define st where "st = run_pool [htod_job d] (length tasks) (workers_for hw (length tasks)) sched s0"
  have s0: "rs_tasks s0 = tasks" "sm_pool s0 = sm_pool s" "sm_host s0 = sm_host s"
    by (simp_all add: s0_def shim.extend_def)
  have "\<forall>t \<in> set tasks. task_ready device t s0"
    using r by (simp add: ready_def task_ready_def lent_def host_get_def s0 Let_def)
  then have G0: "htodG d mem live device tasks s0" using d ap by (simp add: htodG_def s0)
  have D0: "htodD mem device tasks 0 i s0" for i by (simp add: htodD_def)
  note res = htod.pool_result(2,3) [where s = s0 and sched = sched and d = d and mem = mem and live = live and
      device = device and tasks = tasks and workers = "workers_for hw (length tasks)", OF G0 D0 workers_for_pos, folded st_def]
  have len: "length (rs_tasks (wp_shared st)) = length tasks"
    using res htodG_length by blast
  have run1: "(case (if wp_fail st = 0 then None else find (\<lambda>t. r_err_code t \<noteq> 0) (rs_tasks (wp_shared st))) of
      Some t \<Rightarrow> failA d (r_err_code t) (r_err t) ''htod'' (shim_of (wp_shared st))
    | None \<Rightarrow> (Ret (), shim_of (release_all (map r_host (rs_tasks (wp_shared st))) (wp_shared st)))) = (Ret (), s')"
    using run unfolding htod_all_def st_def s0_def by (simp add: Let_def)
  have ok: "wp_fail st = 0"
  proof (rule ccontr)
    assume bad: "wp_fail st \<noteq> 0"
    from res(2) [OF bad] obtain i where "i < length tasks" "htodE i (wp_shared st)" by blast
    then have "find (\<lambda>t. r_err_code t \<noteq> 0) (rs_tasks (wp_shared st)) \<noteq> None"
      using len by (intro find_restore_failure [of i]) (simp_all add: htodE_def)
    then show False using run1 bad by (auto simp: failA_def errA_def)
  qed
  have "s' = shim_of (release_all (map r_host (rs_tasks (wp_shared st))) (wp_shared st))" using run1 ok by simp
  then have gpu: "sm_gpu s' = sm_gpu (wp_shared st)" by simp
  have "\<forall>i < length tasks. htodD mem device tasks 1 i (wp_shared st)" using res(1) [OF ok] by simp
  then show ?thesis by (auto simp: gpu htodD_def Let_def in_set_conv_nth)
qed

section \<open>The whole restore\<close>

lemma entries_apart_sort: "entries_apart (sort_key f es) \<longleftrightarrow> entries_apart es"
  by (simp add: entries_apart_def)

lemma restore_load_spec:
  assumes d: "driver_ok d mem live" "buffers_stay d live" "device_idle d mem"
    and pool: "pool_ok live s"
    and mf: "rd ''manifest.bin'' = Some mf" "restore_manifest mf = Inr es" and dev: "rd ''device.bin'' = Some device"
    and ap: "entries_apart es"
    and run: "ckpt_restore_load d hw sched rd s = (Ret (), s')"
  shows "\<forall>e \<in> set es. region (mem (sm_gpu s')) (ce_ptr e) (ce_size e) = entry_bytes device e"
proof -
  have r0: "ready live device [] s" using pool by (simp add: ready_def)
  from run obtain dv s1 s2 ctx s3 s4 s5 s6 tasks s7 s8 rc9 s9 where
    1: "restore_device rd s = (Ret dv, s1)" and 2: "sh_Init d s1 = (Ret CUDA_SUCCESS, s2)" and
    3: "ckpt_ctx_restore d rd s2 = (Ret (), s3)" and 4: "restore_ctx d dv s3 = (Ret ctx, s4)" and
    5: "ckpt_modules_restore d rd s4 = (Ret 0, s5)" and 6: "ckpt_streams_restore rd s5 = (Ret (), s6)" and
    7: "prepareTasks d dv ctx device es s6 = (Ret tasks, s7)" and 8: "htod_all d hw sched tasks s7 = (Ret (), s8)" and
    9: "on_gpu (d_CtxSynchronize d) s8 = (Ret rc9, s9)" and
    10: "(if rc9 \<noteq> CUDA_SUCCESS then failA d (- 11) rc9 ''sync'' else on_trk (\<lambda>tr. tr\<lparr>t_state := 3\<rparr>)) s9 = (Ret (), s')"
    by (auto simp: ckpt_restore_load_def mf dev failA_def errA_def elim!: bindA_RetE split: if_splits)
  have r6: "ready live device [] s6"
    using r0 1 2 3 4 5 6 ready_stages [OF d(1,2)] ready_calls(1) [OF d(2)] keepsD by metis
  have p: "ready live device tasks s7" "map r_entry tasks = es"
    using prepareTasks_ready [OF d(1,2) r6 7] by simp_all
  have mem8: "\<forall>e \<in> set es. region (mem (sm_gpu s8)) (ce_ptr e) (ce_size e) = entry_bytes device e"
    using htod_all_spec [OF d(1) p(1) _ 8] ap p(2) by simp
  have "mem (sm_gpu s9) = mem (sm_gpu s8)"
    using 9 d(3) unfolding on_gpu_def device_idle_def Let_def
    by (cases "d_CtxSynchronize d (sm_gpu s8)") (auto dest: spec [of _ "sm_gpu s8"])
  moreover have "sm_gpu s' = sm_gpu s9" using 10 by (auto simp: on_trk_def failA_def errA_def split: if_splits)
  ultimately show ?thesis using mem8 by simp
qed

section \<open>There and back\<close>

text \<open>Allocations at addresses of their own that share no byte.\<close>

definition allocs_apart :: "AllocRec list \<Rightarrow> bool" where
  "allocs_apart as \<longleftrightarrow> distinct (map a_base as) \<and>
     (\<forall>a \<in> set as. \<forall>b \<in> set as. a \<noteq> b \<longrightarrow> apart (a_base a) (a_size a) (a_base b) (a_size b))"

lemma ref_entries_keys: "map (\<lambda>e. (ce_ptr e, ce_size e)) (ref_entries M off as) = map (\<lambda>a. (a_base a, a_size a)) as"
  by (induction M off as rule: ref_entries.induct) simp_all

lemma ref_entries_apart:
  assumes "allocs_apart as"
  shows "entries_apart (ref_entries M off as)"
proof -
  let ?es = "ref_entries M off as"
  have ptrs: "map ce_ptr ?es = map a_base as"
    using arg_cong [OF ref_entries_keys [of M off as], of "map fst"] by (simp add: comp_def)
  then have d: "distinct (map ce_ptr ?es)" using assms by (simp add: allocs_apart_def)
  have of_alloc: "\<exists>a \<in> set as. a_base a = ce_ptr e \<and> a_size a = ce_size e" if "e \<in> set ?es" for e
  proof -
    have "(ce_ptr e, ce_size e) \<in> set (map (\<lambda>e. (ce_ptr e, ce_size e)) ?es)" using that by simp
    then show ?thesis unfolding ref_entries_keys by auto
  qed
  have "apart (ce_ptr e) (ce_size e) (ce_ptr e') (ce_size e')" if e: "e \<in> set ?es" "e' \<in> set ?es" "e \<noteq> e'" for e e'
  proof -
    obtain a b where ab: "a \<in> set as" "a_base a = ce_ptr e" "a_size a = ce_size e"
      "b \<in> set as" "a_base b = ce_ptr e'" "a_size b = ce_size e'"
      using of_alloc [OF e(1)] of_alloc [OF e(2)] by blast
    have "ce_ptr e \<noteq> ce_ptr e'" using d e by (auto simp: distinct_map inj_on_def)
    then have "a \<noteq> b" using ab by auto
    then have "apart (a_base a) (a_size a) (a_base b) (a_size b)" using assms ab unfolding allocs_apart_def by blast
    then show ?thesis by (simp only: ab)
  qed
  then show ?thesis using d by (simp add: entries_apart_def distinct_map)
qed

lemma ref_entries_bytes:
  assumes "length pre = unat off" and "unat off + alloc_bytes as < 2 ^ 64" and "e \<in> set (ref_entries M off as)"
  shows "entry_bytes (pre @ ref_device M as) e = region M (ce_ptr e) (ce_size e)"
  using assms
proof (induction as arbitrary: off pre)
  case (Cons a as)
  show ?case
  proof (cases "e = hd (ref_entries M off (a # as))")
    case True
    then show ?thesis using Cons.prems(1) by (simp add: entry_bytes_def ref_device_def chunk_def)
  next
    case False
    then have e: "e \<in> set (ref_entries M (off + a_size a) as)" using Cons.prems(3) by auto
    have off: "unat (off + a_size a) = unat off + unat (a_size a)"
      using Cons.prems(2) by (intro unat_add_le [where n = "unat (a_size a)"]) simp_all
    have "entry_bytes ((pre @ region M (a_base a) (a_size a)) @ ref_device M as) e = region M (ce_ptr e) (ce_size e)"
      using Cons.prems off by (intro Cons.IH [OF _ _ e]) simp_all
    then show ?thesis by (simp add: ref_device_def)
  qed
qed simp

text \<open>The files of a snapshot as a restore reads them.\<close>

definition image_dir :: "snapfile list \<Rightarrow> string \<Rightarrow> bytes option" where
  "image_dir files = map_of (map (\<lambda>(name, b, rc). (name, b)) files)"

lemma snapshot_restored:
  assumes drv: "driver_ok d mem live" and q: "ckpt_quiesce_gpu d s = (Ret 0, s1)" and pool: "pool_ok live s1"
    and allocs: "allocs_snapshot (sm_trk s1) = as"
    and bytes: "alloc_bytes as < 2 ^ 64" and len: "length as < 2 ^ 32" and ap: "allocs_apart as"
    and saved: "snapshot_files d hw sched pad s = (Ret files, s')"
    and drv': "driver_ok e mem' live'" "buffers_stay e live'" "device_idle e mem'" and pool': "pool_ok live' t"
    and rd: "rd ''manifest.bin'' = image_dir files ''manifest.bin''" "rd ''device.bin'' = image_dir files ''device.bin''"
    and load: "ckpt_restore_load e hw' sched' rd t = (Ret (), t')"
  shows "\<forall>a \<in> set as. region (mem' (sm_gpu t')) (a_base a) (a_size a) = region (mem (sm_gpu s1)) (a_base a) (a_size a)"
proof -
  let ?M = "mem (sm_gpu s1)"
  let ?es = "ref_entries ?M 0 as"
  obtain rest where files: "files = [(''device.bin'', ref_device ?M as, - 2),
     (''manifest.bin'', snapManifest pad ?es (alloc_sum as), - 3)] @ rest"
    using snapshot_files_spec [OF drv q pool _ saved] bytes allocs by auto
  have mf: "image_dir files ''manifest.bin'' = Some (snapManifest pad ?es (alloc_sum as))"
    and dev: "image_dir files ''device.bin'' = Some (ref_device ?M as)"
    by (simp_all add: image_dir_def files)
  note mf = mf [folded rd] and dev = dev [folded rd]
  obtain es where rm: "restore_manifest (snapManifest pad ?es (alloc_sum as)) = Inr es" and es: "es = ?es \<or> es = sort_key ce_pad ?es"
    using restore_manifest_own [of ?es pad "alloc_sum as"] len by auto
  have "entries_apart es" using es ref_entries_apart [OF ap, of ?M 0] by (auto simp: entries_apart_sort)
  from restore_load_spec [OF drv' pool' mf rm dev this load] es
  have restored: "\<forall>c \<in> set ?es. region (mem' (sm_gpu t')) (ce_ptr c) (ce_size c) = entry_bytes (ref_device ?M as) c"
    by auto
  show ?thesis
  proof
    fix a assume "a \<in> set as"
    then have "(a_base a, a_size a) \<in> set (map (\<lambda>e. (ce_ptr e, ce_size e)) ?es)" unfolding ref_entries_keys by simp
    then obtain c where c: "c \<in> set ?es" "ce_ptr c = a_base a" "ce_size c = a_size a" by auto
    have "region (mem' (sm_gpu t')) (ce_ptr c) (ce_size c) = region ?M (ce_ptr c) (ce_size c)"
      using restored c(1) ref_entries_bytes [of "[]" 0 as c ?M] bytes by simp
    then show "region (mem' (sm_gpu t')) (a_base a) (a_size a) = region ?M (a_base a) (a_size a)"
      by (simp only: c(2,3))
  qed
qed

end
