(* ===== verification/Shim_Service.thy ===== *)
theory Shim_Service
  imports Shim_Restore_Laws Rpc
begin

text \<open>
  What the request handler of \<open>shim/ipc.c\<close> gets from the rest of the shim: the record
  \<open>cuda\<close> for a process in a given state, with a driver and a schedule of its threads.
\<close>

section \<open>The link\<close>

text \<open>The counters as \<open>write_stats\<close> cuts them; the state it sends is that of the handler.\<close>

definition shim_stats :: "Tracker \<Rightarrow> Stats" where
  "shim_stats tr = (let st = stats_snapshot tr in
     \<lparr>st_AllocCount = ucast (ts_alloc_count st), st_TotalBytes = ts_total_bytes st,
      st_StreamCount = ucast (ts_stream_count st), st_ModuleCount = ucast (ts_module_count st),
      st_SymbolCount = ucast (ts_symbol_count st), st_EventCount = ucast (ts_event_count st),
      st_CtxCount = ucast (ts_ctx_count st), st_UnsupportedCode = ts_unsupported_code st, st_State = ts_state st\<rparr>)"

definition shim_cuda :: "'g driver \<Rightarrow> u32 \<Rightarrow> nat list \<Rightarrow> u32 \<Rightarrow> 'g shim \<Rightarrow> cuda" where
  "shim_cuda d hw sched pad s =
     \<lparr>cu_quiesce = (fst (ckpt_quiesce_gpu d s) = Ret 0),
      cu_snapshot = (case fst (snapshot_files d hw sched pad s) of
         Ret fs \<Rightarrow> Inr fs | Err e \<Rightarrow> Inl (Error e) | _ \<Rightarrow> Inl []),
      cu_restore = (\<lambda>rd. case fst (ckpt_restore_load d hw sched rd s) of
         Ret _ \<Rightarrow> None | Err e \<Rightarrow> Some (Error e) | _ \<Rightarrow> Some []),
      cu_stats = shim_stats (sm_trk s)\<rparr>"

section \<open>Quiescing\<close>

text \<open>It changes nothing a snapshot looks at but the count of callbacks.\<close>

definition quiet :: "('g \<Rightarrow> u64 set) \<Rightarrow> 'g shim \<Rightarrow> 'g shim \<Rightarrow> bool" where
  "quiet live s0 s \<longleftrightarrow> sm_pool s = sm_pool s0 \<and> sm_host s = sm_host s0 \<and> live (sm_gpu s0) \<subseteq> live (sm_gpu s) \<and>
     (\<exists>n. sm_trk s = (sm_trk s0)\<lparr>t_host_callbacks := n\<rparr>)"

lemma quiet_refl: "quiet live s s"
  by (auto simp: quiet_def intro: exI [of _ "t_host_callbacks (sm_trk s)"])

lemma quiet_on_gpu: "grows live f \<Longrightarrow> keeps (quiet live s0) (on_gpu f)"
  unfolding keeps_def on_gpu_def Let_def
proof (intro allI impI)
  fix s :: "'a shim" assume f: "grows live f" and q: "quiet live s0 s"
  obtain a g where run: "f (sm_gpu s) = (a, g)" by force
  show "quiet live s0 (snd (case f (sm_gpu s) of (a, g) \<Rightarrow> (Ret a, s\<lparr>sm_gpu := g\<rparr>)))"
    using q growsD [OF f run] by (auto simp: run quiet_def)
qed

lemma quiet_syncAll:
  assumes "\<And>h. grows live (f h)"
  shows "keeps (quiet live s0) (syncAll f hs)"
  by (induction hs) (auto intro!: keeps_bindA keeps_pure quiet_on_gpu assms)

lemma callbacks_count: "\<exists>n. (interposed HostWrapDone ^^ k) tr = tr\<lparr>t_host_callbacks := n\<rparr>"
proof (induction k)
  case 0
  show ?case by (rule exI [of _ "t_host_callbacks tr"]) simp
next
  case (Suc k)
  then show ?case by (auto simp: host_callback_leave_def)
qed

lemma quiet_callbacks: "keeps (quiet live s0) (callbacks_end d)"
proof (rule keepsI)
  fix s assume "quiet live s0 s"
  moreover obtain n where "(interposed HostWrapDone ^^ d_CallbacksDone d (sm_gpu s)) (sm_trk s) = (sm_trk s)\<lparr>t_host_callbacks := n\<rparr>"
    using callbacks_count by blast
  ultimately show "quiet live s0 (snd (callbacks_end d s))" by (auto simp: callbacks_end_def quiet_def)
qed

lemma quiet_spin:
  assumes "grows live (d_CtxSynchronize d)"
  shows "keeps (quiet live s0) (spinLoop d n)"
proof (induction n)
  case 0
  show ?case by (simp add: keeps_def spinLoop.simps)
next
  case (Suc n)
  have "keeps (quiet live s0) (bindA (on_gpu (d_CtxSynchronize d)) (\<lambda>r.
        if r \<noteq> CUDA_SUCCESS then retA (- 23) else bindA (callbacks_end d) (\<lambda>_. spinLoop d n)))"
    using Suc by (auto intro!: keeps_bindA keeps_pure quiet_on_gpu [OF assms] quiet_callbacks)
  then show ?case by (simp add: keeps_def spinLoop.simps [of d "Suc n", unfolded diff_Suc_1])
qed

lemma quiesce_quiet:
  assumes "buffers_stay d live" and "ckpt_quiesce_gpu d s = (r, s1)"
  shows "quiet live s s1"
proof -
  note g = buffers_stayD(15-17) [OF assms(1)]
  have "keeps (quiet live s) (ckpt_quiesce_gpu d)"
    unfolding ckpt_quiesce_gpu_def trkA_def
    by (auto intro!: keeps_bindA keeps_pure quiet_on_gpu quiet_syncAll quiet_spin g)
  from keepsD [OF this quiet_refl assms(2)] show ?thesis .
qed

lemma quiesce_frame:
  assumes "buffers_stay d live" and "ckpt_quiesce_gpu d s = (r, s1)"
  shows "allocs_snapshot (sm_trk s1) = allocs_snapshot (sm_trk s)" and "pool_ok live s \<Longrightarrow> pool_ok live s1"
  using quiesce_quiet [OF assms] by (auto simp: quiet_def allocs_snapshot_def pool_ok_def)

section \<open>What a snapshot hands over\<close>

text \<open>The files of a snapshot of a process with allocations: a manifest of the shim's layout is among them.\<close>

definition saves_allocs :: "cuda \<Rightarrow> bool" where
  "saves_allocs cu \<longleftrightarrow> (\<forall>fs. cu_snapshot cu = Inr fs \<longrightarrow> (\<exists>dev pad es tot rest.
     fs = [(''device.bin'', dev, - 2), (''manifest.bin'', snapManifest pad es tot, - 3)] @ rest \<and>
     es \<noteq> [] \<and> length es < 2 ^ 32 \<and> map fst rest = [''dev.bin'', ''ctx.bin'', ''streams.bin'', ''modules.bin'']))"

lemma snapshot_files_quiesced:
  assumes "snapshot_files d hw sched pad s = (Ret files, s')"
  obtains s1 where "ckpt_quiesce_gpu d s = (Ret 0, s1)"
  using assms unfolding snapshot_files_def trkA_def
  by (auto simp: bindA_readA failA_def errA_def elim!: bindA_RetE split: if_splits)

lemma shim_cuda_saves:
  assumes d: "driver_ok d mem live" "buffers_stay d live" and pool: "pool_ok live s"
    and allocs: "allocs_snapshot (sm_trk s) \<noteq> []" "length (allocs_snapshot (sm_trk s)) < 2 ^ 32"
      "alloc_bytes (allocs_snapshot (sm_trk s)) < 2 ^ 64"
  shows "saves_allocs (shim_cuda d hw sched pad s)"
  unfolding saves_allocs_def
proof (intro allI impI)
  fix fs assume "cu_snapshot (shim_cuda d hw sched pad s) = Inr fs"
  then have "fst (snapshot_files d hw sched pad s) = Ret fs" by (simp add: shim_cuda_def split: outcome.splits)
  then obtain s' where run: "snapshot_files d hw sched pad s = (Ret fs, s')" by (metis prod.collapse)
  then obtain s1 where q: "ckpt_quiesce_gpu d s = (Ret 0, s1)" by (rule snapshot_files_quiesced)
  note fr = quiesce_frame [OF d(2) q]
  obtain rest where "fs = [(''device.bin'', ref_device (mem (sm_gpu s1)) (allocs_snapshot (sm_trk s1)), - 2),
     (''manifest.bin'', snapManifest pad (ref_entries (mem (sm_gpu s1)) 0 (allocs_snapshot (sm_trk s1)))
        (alloc_sum (allocs_snapshot (sm_trk s1))), - 3)] @ rest"
    "map fst rest = [''dev.bin'', ''ctx.bin'', ''streams.bin'', ''modules.bin'']"
    using snapshot_files_spec [OF d(1) q fr(2) [OF pool] _ run] allocs fr(1) by auto
  moreover have "ref_entries (mem (sm_gpu s1)) 0 (allocs_snapshot (sm_trk s1)) \<noteq> []"
    using allocs(1) fr(1) by (metis length_0_conv length_ref_entries)
  ultimately show "\<exists>dev pad es tot rest.
     fs = [(''device.bin'', dev, - 2), (''manifest.bin'', snapManifest pad es tot, - 3)] @ rest \<and>
     es \<noteq> [] \<and> length es < 2 ^ 32 \<and> map fst rest = [''dev.bin'', ''ctx.bin'', ''streams.bin'', ''modules.bin'']"
    using allocs(2) fr(1) by (metis length_ref_entries)
qed

end
