(* ===== verification/Shim_Success.thy ===== *)
theory Shim_Success
  imports Shim_Service
begin

text \<open>
  When a snapshot succeeds: with a driver that copies, lets the threads change contexts and
  has a pinned buffer for every block, the pool of threads ends without a failure under
  every schedule, so the files are written.
\<close>

section \<open>A driver that has room\<close>

definition calls_work :: "'g driver \<Rightarrow> bool" where
  "calls_work d \<longleftrightarrow> (\<forall>w g. fst (d_CtxGetCurrent d w g) = CUDA_SUCCESS) \<and>
     (\<forall>w c g. fst (d_CtxSetCurrent d w c g) = CUDA_SUCCESS) \<and> (\<forall>p n g. fst (fst (d_DtoH d p n g)) = CUDA_SUCCESS)"

text \<open>Fewer than \<open>L\<close> buffers in use: there is another one.\<close>

definition has_room :: "'g driver \<Rightarrow> ('g \<Rightarrow> u64 set) \<Rightarrow> nat \<Rightarrow> bool" where
  "has_room d live L \<longleftrightarrow> (\<forall>n g. card (live g) < L \<longrightarrow> fst (fst (d_HostAlloc d n g)) = CUDA_SUCCESS)"

lemma take_block_nonnull:
  "take_block n bs = Some (p, bs') \<Longrightarrow> \<forall>b \<in> set bs. b_ptr b \<noteq> 0 \<Longrightarrow> p \<noteq> 0"
  using take_block_Some [of n bs p bs'] by auto

lemma pool_acquire_works:
  assumes "driver_ok d mem live" and "has_room d live L" and "pool_ok live s" and "n \<noteq> 0" and "card (live (sm_gpu s)) < L"
    and run: "pool_acquire d n s = (p, s')"
  shows "p \<noteq> 0" and "card (live (sm_gpu s')) \<le> Suc (card (live (sm_gpu s)))"
proof -
  have "p \<noteq> 0 \<and> card (live (sm_gpu s')) \<le> Suc (card (live (sm_gpu s)))"
  proof (cases "take_block n (sm_pool s)")
    case None
    obtain r q g where new: "d_HostAlloc d n (sm_gpu s) = ((r, q), g)" by (metis prod.collapse)
    then have "r = CUDA_SUCCESS" using assms(2,5) unfolding has_room_def by (metis fst_conv)
    then show ?thesis
      using driver_okD(1) [OF assms(1) new] assms(4) None new run by (auto simp: pool_acquire_def Let_def card_insert_if)
  next
    case (Some pb)
    obtain q bs where pb: "pb = (q, bs)" by (cases pb)
    have "q \<noteq> 0" using take_block_nonnull [OF Some [unfolded pb]] assms(3) by (simp add: pool_ok_def)
    then show ?thesis using assms(4) Some pb run by (auto simp: pool_acquire_def)
  qed
  then show "p \<noteq> 0" and "card (live (sm_gpu s')) \<le> Suc (card (live (sm_gpu s)))" by simp_all
qed

lemma set_current_works: "calls_work d \<Longrightarrow> fst (set_current d w c s) = CUDA_SUCCESS"
  unfolding calls_work_def set_current_def Let_def by (metis (mono_tags, lifting) case_prod_beta fst_conv)

section \<open>The threads\<close>

definition holders :: "nat \<Rightarrow> 'g snap \<Rightarrow> nat set" where
  "holders n s = {j. j < n \<and> k_host (sn_tasks s ! j) \<noteq> 0}"

definition workG :: "nat \<Rightarrow> 'g driver \<Rightarrow> ('g \<Rightarrow> dptr \<Rightarrow> byte) \<Rightarrow> ('g \<Rightarrow> u64 set) \<Rightarrow> CoalescedAlloc list \<Rightarrow> (dptr \<Rightarrow> byte)
    \<Rightarrow> 'g snap \<Rightarrow> bool" where
  "workG c d mem live blocks M s \<longleftrightarrow> snapG d mem live blocks M s \<and> calls_work d \<and> has_room d live (c + length blocks) \<and>
     (\<forall>b \<in> set blocks. co_size b \<noteq> 0) \<and> card (live (sm_gpu s)) \<le> c + card (holders (length blocks) s)"

text \<open>A stage that is not the first leaves the buffers as they are.\<close>

definition same_buffers :: "('g \<Rightarrow> u64 set) \<Rightarrow> nat \<Rightarrow> 'g snap \<Rightarrow> 'g snap \<Rightarrow> bool" where
  "same_buffers live n s s' \<longleftrightarrow> live (sm_gpu s') = live (sm_gpu s) \<and> holders n s' = holders n s"

lemma holders_task:
  "i < length (sn_tasks s) \<Longrightarrow> k_host (f (sn_tasks s ! i)) = k_host (sn_tasks s ! i) \<Longrightarrow> holders n (set_task i f s) = holders n s"
  unfolding holders_def set_task_def by (auto simp: nth_list_update)

lemma holders_tasks: "sn_tasks s' = sn_tasks s \<Longrightarrow> holders n s' = holders n s"
  by (simp add: holders_def)

lemma enter_works:
  assumes G: "workG c d mem live blocks M s" and i: "i < length blocks" and run: "snap_enter d blocks w i s = (rc, s')"
  shows "rc = 0 \<and> same_buffers live n s s'"
proof -
  have ok: "driver_ok d mem live" and work: "calls_work d" and len: "i < length (sn_tasks s)"
    using G i snapG_length [of d mem live blocks M s] by (simp_all add: workG_def snapG_def)
  obtain prev where get: "d_CtxGetCurrent d w (sm_gpu s) = (CUDA_SUCCESS, prev)"
    using work unfolding calls_work_def by (metis prod.collapse)
  define s1 where "s1 = set_task i (\<lambda>t. t\<lparr>k_prev := prev\<rparr>) s"
  have s1: "same_buffers live n s s1" using len by (simp add: same_buffers_def s1_def holders_task)
  obtain s2 where set: "set_current d w (co_ctx (blocks ! i)) s1 = (CUDA_SUCCESS, s2)"
    using set_current_works [OF work] by (metis prod.collapse)
  note cur = set_current_ok [OF ok set]
  have "same_buffers live n s s2"
    using s1 cur(2) holders_tasks [OF snap_more [OF cur(5)]] by (simp add: same_buffers_def)
  then show ?thesis using run get set s1 by (auto simp: snap_enter_def Let_def simp flip: s1_def split: if_splits)
qed

lemma copy_works:
  assumes G: "workG c d mem live blocks M s" and run: "snap_copy d blocks w i s = (rc, s')"
  shows "rc = 0 \<and> same_buffers live n s s'"
proof -
  have ok: "driver_ok d mem live" and work: "calls_work d" using G by (simp_all add: workG_def snapG_def)
  let ?t = "sn_tasks s ! i"
  obtain b g where copy: "d_DtoH d (co_base (blocks ! i)) (co_size (blocks ! i)) (sm_gpu s) = ((CUDA_SUCCESS, b), g)"
    using work unfolding calls_work_def by (metis prod.collapse)
  define s2 where "s2 = host_put (k_host ?t) b (s\<lparr>sm_gpu := g\<rparr>)"
  have s2: "same_buffers live n s s2"
    using driver_okD(3) [OF ok copy] by (simp add: same_buffers_def s2_def holders_def)
  obtain r3 s3 where set: "set_current d w (k_prev ?t) s2 = (r3, s3)" by force
  note cur = set_current_ok [OF ok set]
  have "same_buffers live n s s3"
    using s2 cur(2) holders_tasks [OF snap_more [OF cur(5)]] by (simp add: same_buffers_def)
  then show ?thesis using run copy set s2 by (auto simp: snap_copy_def Let_def simp flip: s2_def split: if_splits)
qed

lemma acquire_works:
  assumes G: "workG c d mem live blocks M s" and i: "i < length blocks" and D: "snapD blocks M 0 i s"
    and run: "snap_acquire d blocks w i s = (rc, s')"
  shows "rc = 0 \<and> card (live (sm_gpu s')) \<le> c + card (holders (length blocks) s')"
proof -
  have ok: "driver_ok d mem live" "pool_ok live s" and room: "has_room d live (c + length blocks)"
    and size: "co_size (blocks ! i) \<noteq> 0" and cards: "card (live (sm_gpu s)) \<le> c + card (holders (length blocks) s)"
    and len: "i < length (sn_tasks s)"
    using G i snapG_length [of d mem live blocks M s] by (simp_all add: workG_def snapG_def)
  let ?H = "holders (length blocks)"
  have fin: "finite (?H t)" for t :: "'a snap" by (simp add: holders_def)
  have out: "i \<notin> ?H s" using D by (simp add: holders_def snapD_def Let_def)
  have "?H s \<subseteq> {..<length blocks} - {i}" using out by (auto simp: holders_def)
  then have "card (?H s) < length blocks" using i card_mono [of "{..<length blocks} - {i}" "?H s"] by simp
  then have few: "card (live (sm_gpu s)) < c + length blocks" using cards by simp
  obtain host s1 where acq: "pool_acquire d (co_size (blocks ! i)) s = (host, s1)" by force
  note a = pool_acquire_works [OF ok(1) room ok(2) size few acq]
  have ts: "sn_tasks s1 = sn_tasks s" by (rule snap_more [OF pool_acquire_ok(5) [OF ok acq]])
  define s2 where "s2 = set_task i (\<lambda>t. t\<lparr>k_block := blocks ! i, k_host := host\<rparr>) s1"
  have "?H s2 = insert i (?H s)" using a(1) i len ts by (auto simp: holders_def s2_def set_task_def nth_list_update)
  then have "card (?H s2) = Suc (card (?H s))" using out fin by simp
  moreover have "rc = 0" "s' = s2" using run acq a(1) by (simp_all add: snap_acquire_def s2_def Let_def)
  ultimately show ?thesis using a(2) cards by (simp add: s2_def)
qed

lemma work_stage:
  assumes k: "k < length (snap_jobs d blocks)" "i < length blocks" and G: "workG c d mem live blocks M s"
    and D: "snapD blocks M k i s" and run: "(snap_jobs d blocks ! k) w i s = (rc, s')"
  shows "rc = 0 \<and> card (live (sm_gpu s')) \<le> c + card (holders (length blocks) s')"
proof -
  have cards: "card (live (sm_gpu s)) \<le> c + card (holders (length blocks) s)" and len: "i < length (sn_tasks s)"
    using G k(2) snapG_length [of d mem live blocks M s] by (simp_all add: workG_def)
  from k(1) have "k = 0 \<or> k = 1 \<or> k = 2 \<or> k = 3" by (simp add: snap_jobs_def) linarith
  then consider "k = 0" | "k = 1" | "k = 2" | "k = 3" by blast
  then show ?thesis
  proof cases
    case 1
    then show ?thesis using acquire_works [OF G k(2)] D run by (simp add: snap_jobs_def)
  next
    case 2
    then show ?thesis
      using enter_works [OF G k(2), of w rc s' "length blocks"] run cards by (simp add: snap_jobs_def same_buffers_def)
  next
    case 3
    then show ?thesis
      using copy_works [OF G, of w i rc s' "length blocks"] run cards by (simp add: snap_jobs_def same_buffers_def numeral_2_eq_2)
  next
    case 4
    then show ?thesis using run cards len by (auto simp: snap_jobs_def snap_crc_def numeral_3_eq_3 holders_task)
  qed
qed

interpretation work: worker_pool "snap_jobs d blocks" "length blocks" "workG c d mem live blocks M" "snapD blocks M" "\<lambda>i s. False"
  for c d mem live blocks M
proof
  show "snap_jobs d blocks \<noteq> []" by (simp add: snap_jobs_def)
  fix k i w rc and s s' :: "'a snap"
  assume k: "k < length (snap_jobs d blocks)" "i < length blocks" and G: "workG c d mem live blocks M s"
    and D: "snapD blocks M k i s" and run: "(snap_jobs d blocks ! k) w i s = (rc, s')"
  have rc: "rc = 0 \<and> card (live (sm_gpu s')) \<le> c + card (holders (length blocks) s')" by (rule work_stage [OF k G D run])
  have G1: "snapG d mem live blocks M s" using G by (simp add: workG_def)
  then show "workG c d mem live blocks M s' \<and> (if rc = 0 then snapD blocks M (Suc k) i s' else False)"
    using snap.stage [OF k G1 D run] G rc by (simp add: workG_def)
  fix j m assume "j < length blocks" "j \<noteq> i"
  then show "(snapD blocks M m j s \<longrightarrow> snapD blocks M m j s') \<and> (False \<longrightarrow> False)"
    using snap.frame [OF k G1 D run] by simp
qed

section \<open>The whole snapshot\<close>

lemma coLoop_sizes:
  "co_size cur \<noteq> 0 \<Longrightarrow> \<forall>a \<in> set as. a_size a \<noteq> 0 \<Longrightarrow> unat (co_size cur) + alloc_bytes as < 2 ^ 64 \<Longrightarrow>
    \<forall>b \<in> set (coLoop cur as). co_size b \<noteq> 0"
proof (induction cur as rule: coLoop.induct)
  case (2 cur a as)
  have "unat (co_size cur + a_size a) = unat (co_size cur) + unat (a_size a)"
    using 2(5) by (intro unat_add_le [where n = "unat (a_size a)"]) simp_all
  moreover from this have "co_size cur + a_size a \<noteq> 0" using 2(3) by (metis add_eq_0_iff_both_eq_0 unsigned_0 unsigned_eq_0_iff)
  ultimately show ?case using 2 by (auto simp: co_start_def)
qed simp

lemma coalesce_sizes:
  "\<forall>a \<in> set as. a_size a \<noteq> 0 \<Longrightarrow> alloc_bytes as < 2 ^ 64 \<Longrightarrow> \<forall>b \<in> set (coalesce_allocs as). co_size b \<noteq> 0"
  using coLoop_sizes [of "co_start (hd as)" "tl as"] by (cases as) (simp_all add: co_start_def)

lemma coalesce_length: "length (coalesce_allocs as) \<le> length as"
proof -
  have "length (coLoop cur as) \<le> Suc (length as)" for cur as
    by (induction cur as rule: coLoop.induct) auto
  then show ?thesis by (cases as) auto
qed

lemma snapshot_succeeds:
  assumes drv: "driver_ok d mem live" "calls_work d" and q: "ckpt_quiesce_gpu d s = (Ret 0, s1)" and pool: "pool_ok live s1"
    and room: "has_room d live (card (live (sm_gpu s1)) + length (coalesce_allocs (allocs_snapshot (sm_trk s1))))"
    and ok: "\<not> t_bad (sm_trk s)"
    and sizes: "\<forall>a \<in> set (allocs_snapshot (sm_trk s1)). a_size a \<noteq> 0" "alloc_bytes (allocs_snapshot (sm_trk s1)) < 2 ^ 64"
  shows "\<exists>files s'. snapshot_files d hw sched pad s = (Ret files, s')"
proof -
  define blocks where "blocks = coalesce_allocs (allocs_snapshot (sm_trk s1))"
  define st where "st = run_pool (snap_jobs d blocks) (length blocks) (workers_for hw (length blocks)) sched (snap_start blocks s1)"
  have "\<forall>b \<in> set blocks. co_size b \<noteq> 0" unfolding blocks_def by (rule coalesce_sizes [OF sizes])
  moreover have "sm_gpu (snap_start blocks s1) = sm_gpu s1" by (simp add: snap_start_def shim.extend_def)
  ultimately have G: "workG (card (live (sm_gpu s1))) d mem live blocks (mem (sm_gpu s1)) (snap_start blocks s1)"
    using snap_start_ok(1) [OF drv(1) pool refl] drv(2) room by (simp add: workG_def blocks_def)
  have D: "\<And>i. i < length blocks \<Longrightarrow> snapD blocks (mem (sm_gpu s1)) 0 i (snap_start blocks s1)"
    by (rule snap_start_ok(2) [OF drv(1) pool refl])
  have "wp_fail st = 0"
    using work.pool_result(3) [OF G D workers_for_pos] unfolding st_def by blast
  then show ?thesis
    using ok unfolding st_def blocks_def snapshot_files_def
    by (simp add: bindA_def trkA_def readA_def q Let_def)
qed

end
