(* ===== verification/Shim_Demo.thy ===== *)
theory Shim_Demo
  imports Shim_Success
begin

text \<open>
  A driver and two processes for the witnesses: the driver numbers its buffers and refuses
  nothing, one process has an allocation of two bytes, the other is a fresh one.
\<close>

record toy =
  ty_mem :: "dptr \<Rightarrow> byte"
  ty_bufs :: nat

definition toy_live :: "toy \<Rightarrow> u64 set" where
  "toy_live g = {p. p \<noteq> 0 \<and> unat p \<le> ty_bufs g}"

definition toy_alloc :: "u64 \<Rightarrow> toy \<Rightarrow> (CUresult \<times> u64) \<times> toy" where
  "toy_alloc n g =
     (if Suc (ty_bufs g) < 2 ^ 64 then ((CUDA_SUCCESS, word_of_nat (Suc (ty_bufs g))), g\<lparr>ty_bufs := Suc (ty_bufs g)\<rparr>)
      else ((CUDA_ERROR_OUT_OF_MEMORY, 0), g))"

definition toy_driver :: "toy driver" where
  "toy_driver = \<lparr>d_Init = (\<lambda>g. (0, g)), d_DeviceGetCount = (\<lambda>g. Some 1), d_CtxSynchronize = (\<lambda>g. (0, g)),
     d_StreamSynchronize = (\<lambda>s g. (0, g)), d_EventSynchronize = (\<lambda>e g. (0, g)), d_CallbacksDone = (\<lambda>g. 0),
     d_CtxGetCurrent = (\<lambda>w g. (0, 1)), d_CtxSetCurrent = (\<lambda>w c g. (0, g)),
     d_PrimaryCtxRetain = (\<lambda>dev g. ((0, 1), g)), d_HostAlloc = toy_alloc, d_FreeHost = (\<lambda>p g. g),
     d_DtoH = (\<lambda>p n g. ((0, region (ty_mem g) p n), g)), d_HtoD = (\<lambda>p b g. (0, g\<lparr>ty_mem := mem_put p b (ty_mem g)\<rparr>)),
     d_MemAlloc = (\<lambda>n g. ((0, 0x1000), g)), d_MemFree = (\<lambda>p g. g), d_Granularity = (\<lambda>dev g. (0, 1)),
     d_AddressReserve = (\<lambda>n al p g. ((0, p), g)), d_AddressFree = (\<lambda>p n g. g), d_Create = (\<lambda>n dev g. ((0, 1), g)),
     d_Release = (\<lambda>h g. g), d_Map = (\<lambda>p n h g. (0, g)), d_Unmap = (\<lambda>p n g. g), d_SetAccess = (\<lambda>p n dev g. (0, g)),
     d_ModuleLoad = (\<lambda>f g. ((0, 9), g)), d_ModuleLoadData = (\<lambda>b g. ((0, 9), g)),
     d_ModuleGetFunction = (\<lambda>m f g. ((0, 9), g)), d_StreamGetPriority = (\<lambda>s g. (0, 0)),
     d_StreamIsCapturing = (\<lambda>s g. (0, 0)), d_ErrorString = (\<lambda>r. None)\<rparr>"

definition toy_shim :: "toy shim" where
  "toy_shim = \<lparr>sm_trk = tracked [CuMemAlloc 0 0x1000 2 1], sm_pool = [], sm_host = (\<lambda>_. []),
     sm_gpu = \<lparr>ty_mem = (\<lambda>p. if p = 0x1000 then 5 else 7), ty_bufs = 0\<rparr>\<rparr>"

definition toy_fresh :: "toy shim" where
  "toy_fresh = \<lparr>sm_trk = Tracker0, sm_pool = [], sm_host = (\<lambda>_. []), sm_gpu = \<lparr>ty_mem = (\<lambda>_. 0), ty_bufs = 0\<rparr>\<rparr>"

definition toy_rec :: AllocRec where
  "toy_rec = \<lparr>a_base = 0x1000, a_size = 2, a_ctx = 1, a_flags = 0, a_seq = 1\<rparr>"

lemma toy_driver_ok: "driver_ok toy_driver ty_mem toy_live"
proof -
  have "buffers_fresh toy_driver ty_mem toy_live"
    unfolding buffers_fresh_def
  proof (intro allI impI)
    fix n g r p g' assume run: "d_HostAlloc toy_driver n g = ((r, p), g')"
    show "ty_mem g' = ty_mem g \<and> (if r = CUDA_SUCCESS then p \<noteq> 0 \<and> p \<notin> toy_live g \<and> toy_live g' = insert p (toy_live g)
        else toy_live g' = toy_live g)"
    proof (cases "Suc (ty_bufs g) < 2 ^ 64")
      case True
      then have r: "r = CUDA_SUCCESS" and p: "p = word_of_nat (Suc (ty_bufs g))" and g': "g' = g\<lparr>ty_bufs := Suc (ty_bufs g)\<rparr>"
        using run by (simp_all add: toy_driver_def toy_alloc_def)
      have up: "unat p = Suc (ty_bufs g)" using True by (simp add: p unat_of_nat del: of_nat_Suc)
      then have "p \<noteq> 0" by auto
      moreover have "toy_live g' = insert p (toy_live g)"
        using up by (auto simp: toy_live_def g' le_Suc_eq word_unat_eq_iff)
      ultimately show ?thesis using up r g' by (simp add: toy_live_def)
    next
      case False
      then show ?thesis using run by (auto simp: toy_driver_def toy_alloc_def CUDA_SUCCESS_def CUDA_ERROR_OUT_OF_MEMORY_def)
    qed
  qed
  moreover have "copies_in toy_driver ty_mem toy_live"
    by (auto simp: copies_in_def toy_driver_def toy_live_def)
  ultimately show ?thesis
    by (auto simp: driver_ok_def contexts_quiet_def copies_out_def toy_driver_def)
qed

lemma toy_stay: "buffers_stay toy_driver toy_live"
  by (simp add: buffers_stay_def grows_def toy_driver_def)

lemma toy_idle: "device_idle toy_driver ty_mem"
  by (simp add: device_idle_def toy_driver_def)

lemma toy_allocs: "allocs_snapshot (sm_trk toy_shim) = [toy_rec]"
  by code_simp

lemma toy_pools: "pool_ok toy_live toy_shim" "pool_ok toy_live toy_fresh"
  by (simp_all add: pool_ok_def toy_shim_def toy_fresh_def)

lemma toy_trk: "t_streams (sm_trk toy_shim) = []" "t_events (sm_trk toy_shim) = []" "t_host_callbacks (sm_trk toy_shim) = 0"
    "\<not> t_bad (sm_trk toy_shim)"
  by code_simp+

lemma toy_quiet: "ckpt_quiesce_gpu toy_driver toy_shim = (Ret 0, toy_shim)"
proof -
  have g: "on_gpu (d_CtxSynchronize toy_driver) toy_shim = (Ret CUDA_SUCCESS, toy_shim)"
    by (simp add: on_gpu_def toy_driver_def CUDA_SUCCESS_def)
  show ?thesis
    by (simp add: ckpt_quiesce_gpu_def bindA_step(1) [where m = "on_gpu (d_CtxSynchronize toy_driver)", OF g] trkA_def bindA_readA streams_snapshot_def events_snapshot_def
        toy_trk spinLoop.simps)
qed

lemma toy_works: "calls_work toy_driver"
  by (simp add: calls_work_def toy_driver_def CUDA_SUCCESS_def)

lemma toy_room: "L < 2 ^ 64 \<Longrightarrow> has_room toy_driver toy_live L"
  unfolding has_room_def
proof (intro allI impI)
  fix n g assume L: "L < (2 :: nat) ^ 64" and few: "card (toy_live g) < L"
  have "Suc (ty_bufs g) < 2 ^ 64"
  proof (rule ccontr)
    assume "\<not> Suc (ty_bufs g) < 2 ^ 64"
    moreover have "unat p < 2 ^ LENGTH(64)" for p :: u64 by (rule unsigned_less)
    then have "unat p < 2 ^ 64" for p :: u64 by simp
    ultimately have "unat p \<le> ty_bufs g" for p :: u64 by (meson less_Suc_eq_le less_le_trans not_less)
    then have "toy_live g = UNIV - {0}" by (auto simp: toy_live_def)
    then have "card (toy_live g) = 2 ^ 64 - 1" by (simp add: card_Diff_singleton card_word)
    then show False using few L by simp
  qed
  then show "fst (fst (d_HostAlloc toy_driver n g)) = CUDA_SUCCESS"
    by (simp add: toy_driver_def toy_alloc_def unat_gt_0)
qed

lemma toy_snapshot: "\<exists>files s'. snapshot_files toy_driver hw sched pad toy_shim = (Ret files, s')"
proof (rule snapshot_succeeds [OF toy_driver_ok toy_works toy_quiet])
  show "pool_ok toy_live toy_shim" by (rule toy_pools)
  have "toy_live (sm_gpu toy_shim) = {}" by (auto simp: toy_live_def toy_shim_def unat_eq_0)
  then show "has_room toy_driver toy_live (card (toy_live (sm_gpu toy_shim)) +
      length (coalesce_allocs (allocs_snapshot (sm_trk toy_shim))))"
    using coalesce_length [of "[toy_rec]"] by (intro toy_room) (simp add: toy_allocs)
qed (simp_all add: toy_trk toy_allocs toy_rec_def)

text \<open>The fresh process loads any image with one entry at the address the toy driver hands out.\<close>

definition toy_at :: "Tracker \<Rightarrow> toy shim" where
  "toy_at tr = toy_fresh\<lparr>sm_trk := tr\<rparr>"

lemma toy_Init: "sh_Init toy_driver (toy_at tr) = (Ret CUDA_SUCCESS, toy_at tr)"
  by (simp add: sh_Init_def toy_driver_def hook_def toy_at_def toy_fresh_def CUDA_SUCCESS_def)

lemma toy_ctx: "t_primary tr = 0 \<Longrightarrow> \<exists>tr'. restore_ctx toy_driver dev (toy_at tr) = (Ret 1, toy_at tr')"
  by (simp add: restore_ctx_def bindA_def trkA_def readA_def retA_def sh_PrimaryCtxRetain_def toy_driver_def hook_def toy_at_def
      toy_fresh_def CUDA_SUCCESS_def sh_CtxSetCurrent_def set_current_def on_trk_def Let_def)

definition toy_task :: "ChunkEntry \<Rightarrow> RestoreTask" where
  "toy_task e = \<lparr>r_entry = e, r_ptr = ce_ptr e, r_host = 1, r_err_code = 0, r_err = 0\<rparr>"

lemma toy_prepare:
  assumes "ce_ptr e = 0x1000" "ce_size e = 2" "ce_offset e = 0" and "length device = 2"
  shows "\<exists>s. prepareTasks toy_driver dev ctx device [e] (toy_at tr) = (Ret [toy_task e], s) \<and>
    sm_host s 1 = device \<and> sm_pool s = [\<lparr>b_ptr = 1, b_cap = 2, b_free = False\<rparr>]"
  using assms
  by (simp add: prepareTask_def place_entry_def sh_MemAlloc_def bindA_def retA_def on_trk_def fill_task_def pool_acquire_def
      toy_driver_def toy_alloc_def toy_at_def toy_fresh_def CUDA_SUCCESS_def hook_def Let_def host_put_def toy_task_def chunk_def
      current_ctx_def)

interpretation toy: worker_pool "[htod_job toy_driver]" n "\<lambda>s. True" "\<lambda>k i s. True" "\<lambda>i s. False" for n
  by unfold_locales (auto simp: htod_job_def toy_driver_def CUDA_SUCCESS_def Let_def)

lemma toy_htod: "\<exists>t. htod_all toy_driver hw sched tasks s = (Ret (), t)"
proof -
  have "wp_fail (run_pool [htod_job toy_driver] (length tasks) (workers_for hw (length tasks)) sched
      (shim.extend s \<lparr>rs_tasks = tasks\<rparr>)) = 0"
    using toy.pool_result(3) [OF _ _ workers_for_pos] by blast
  then show ?thesis by (simp add: htod_all_def Let_def)
qed

lemma toy_load:
  assumes mf: "rd ''manifest.bin'' = Some mf" "restore_manifest mf = Inr [e]" and dev: "rd ''device.bin'' = Some device"
    and e: "ce_ptr e = 0x1000" "ce_size e = 2" "ce_offset e = 0" and len: "length device = 2"
    and others: "rd ''dev.bin'' = None" "rd ''ctx.bin'' = None" "rd ''modules.bin'' = None" "rd ''streams.bin'' = None"
  shows "\<exists>t. ckpt_restore_load toy_driver 1 [] rd toy_fresh = (Ret (), t)"
proof -
  have 1: "restore_device rd toy_fresh = (Ret 0, toy_at Tracker0)"
    by (simp add: restore_device_def trkA_def bindA_readA others toy_at_def toy_fresh_def Tracker0_def)
  obtain tr where 2: "restore_ctx toy_driver 0 (toy_at Tracker0) = (Ret 1, toy_at tr)"
    using toy_ctx [of Tracker0 0] by (auto simp: Tracker0_def)
  obtain s where 3: "prepareTasks toy_driver 0 1 device [e] (toy_at tr) = (Ret [toy_task e], s)"
    using toy_prepare [OF e len] by blast
  obtain t where 4: "htod_all toy_driver 1 [] [toy_task e] s = (Ret (), t)" using toy_htod by blast
  have 5: "on_gpu (d_CtxSynchronize toy_driver) t = (Ret CUDA_SUCCESS, t)"
    by (simp add: on_gpu_def toy_driver_def CUDA_SUCCESS_def)
  show ?thesis
    by (simp add: ckpt_restore_load_def mf dev ckpt_ctx_restore_def ckpt_modules_restore_def ckpt_streams_restore_def others
        bindA_def 1 toy_Init 2 3 4 5 on_trk_def del: prepareTasks.simps)
qed

end
