(* ===== verification/Shim_Modules.thy ===== *)
theory Shim_Modules
  imports Shim_Restore_Laws
begin

text \<open>
  Modules across a checkpoint: what \<open>ckpt_modules_write\<close> writes,
  \<open>ckpt_modules_restore\<close> reads back field by field. A module that came from memory
  (\<open>cuModuleLoadData\<close>) is tracked without its image, is written as a path of no
  characters, and no restore gets past it.
\<close>

section \<open>Reading back\<close>

lemma is_word_put: "LENGTH('a::len) \<le> 8 * n \<Longrightarrow> is_word n (le_put n (w :: 'a word) @ r, True) = (w, (r, True))"
  by (simp add: is_word_def is_read_exact le_get_put_full)

lemma is_read_text: "is_read (length b) (b @ r, True) = (b, (r, True))"
  by (rule is_read_exact) simp

definition text_ok :: "bytes \<Rightarrow> bool" where
  "text_ok b \<longleftrightarrow> length b < 2 ^ 32"

lemma unat_length: "text_ok b \<Longrightarrow> unat (word_of_nat (length b) :: u32) = length b"
  by (simp add: text_ok_def unat_of_nat)

text \<open>A length and as many bytes.\<close>

lemma read_text:
  assumes "text_ok b"
  shows "is_word 4 (put_text b @ r, True) = (word_of_nat (length b) :: u32, (b @ r, True))"
    and "(if (word_of_nat (length b) :: u32) = 0 then ([], (b @ r, True)) else is_read (unat (word_of_nat (length b) :: u32)) (b @ r, True))
      = (b, (r, True))"
proof -
  show "is_word 4 (put_text b @ r, True) = (word_of_nat (length b) :: u32, (b @ r, True))"
    by (simp add: put_text_def is_word_put)
  have "(word_of_nat (length b) :: u32) = 0 \<Longrightarrow> b = []"
    using unat_length [OF assms] by (metis length_0_conv unsigned_0)
  then show "(if (word_of_nat (length b) :: u32) = 0 then ([], (b @ r, True)) else is_read (unat (word_of_nat (length b) :: u32)) (b @ r, True))
      = (b, (r, True))"
    using is_read_text [of b r] by (auto simp: unat_length [OF assms] simp del: unat_of_nat)
qed

lemma readSymbols_reads:
  "\<forall>y \<in> set ys. text_ok y \<Longrightarrow>
    \<exists>s'. readSymbols d m (length ys) (concat (map put_text ys) @ r, True) s = (Ret (r, True), s')"
proof (induction ys arbitrary: s)
  case (Cons y ys)
  let ?r = "concat (map put_text ys) @ r"
  have y: "text_ok y" using Cons.prems by simp
  obtain rc fn g where "d_ModuleGetFunction d m (c_string y) (sm_gpu s) = ((rc, fn), g)" by (metis prod.collapse)
  then obtain s1 where get: "sh_ModuleGetFunction d m (c_string y) s = (Ret (rc, fn), s1)"
    by (simp add: sh_ModuleGetFunction_def Let_def)
  obtain s2 where trk: "(if rc = CUDA_SUCCESS then on_trk (track_symbol fn m (c_string y)) else retA ()) s1 = (Ret (), s2)"
    by (cases "rc = CUDA_SUCCESS") (simp_all add: on_trk_def)
  obtain s' where "readSymbols d m (length ys) (?r, True) s2 = (Ret (r, True), s')" using Cons by auto
  then have "readSymbols d m (Suc (length ys)) (put_text y @ ?r, True) s = (Ret (r, True), s')"
    by (simp only: readSymbols.simps Let_def read_text(1) [OF y] read_text(2) [OF y] prod.case 
      bindA_step(1) [where m = "sh_ModuleGetFunction d m (c_string y)", OF get]
      bindA_step(1) [where m = "if rc = CUDA_SUCCESS then on_trk (track_symbol fn m (c_string y)) else retA ()", OF trk])
  then show ?case by auto
qed simp

definition module_ok :: "Tracker \<Rightarrow> ModuleRec \<Rightarrow> bool" where
  "module_ok tr m \<longleftrightarrow> text_ok (bytes_of (mo_path m)) \<and> text_ok (mo_image m) \<and>
     length (symbols_for_module (mo_mod m) tr) < 2 ^ 32 \<and> (\<forall>y \<in> set (symbols_for_module (mo_mod m) tr). text_ok (bytes_of (y_name y)))"


text \<open>One module: it cannot be loaded, or the rest of the file is read.\<close>

lemma put_text_bytes: "putModule tr m = le_put 8 (mo_ctx m) @ le_put 4 (if mo_image m = [] then 0 else 1 :: u32) @
    put_text (if mo_image m = [] then bytes_of (mo_path m) else mo_image m) @
    le_put 4 (word_of_nat (length (symbols_for_module (mo_mod m) tr)) :: u32) @
    concat (map put_text (map (\<lambda>y. bytes_of (y_name y)) (symbols_for_module (mo_mod m) tr)))"
  by (simp add: putModule_def Let_def comp_def)

lemma readModules_one:
  fixes d :: "'g driver" and s :: "'g shim"
  assumes ok: "module_ok tr m"
  shows "(\<exists>c s'. readModules d (Suc n) (putModule tr m @ r, True) s = (Ret c, s') \<and> c \<noteq> 0) \<or>
    (\<not> (mo_image m = [] \<and> mo_path m = [] \<and> (\<forall>g. fst (fst (d_ModuleLoad d [] g)) \<noteq> CUDA_SUCCESS)) \<and>
     (\<exists>s'. readModules d (Suc n) (putModule tr m @ r, True) s = readModules d n (r, True) s'))"
proof -
  define b where "b = (if mo_image m = [] then bytes_of (mo_path m) else mo_image m)"
  define ys where "ys = map (\<lambda>y. bytes_of (y_name y)) (symbols_for_module (mo_mod m) tr)"
  define kind where "kind = (if mo_image m = [] then 0 else 1 :: u32)"
  have b: "text_ok b" and ys: "\<forall>y \<in> set ys. text_ok y"
    using ok by (auto simp: module_ok_def b_def ys_def)
  have cnt: "unat (word_of_nat (length ys) :: u32) = length ys"
    using ok by (simp add: module_ok_def ys_def unat_of_nat)
  define load where "load = (if kind = 0 then sh_ModuleLoad d (c_string b) else sh_ModuleLoadData d b)"
  define reg :: "handle \<Rightarrow> ('g, unit) shact" where "reg = (\<lambda>h. if kind = 0 then on_trk (track_module h (mo_ctx m) (c_string b) [] 0)
    else on_trk (track_module h (mo_ctx m) [] b (length b)))"
  define fc :: int where "fc = (if kind = 0 then - 32 else - 33)"
  obtain s1 where cur: "(if mo_ctx m \<noteq> 0 then bindA (sh_CtxSetCurrent d 0 (mo_ctx m)) (\<lambda>_. retA ()) else retA ()) s = (Ret (), s1)"
    by (cases "set_current d 0 (mo_ctx m) s"; cases "mo_ctx m = 0") (simp_all add: sh_CtxSetCurrent_def bindA_def)
  have bytes: "putModule tr m @ r = le_put 8 (mo_ctx m) @ le_put 4 kind @ put_text b @ le_put 4 (word_of_nat (length ys) :: u32) @
      concat (map put_text ys) @ r"
    unfolding put_text_bytes by (simp add: b_def ys_def kind_def)
  have run: "readModules d (Suc n) (putModule tr m @ r, True) s =
      bindA load (\<lambda>(rc, h). if rc \<noteq> CUDA_SUCCESS then retA fc
        else bindA (reg h) (\<lambda>_. bindA (readSymbols d h (length ys) (concat (map put_text ys) @ r, True)) (readModules d n))) s1"
    unfolding bytes readModules.simps Let_def
    by (simp add: is_word_put read_text [OF b] cnt bindA_step(1) [where m = "if mo_ctx m \<noteq> 0 then bindA (sh_CtxSetCurrent d 0 (mo_ctx m)) (\<lambda>_. retA ()) else retA ()", OF cur]
        load_def reg_def fc_def cong: if_cong del: unat_of_nat)
  obtain rc h s2 where ld: "load s1 = (Ret (rc, h), s2)"
  proof (cases "kind = 0")
    case True
    obtain rc h g where "d_ModuleLoad d (c_string b) (sm_gpu s1) = ((rc, h), g)" by (metis prod.collapse)
    then show thesis using that True by (simp add: load_def sh_ModuleLoad_def Let_def)
  next
    case False
    obtain rc h g where "d_ModuleLoadData d b (sm_gpu s1) = ((rc, h), g)" by (metis prod.collapse)
    then show thesis using that False by (simp add: load_def sh_ModuleLoadData_def Let_def)
  qed
  show ?thesis
  proof (cases "rc = CUDA_SUCCESS")
    case False
    then have "readModules d (Suc n) (putModule tr m @ r, True) s = (Ret fc, s2)" 
      unfolding run by (simp add: bindA_step(1) [where m = load, OF ld])
    moreover have "fc \<noteq> 0" by (simp add: fc_def)
    ultimately show ?thesis by blast
  next
    case True
    obtain s3 where trk: "reg h s2 = (Ret (), s3)" by (cases "kind = 0") (simp_all add: reg_def on_trk_def)
    obtain s4 where "readSymbols d h (length ys) (concat (map put_text ys) @ r, True) s3 = (Ret (r, True), s4)"
      using readSymbols_reads [OF ys] by blast
    then have "readModules d (Suc n) (putModule tr m @ r, True) s = readModules d n (r, True) s4"
      unfolding run using True by (simp add: bindA_step(1) [where m = load, OF ld] bindA_step(1) [where m = "reg h", OF trk] bindA_step(1))
    moreover have "\<not> (mo_image m = [] \<and> mo_path m = [] \<and> (\<forall>g. fst (fst (d_ModuleLoad d [] g)) \<noteq> CUDA_SUCCESS))"
    proof
      assume bad: "mo_image m = [] \<and> mo_path m = [] \<and> (\<forall>g. fst (fst (d_ModuleLoad d [] g)) \<noteq> CUDA_SUCCESS)"
      then have "load = sh_ModuleLoad d []" by (simp add: load_def kind_def b_def c_string_def string_of_def)
      then show False using ld True bad by (auto simp: sh_ModuleLoad_def Let_def split: prod.splits) (metis fst_conv)
    qed
    ultimately show ?thesis by blast
  qed
qed


text \<open>A module without path or image, and a driver that loads no file of that name: the restore fails.\<close>

lemma readModules_fails:
  assumes "\<forall>m \<in> set ms. module_ok tr m" and "m \<in> set ms" and "mo_image m = []" "mo_path m = []"
    and "\<forall>g. fst (fst (d_ModuleLoad d [] g)) \<noteq> CUDA_SUCCESS"
  shows "\<exists>c s'. readModules d (length ms) (concat (map (putModule tr) ms) @ r, True) s = (Ret c, s') \<and> c \<noteq> 0"
  using assms(1,2)
proof (induction ms arbitrary: s)
  case (Cons k ms)
  let ?r = "concat (map (putModule tr) ms) @ r"
  have "module_ok tr k" using Cons.prems by simp
  from readModules_one [OF this, of d "length ms" ?r s]
  consider (stop) "\<exists>c s'. readModules d (Suc (length ms)) (putModule tr k @ ?r, True) s = (Ret c, s') \<and> c \<noteq> 0"
    | (go) s' where "\<not> (mo_image k = [] \<and> mo_path k = [] \<and> (\<forall>g. fst (fst (d_ModuleLoad d [] g)) \<noteq> CUDA_SUCCESS))"
      "readModules d (Suc (length ms)) (putModule tr k @ ?r, True) s = readModules d (length ms) (?r, True) s'"
    by blast
  then show ?case
  proof cases
    case stop
    then show ?thesis by simp
  next
    case go
    then have "m \<in> set ms" using Cons.prems(2) assms(3-5) by auto
    then show ?thesis using Cons.IH [of s'] Cons.prems(1) go(2) by simp
  qed
qed simp

lemma modules_restore_fails:
  assumes mods: "rd ''modules.bin'' = Some (ckpt_modules_write tr)" and len: "length (modules_snapshot tr) < 2 ^ 32"
    and ok: "\<forall>m \<in> set (modules_snapshot tr). module_ok tr m"
    and m: "m \<in> set (modules_snapshot tr)" "mo_image m = []" "mo_path m = []"
    and d: "\<forall>g. fst (fst (d_ModuleLoad d [] g)) \<noteq> CUDA_SUCCESS"
  shows "\<exists>c s'. ckpt_modules_restore d rd s = (Ret c, s') \<and> c \<noteq> 0"
proof -
  let ?ms = "modules_snapshot tr"
  let ?body = "concat (map (putModule tr) ?ms)"
  have bytes: "ckpt_modules_write tr = le_put 4 kModMagic @ le_put 2 (1 :: u16) @ le_put 2 (0 :: u16) @
      le_put 4 (word_of_nat (length ?ms) :: u32) @ ?body"
    by (simp add: ckpt_modules_write_def io_header_def Let_def)
  have skip: "is_skip 2 (le_put 2 (0 :: u16) @ x, True) = (x, True)" for x by (simp add: is_skip_def)
  have cnt: "unat (word_of_nat (length ?ms) :: u32) = length ?ms" using len by (simp add: unat_of_nat)
  obtain s1 where cur: "(if t_primary (sm_trk s) \<noteq> 0 then bindA (sh_CtxSetCurrent d 0 (t_primary (sm_trk s))) (\<lambda>_. retA ()) else retA ()) s = (Ret (), s1)"
    by (cases "set_current d 0 (t_primary (sm_trk s)) s"; cases "t_primary (sm_trk s) = 0") (simp_all add: sh_CtxSetCurrent_def bindA_def)
  have "ckpt_modules_restore d rd s = readModules d (length ?ms) (?body, True) s1"
    using is_word_put [of 4 "word_of_nat (length ?ms) :: u32" ?body]
    by (simp add: ckpt_modules_restore_def mods bytes is_word_put skip cnt trkA_def bindA_readA Let_def
        bindA_step(1) [where m = "if t_primary (sm_trk s) \<noteq> 0 then bindA (sh_CtxSetCurrent d 0 (t_primary (sm_trk s))) (\<lambda>_. retA ()) else retA ()", OF cur] del: unat_of_nat)
  moreover obtain c s' where "readModules d (length ?ms) (?body @ [], True) s1 = (Ret c, s')" "c \<noteq> 0"
    using readModules_fails [OF ok m d, of "[]" s1] by blast
  ultimately show ?thesis by simp
qed

text \<open>The tracker keeps nothing of a module loaded from memory.\<close>

lemma data_module_tracked:
  assumes "m \<noteq> 0"
  shows "\<exists>r \<in> set (modules_snapshot (interposed (CuModuleLoadData CUDA_SUCCESS m img cur) tr)). mo_mod r = m \<and> mo_image r = [] \<and> mo_path r = []"
proof -
  let ?tr = "interposed (CuModuleLoadData CUDA_SUCCESS m img cur) tr"
  have "map_of (t_modules ?tr) m = Some \<lparr>mo_mod = m, mo_ctx = cur, mo_path = [], mo_image = [], mo_seq = t_next_seq tr\<rparr>"
    using assms by (simp add: track_module_def update_conv)
  then have "(m, \<lparr>mo_mod = m, mo_ctx = cur, mo_path = [], mo_image = [], mo_seq = t_next_seq tr\<rparr>) \<in> set (t_modules ?tr)"
    by (rule map_of_SomeD)
  then have "\<lparr>mo_mod = m, mo_ctx = cur, mo_path = [], mo_image = [], mo_seq = t_next_seq tr\<rparr> \<in> set (map snd (t_modules ?tr))"
    by force
  then show ?thesis by (force simp: modules_snapshot_def)
qed

end
