(* ===== verification/Shim_Theorems.thy ===== *)
theory Shim_Theorems
  imports Shim_Demo Shim_Modules
begin

text \<open>
  The properties of the shim: what the tracker knows, what a snapshot saves under every
  schedule of its threads and when it succeeds, what a restore brings back, and who can read
  the manifest. The witnesses run the toy driver of theory \<open>Shim_Demo\<close>.
\<close>

section \<open>The tracker\<close>

definition demo_calls :: "cuda_call list" where
  "demo_calls = [CuMemAlloc CUDA_SUCCESS 0x1000 16 1, CuMemAlloc CUDA_SUCCESS 0x2000 32 1, CuMemFree 0x1000,
     CuMemAlloc CUDA_SUCCESS 0x3000 8 2]"

text \<open>C50: the tracker knows exactly the live allocations. After any sequence of intercepted driver
  calls (fewer than \<open>2^64 - 1\<close>), \<open>allocs_snapshot\<close>, put together from 64 maps under 64
  locks, is the list of the allocations made and not freed, oldest first, with their sizes
  and contexts; \<open>alloc_count\<close> and \<open>total_bytes\<close> are its length and sum.\<close>

theorem tracker_exact:
  assumes "length calls < 2 ^ 64 - 1"
  shows "map alloc_view (allocs_snapshot (tracked calls)) = live_allocs calls \<and>
    alloc_count (tracked calls) = word_of_nat (length (live_allocs calls)) \<and>
    total_bytes (tracked calls) = sum_list (map (\<lambda>(p, n, c). n) (live_allocs calls))"
proof -
  obtain As where As: "tracks (tracked calls) As" "map alloc_view As = live_allocs calls"
    using tracked_tracks [OF assms] by blast
  have snap: "allocs_snapshot (tracked calls) = As" by (rule allocs_snapshot_tracks [OF As(1)])
  moreover have "sum_list (map (\<lambda>(p, n, c). n) (map alloc_view As)) = sum_list (map a_size As)"
    by (simp add: alloc_view_def comp_def)
  moreover have "length (map alloc_view As) = length As" by simp
  ultimately show ?thesis using As(2) alloc_count_eq [of "tracked calls"] total_bytes_eq [of "tracked calls"] by metis
qed

theorem tracker_witness:
  "map alloc_view (allocs_snapshot (tracked demo_calls)) = [(0x2000, 32, 1), (0x3000, 8, 2)]"
  using tracker_exact [of demo_calls] by (simp add: demo_calls_def live_allocs_def)

text \<open>C51: merging loses and invents nothing. The allocations of the blocks of \<open>coalesce_allocs\<close>,
  one after the other, are the given ones in the given order; each block is allocations of one
  context that follow one another without a gap, and as large as they are together; no block
  could be merged with the next.\<close>

theorem coalesce_exact:
  "concat (map co_parts (coalesce_allocs as)) = as \<and> (\<forall>b \<in> set (coalesce_allocs as). block_ok b) \<and>
    successively (\<lambda>b b'. \<not> mergeable b b') (coalesce_allocs as)"
  by (rule coalesce_exact_blocks)

theorem coalesce_witness:
  "\<forall>b \<in> set (coalesce_allocs [toy_rec, toy_rec\<lparr>a_base := 0x1002\<rparr>]). chained (co_base b) (co_ctx b) (co_parts b)"
  using coalesce_exact [of "[toy_rec, toy_rec\<lparr>a_base := 0x1002\<rparr>]"] unfolding block_ok_def by blast

section \<open>Quiescing\<close>

lemma spinLoop_result:
  "\<exists>c. fst (spinLoop d n s) = Ret c \<and> c \<in> {0, - 23, - 24} \<and> (c = 0 \<longrightarrow> t_host_callbacks (sm_trk (snd (spinLoop d n s))) = 0)"
proof (induction n arbitrary: s)
  case 0
  show ?case by (simp add: spinLoop.simps)
next
  case (Suc n)
  obtain r g where sync: "d_CtxSynchronize d (sm_gpu s) = (r, g)" by force
  show ?case
  proof (cases "t_host_callbacks (sm_trk s) = 0 \<or> r \<noteq> CUDA_SUCCESS")
    case True
    then show ?thesis using sync by (auto simp: spinLoop.simps [of d "Suc n"] bindA_def on_gpu_def)
  next
    case False
    have "spinLoop d (Suc n) s = spinLoop d n (snd (callbacks_end d (s\<lparr>sm_gpu := g\<rparr>)))"
      using False sync by (simp add: spinLoop.simps [of d "Suc n", unfolded diff_Suc_1] bindA_def on_gpu_def callbacks_end_def)
    then show ?thesis using Suc by simp
  qed
qed

text \<open>C52: what the shim reports as quiescent has no callback running. \<open>ckpt_quiesce_gpu\<close> always
  returns, with one of its six codes, and with code 0 only when the count of host callbacks the
  process has started and not ended is zero.\<close>

theorem quiesce_waits_for_callbacks:
  "\<exists>c \<in> {0, - 20, - 21, - 22, - 23, - 24}. fst (ckpt_quiesce_gpu d s) = Ret c \<and>
    (c = 0 \<longrightarrow> t_host_callbacks (sm_trk (snd (ckpt_quiesce_gpu d s))) = 0)"
proof -
  have sync: "\<exists>b. fst (syncAll f hs s) = Ret b" for f hs s
  proof (induction hs arbitrary: s)
    case (Cons h hs)
    then show ?case by (cases "f h (sm_gpu s)") (simp add: bindA_def on_gpu_def retA_def ex_bool_eq)
  qed (simp add: retA_def ex_bool_eq)
  obtain r g where 1: "on_gpu (d_CtxSynchronize d) s = (Ret r, g)" by (cases "d_CtxSynchronize d (sm_gpu s)") (simp add: on_gpu_def)
  show ?thesis
  proof (cases "r = CUDA_SUCCESS")
    case False
    then show ?thesis by (simp add: ckpt_quiesce_gpu_def bindA_def 1)
  next
    case True
    let ?ss = "map s_stream (streams_snapshot (sm_trk g))"
    obtain b1 s1 where 2: "syncAll (d_StreamSynchronize d) ?ss g = (Ret b1, s1)" using sync by (metis prod.collapse)
    let ?es = "map v_event (events_snapshot (sm_trk s1))"
    obtain b2 s2 where 3: "syncAll (d_EventSynchronize d) ?es s1 = (Ret b2, s2)" using sync by (metis prod.collapse)
    have run: "ckpt_quiesce_gpu d s = (if \<not> b1 then (Ret (- 21), s1) else if \<not> b2 then (Ret (- 22), s2) else spinLoop d 100000 s2)"
      using True by (simp add: ckpt_quiesce_gpu_def bindA_def 1 2 3 trkA_def retA_def)
    show ?thesis
      using spinLoop_result [of d 100000 s2] unfolding run by (cases b1; cases b2) auto
  qed
qed

theorem quiesce_witness: "t_host_callbacks (sm_trk (snd (ckpt_quiesce_gpu toy_driver toy_shim))) = 0"
  using quiesce_waits_for_callbacks [of toy_driver toy_shim] by (simp add: toy_quiet)

section \<open>The snapshot\<close>

text \<open>C53: what a snapshot writes does not depend on its threads. Under every schedule of the worker
  threads over the four stages (acquire, enter, copy, checksum) a snapshot that succeeds hands
  over the same \<open>device.bin\<close>, the memory of the live allocations after quiescing, one after the
  other, and the same manifest, with the address, size, offset and CRC-32C of each, in their
  order; the blocks made by merging leave no trace.\<close>

theorem snapshot_any_schedule:
  assumes "driver_ok d mem live" and "ckpt_quiesce_gpu d s = (Ret 0, s1)" and "pool_ok live s1"
    and "alloc_bytes (allocs_snapshot (sm_trk s1)) < 2 ^ 64"
    and "snapshot_files d hw sched pad s = (Ret files, s')"
  shows "\<exists>rest. files =
    [(''device.bin'', ref_device (mem (sm_gpu s1)) (allocs_snapshot (sm_trk s1)), - 2),
     (''manifest.bin'', snapManifest pad (ref_entries (mem (sm_gpu s1)) 0 (allocs_snapshot (sm_trk s1)))
        (alloc_sum (allocs_snapshot (sm_trk s1))), - 3)] @ rest \<and>
    map fst rest = [''dev.bin'', ''ctx.bin'', ''streams.bin'', ''modules.bin'']"
  by (rule snapshot_files_spec [OF assms])

lemma toy_bytes: "alloc_bytes (allocs_snapshot (sm_trk toy_shim)) < 2 ^ 64"
  by (simp add: toy_allocs toy_rec_def)

lemma toy_region: "region (ty_mem (sm_gpu toy_shim)) 0x1000 2 = [5, 7]"
proof -
  have "[0..<2 :: nat] = [0, 1]" by code_simp
  then show ?thesis by (simp add: toy_shim_def region_def)
qed

theorem snapshot_schedule_witness:
  "\<exists>files s'. snapshot_files toy_driver 4 [1, 0] 7 toy_shim = (Ret files, s') \<and> image_dir files ''device.bin'' = Some [5, 7]"
proof -
  obtain files s' where run: "snapshot_files toy_driver 4 [1, 0] 7 toy_shim = (Ret files, s')" using toy_snapshot by blast
  from snapshot_any_schedule [OF toy_driver_ok toy_quiet toy_pools(1) toy_bytes this]
  have "image_dir files ''device.bin'' = Some [5, 7]"
    using toy_region by (auto simp: toy_allocs image_dir_def ref_device_def toy_rec_def)
  with run show ?thesis by blast
qed

text \<open>C54: when a snapshot succeeds. On a quiescent process whose tracker saw no unsupported call, with
  a driver that lets the threads change contexts, copies, and has a pinned buffer for every
  block, a snapshot of allocations of one byte or more succeeds under every schedule: no thread
  starves another, no task is left, and every stage of every block is run.\<close>

theorem snapshot_returns:
  assumes "driver_ok d mem live" and "calls_work d" and "ckpt_quiesce_gpu d s = (Ret 0, s1)" and "pool_ok live s1"
    and "has_room d live (card (live (sm_gpu s1)) + length (coalesce_allocs (allocs_snapshot (sm_trk s1))))"
    and "\<not> t_bad (sm_trk s)"
    and "\<forall>a \<in> set (allocs_snapshot (sm_trk s1)). a_size a \<noteq> 0" and "alloc_bytes (allocs_snapshot (sm_trk s1)) < 2 ^ 64"
  shows "\<exists>files s'. snapshot_files d hw sched pad s = (Ret files, s')"
  by (rule snapshot_succeeds [OF assms])

theorem snapshot_returns_witness: "\<exists>files s'. snapshot_files toy_driver 2 [0, 1, 1] 0 toy_shim = (Ret files, s')"
proof (rule snapshot_returns [OF toy_driver_ok toy_works toy_quiet])
  show "pool_ok toy_live toy_shim" by (rule toy_pools)
  have "toy_live (sm_gpu toy_shim) = {}" by (auto simp: toy_live_def toy_shim_def unat_eq_0)
  then show "has_room toy_driver toy_live (card (toy_live (sm_gpu toy_shim)) +
      length (coalesce_allocs (allocs_snapshot (sm_trk toy_shim))))"
    using coalesce_length [of "[toy_rec]"] by (intro toy_room) (simp add: toy_allocs)
qed (simp_all add: toy_trk toy_allocs toy_rec_def)

section \<open>The restore\<close>

text \<open>C55: a restore brings back the memory. When a process whose live allocations do not overlap is
  saved, and another one loads the manifest and the device image (whatever the other files hold),
  then at the end the memory of the second holds at the address of every allocation the bytes the
  first had there when it was quiescent: under every schedule of the threads of both, whichever
  way each address was obtained.\<close>

theorem device_round_trip:
  assumes "driver_ok d mem live" and "ckpt_quiesce_gpu d s = (Ret 0, s1)" and "pool_ok live s1"
    and "allocs_snapshot (sm_trk s1) = as" and "alloc_bytes as < 2 ^ 64" and "length as < 2 ^ 32" and "allocs_apart as"
    and "snapshot_files d hw sched pad s = (Ret files, s')"
    and "driver_ok e mem' live'" and "buffers_stay e live'" and "device_idle e mem'" and "pool_ok live' t"
    and "rd ''manifest.bin'' = image_dir files ''manifest.bin''" and "rd ''device.bin'' = image_dir files ''device.bin''"
    and "ckpt_restore_load e hw' sched' rd t = (Ret (), t')"
  shows "\<forall>a \<in> set as. region (mem' (sm_gpu t')) (a_base a) (a_size a) = region (mem (sm_gpu s1)) (a_base a) (a_size a)"
  by (rule snapshot_restored [OF assms])

theorem round_trip_witness:
  "\<exists>files s' rd t'. snapshot_files toy_driver 1 [] 0 toy_shim = (Ret files, s') \<and>
    ckpt_restore_load toy_driver 1 [] rd toy_fresh = (Ret (), t') \<and> region (ty_mem (sm_gpu t')) 0x1000 2 = [5, 7]"
proof -
  obtain files s' where run: "snapshot_files toy_driver 1 [] 0 toy_shim = (Ret files, s')" using toy_snapshot by blast
  define rd where "rd n = (if n \<in> {''manifest.bin'', ''device.bin''} then image_dir files n else None)" for n
  let ?M = "ty_mem (sm_gpu toy_shim)"
  obtain e rest where files: "files = [(''device.bin'', [5, 7], - 2), (''manifest.bin'', snapManifest 0 [e] (alloc_sum [toy_rec]), - 3)] @ rest"
    and e: "ce_ptr e = 0x1000" "ce_size e = 2" "ce_offset e = 0"
    using snapshot_files_spec [OF toy_driver_ok toy_quiet toy_pools(1) toy_bytes run] toy_region
    by (auto simp: toy_allocs ref_device_def toy_rec_def)
  have rd: "rd ''manifest.bin'' = Some (snapManifest 0 [e] (alloc_sum [toy_rec]))" "rd ''device.bin'' = Some [5, 7]"
    by (simp_all add: rd_def files image_dir_def)
  have rd_none: "rd ''dev.bin'' = None" "rd ''ctx.bin'' = None" "rd ''modules.bin'' = None" "rd ''streams.bin'' = None"
    by (simp_all add: rd_def)
  have rm: "restore_manifest (snapManifest 0 [e] (alloc_sum [toy_rec])) = Inr [e]" using restore_manifest_own [of "[e]"] by simp
  obtain t' where load: "ckpt_restore_load toy_driver 1 [] rd toy_fresh = (Ret (), t')"
    using toy_load [OF rd(1) rm rd(2) e] rd_none by force
  have "region (ty_mem (sm_gpu t')) 0x1000 2 = region ?M 0x1000 2"
    using device_round_trip [OF toy_driver_ok toy_quiet toy_pools(1) toy_allocs _ _ _ run toy_driver_ok toy_stay toy_idle toy_pools(2) _ _ load]
    by (auto simp: rd_def toy_rec_def allocs_apart_def)
  with run load toy_region show ?thesis by metis
qed

section \<open>Who can read it\<close>

text \<open>C56: the two programs do not agree on the manifest. What the shim writes for one or more allocations
  the shim reads back entry by entry; the reader of \<open>pkg/image/format.go\<close> reports it as too
  short, whole or cut anywhere.\<close>

theorem shim_manifest_unreadable:
  assumes "es \<noteq> []" and "length es < 2 ^ 32"
  shows "restore_manifest (snapManifest pad es tot) = Inr (if list_ex (\<lambda>e. ce_pad e \<noteq> 0) es then sort_key ce_pad es else es) \<and>
    (\<forall>n. is_short (parseManifest (take n (snapManifest pad es tot))))"
  using restore_manifest_own [OF assms(2)] parseManifest_snapManifest_cut [OF assms] by simp

theorem manifest_unreadable_witness:
  "is_short (parseManifest (take 56 (snapManifest 0 (ref_entries (\<lambda>_. 3) 0 [toy_rec]) 2)))"
  using shim_manifest_unreadable [of "ref_entries (\<lambda>_. 3) 0 [toy_rec]"] by simp

text \<open>C57: the two programs agree on the checksum: the shim's table-driven CRC-32C is that of
  Go's \<open>hash/crc32\<close> on every data.\<close>

theorem checksums_agree: "crc32c data = CRC32C data"
  by (rule crc32c_Go)

text \<open>C58: a module loaded from memory does not survive. When the last call a process made before the
  snapshot was \<open>cuModuleLoadData\<close>, then no restore of that image succeeds with a driver that
  loads no file without a name: the tracker is given the image with length 0, so neither the
  image nor a path is written.\<close>

lemma restore_load_modules_fail:
  assumes "\<And>s. \<exists>c s'. ckpt_modules_restore d rd s = (Ret c, s') \<and> c \<noteq> 0"
  shows "ckpt_restore_load d hw sched rd t \<noteq> (Ret (), t')"
proof -
  have "ckpt_modules_restore d rd s \<noteq> (Ret 0, s')" for s s' using assms [of s] by auto
  then show ?thesis
    unfolding ckpt_restore_load_def
    by (auto simp: failA_def errA_def elim!: bindA_RetE split: option.splits sum.splits if_splits)
qed

theorem data_module_lost:
  assumes "tr = tracked (calls @ [CuModuleLoadData CUDA_SUCCESS m img cur])" and "m \<noteq> 0"
    and "rd ''modules.bin'' = Some (ckpt_modules_write tr)"
    and "length (modules_snapshot tr) < 2 ^ 32" and "\<forall>r \<in> set (modules_snapshot tr). module_ok tr r"
    and "\<forall>g. fst (fst (d_ModuleLoad d [] g)) \<noteq> CUDA_SUCCESS"
  shows "ckpt_restore_load d hw sched rd t \<noteq> (Ret (), t')"
proof (rule restore_load_modules_fail)
  fix s
  have "tr = interposed (CuModuleLoadData CUDA_SUCCESS m img cur) (tracked calls)" using assms(1) by (simp add: tracked_def)
  then obtain r where "r \<in> set (modules_snapshot tr)" "mo_image r = []" "mo_path r = []"
    using data_module_tracked [OF assms(2), of img cur "tracked calls"] by blast
  from modules_restore_fails [where rd = rd and tr = tr and d = d, OF assms(3-5) this assms(6)]
  show "\<exists>c s'. ckpt_modules_restore d rd s = (Ret c, s') \<and> c \<noteq> 0" .
qed

definition no_files :: "toy driver" where
  "no_files = toy_driver\<lparr>d_ModuleLoad := \<lambda>f g. ((1, 0), g)\<rparr>"

theorem module_lost_witness:
  "\<nexists>t'. ckpt_restore_load no_files 1 []
    (map_of [(''manifest.bin'', snapManifest 0 [] 0), (''device.bin'', []),
      (''modules.bin'', ckpt_modules_write (tracked [CuModuleLoadData CUDA_SUCCESS 9 [1, 2] 1]))]) toy_fresh = (Ret (), t')"
proof
  let ?calls = "[CuModuleLoadData CUDA_SUCCESS 9 [1, 2] 1]"
  let ?tr = "tracked ?calls"
  define rd where "rd = map_of [(''manifest.bin'', snapManifest 0 [] 0), (''device.bin'', []), (''modules.bin'', ckpt_modules_write ?tr)]"
  have mods: "modules_snapshot ?tr = [\<lparr>mo_mod = 9, mo_ctx = 1, mo_path = [], mo_image = [], mo_seq = 1\<rparr>]"
    by code_simp
  have "symbols_for_module 9 ?tr = []" by code_simp
  then have ok: "\<forall>r \<in> set (modules_snapshot ?tr). module_ok ?tr r" unfolding mods by (simp add: module_ok_def text_ok_def)
  have few: "length (modules_snapshot ?tr) < 2 ^ 32" unfolding mods by simp
  have tr: "?tr = tracked ([] @ ?calls)" by (simp only: append.simps)
  have rd: "rd ''modules.bin'' = Some (ckpt_modules_write ?tr)" by (simp add: rd_def)
  have "\<forall>g. fst (fst (d_ModuleLoad no_files [] g)) \<noteq> CUDA_SUCCESS" by (simp add: no_files_def CUDA_SUCCESS_def)
  note lost = data_module_lost [of ?tr "[]" 9 "[1, 2]" 1 rd no_files 1 "[]" toy_fresh, OF tr _ rd few ok this]
  assume "\<exists>t'. ckpt_restore_load no_files 1 []
    (map_of [(''manifest.bin'', snapManifest 0 [] 0), (''device.bin'', []), (''modules.bin'', ckpt_modules_write ?tr)]) toy_fresh = (Ret (), t')"
  then show False unfolding rd_def [symmetric] using lost by auto
qed

end
