(* ===== verification/Checkpoint_Shim_Theorems.thy ===== *)
theory Checkpoint_Shim_Theorems
  imports Restore_Shim_Theorems Shim_Demo
begin

text \<open>
  A checkpoint against the repository's own shim. The shim writes the manifest as its
  compiler lays out the C structs, the orchestrator verifies the image with the reader of
  \<open>pkg/image/format.go\<close>, which expects another layout; so a checkpoint of a process
  that has device memory never succeeds.
\<close>

section \<open>The files on disk\<close>

lemma c_write_node:
  assumes "c_write name b s = (Ret True, t)"
  shows "\<exists>n. node_at t (path_of name) = Some (FileN (take n b))"
proof -
  obtain old where opn: "open_for_write name (pop_fault s) = Ret old" and ok: "next_fault s \<noteq> Fail"
    using assms by (auto simp: c_write_def split: outcome.splits)
  have len: "Suc 0 < length (path_of name)" by (rule open_for_write_length [OF opn])
  have t: "t = snd (os_WriteFile name b s)" using assms by (simp add: c_write_def)
  obtain n where "t = store_file (path_of name) (take n b) (pop_fault s)"
  proof (cases "next_fault s")
    case Pass
    then have "t = store_file (path_of name) (take (length b) b) (pop_fault s)" using opn t by (simp add: os_write_def Let_def)
    then show thesis by (rule that)
  next
    case (Short n)
    then have "t = store_file (path_of name) (take n b) (pop_fault s)" using opn t by (simp add: os_write_def Let_def)
    then show thesis by (rule that)
  qed (use ok in simp)
  then show ?thesis using len by (auto simp: node_at_store_file)
qed

lemma c_write_other: "c_write name b s = (r, t) \<Longrightarrow> p \<noteq> path_of name \<Longrightarrow> node_at t p = node_at s p"
  using os_write_other [of False name b s] by (auto simp: c_write_def) (metis prod.collapse)

lemma c_unlink_other:
  assumes "c_unlink name s = (r, t)" and "\<not> prefix (path_of name) p"
  shows "node_at t p = node_at s p"
  using assms by (auto simp: c_unlink_def os_Remove_def Let_def node_at_remove_tree split: if_splits)

lemma write_image_Cons:
  assumes "write_image dir ((f, b, code) # fs) s = (Ret (), t)"
  obtains s1 where "c_write (path_join dir f) b s = (Ret True, s1)" and "write_image dir fs s1 = (Ret (), t)"
proof -
  from assms obtain opened s1 where w: "c_write (path_join dir f) b s = (Ret opened, s1)"
    and rest: "(if opened then write_image dir fs else shim_fail dir ''snapshot.err'' (err_line code f None)) s1 = (Ret (), t)"
    by (auto elim: bindA_RetE)
  have "shim_fail dir ''snapshot.err'' (err_line code f None) s1 \<noteq> (Ret (), t)"
    by (auto simp: shim_fail_def elim!: bindA_RetE)
  then have opened using rest by (auto split: if_splits)
  then show thesis using that w rest by simp
qed

lemma write_image_other:
  assumes "write_image dir fs s = (Ret (), t)" and "\<forall>f \<in> set (map fst fs). plain f \<and> f \<noteq> w" and "w \<noteq> ''snapshot.err''"
  shows "node_at t (path_of dir @ [w]) = node_at s (path_of dir @ [w])"
  using assms
proof (induction dir fs arbitrary: s rule: write_image.induct)
  case (1 dir)
  have "\<not> prefix (path_of (path_join dir ''snapshot.err'')) (path_of dir @ [w])" using 1(3) by (simp add: plain_def)
  then show ?case using c_unlink_other 1(1) by fastforce
next
  case (2 dir f b code fs)
  from 2(2) obtain s1 where w: "c_write (path_join dir f) b s = (Ret True, s1)"
    and rest: "write_image dir fs s1 = (Ret (), t)" by (rule write_image_Cons)
  have "node_at t (path_of dir @ [w]) = node_at s1 (path_of dir @ [w])"
    using 2(1) [OF _ rest] 2(3,4) by simp
  moreover have "path_of dir @ [w] \<noteq> path_of (path_join dir f)" using 2(3) by auto
  ultimately show ?case using c_write_other [OF w] by simp
qed

text \<open>After a snapshot the manifest is the shim's, or what got to the disk of it.\<close>

lemma shimSnapshot_manifest:
  assumes "saves_allocs cu" and "shimSnapshot cu dir s = (Ret (), t)"
  shows "\<exists>n pad es tot. node_at t (path_of dir @ [''manifest.bin'']) = Some (FileN (take n (snapManifest pad es tot))) \<and>
    es \<noteq> [] \<and> length es < 2 ^ 32"
proof -
  obtain fs where fs: "cu_snapshot cu = Inr fs" and run: "write_image dir fs s = (Ret (), t)"
    using assms(2) by (auto simp: shimSnapshot_def shim_fail_def elim!: bindA_RetE split: sum.splits)
  from assms(1) [unfolded saves_allocs_def, rule_format, OF fs] obtain dev pad es tot rest where files: "fs = [(''device.bin'', dev, - 2), (''manifest.bin'', snapManifest pad es tot, - 3)] @ rest"
    and es: "es \<noteq> []" "length es < 2 ^ 32" and names: "map fst rest = [''dev.bin'', ''ctx.bin'', ''streams.bin'', ''modules.bin'']"
    by (elim exE conjE)
  from run [unfolded files append.simps] obtain s1
    where "write_image dir ((''manifest.bin'', snapManifest pad es tot, - 3) # rest) s1 = (Ret (), t)"
    by (rule write_image_Cons)
  then obtain s2 where w: "c_write (path_join dir ''manifest.bin'') (snapManifest pad es tot) s1 = (Ret True, s2)"
    and more: "write_image dir rest s2 = (Ret (), t)"
    by (rule write_image_Cons)
  have "plain ''manifest.bin''" by (simp add: plain_def)
  then obtain n where "node_at s2 (path_of dir @ [''manifest.bin'']) = Some (FileN (take n (snapManifest pad es tot)))"
    using c_write_node [OF w] by auto
  moreover have "node_at t (path_of dir @ [''manifest.bin'']) = node_at s2 (path_of dir @ [''manifest.bin''])"
    by (rule write_image_other [OF more]) (simp_all add: names plain_def)
  ultimately show ?thesis using es by metis
qed

section \<open>Verification by the orchestrator\<close>

lemma verifyImage_shim_manifest:
  assumes node: "node_at s (path_of dir @ [''manifest.bin'']) = Some (FileN (take n (snapManifest pad es tot)))"
    and es: "es \<noteq> []" "length es < 2 ^ 32"
  shows "verifyImage x dir s \<noteq> (Ret (), t)"
proof
  let ?b = "take n (snapManifest pad es tot)" and ?p = "path_of dir @ [''manifest.bin'']"
  assume run: "verifyImage x dir s = (Ret (), t)"
  have pl: "plain ''manifest.bin''" by (simp add: plain_def)
  have read: "os_ReadFile (Join dir ''manifest.bin'') u = (Ret ?b, u)"
    if "node_at u ?p = Some (FileN ?b)" for u :: "'a os_state_scheme"
    using that pl by (intro os_ReadFile_file) simp
  from run obtain s1 tier s2 entries hdr s3 where
    ens: "EnsureDeviceMaterialized (x_chain x) (x_zstd x) dir s = (Ret (), s1)" and
    tier: "Tier_New dir s1 = (Ret tier, s2)" and mf: "ReadManifest (ManifestPath tier) s2 = (Ret (entries, hdr), s3)"
    unfolding verifyImage_def by (auto elim!: bindA_RetE)
  obtain m where m: "x_chain x = Suc m" using ens by (cases "x_chain x") auto
  from ens [unfolded m] obtain h s0 where hd: "readManifestHeader (Join dir ''manifest.bin'') s = (Ret h, s0)"
    by (auto elim!: bindA_RetE)
  then have h: "s0 = s" "h_Flags h = 0"
    using read [OF node] parseHeader_snapManifest_cut [of n pad es tot]
    by (auto simp: readManifestHeader_def bindA_step is_short_def outcome_of_def elim!: bindA_RetE)
  have "s1 = s"
    using ens [unfolded m] hd h by (auto simp: bindA_step HasFlag_def os_Stat_def tryA_def elim!: bindA_RetE split: sum.splits if_splits outcome.splits)
  with node have "node_at s2 ?p = Some (FileN ?b)" and "t_Dir tier = dir"
    using tier os_MkdirAll_node_at [of dir s1 "()" s2 ?p]
    by (auto simp: Tier_New_def elim!: bindA_RetE)
  then have "parseManifest ?b = Inr (entries, hdr)"
    using mf pl by (auto simp: ReadManifest_Ret_iff ManifestPath_def)
  then show False using parseManifest_snapManifest_cut [OF es, of n pad tot] by (simp add: is_short_def)
qed

section \<open>One snapshot request\<close>

lemma shim_snapshot_ret:
  fixes w :: "'x world_scheme"
  assumes dial: "DialPathWithSecret cu path secret w = (Ret k, w1)" and at: "server_at w (path_of path) = Some (Shim st)"
    and len: "length secret < 2 ^ 32" and ok: "c_path_ok dir" and run: "Snapshot cu k dir w1 = (Ret (), w2)"
  obtains u u' where "shimSnapshot cu dir u = (Ret (), u' :: 'x world_scheme)" and "node_at w2 = node_at u'"
proof -
  let ?p = "path_of path" and ?au = "secret \<noteq> []"
  have k: "k = length (conns w)" and w1: "w1 = dialled ?p ?au [] False w"
    using dial_shim [OF DialPathWithSecret_Ret(1) [OF dial] at len dial] by simp_all
  have call: "call cu k OpSnapshot dir w1 = (Ret 0, w2)"
    using run by (auto simp: Snapshot_def expect_zero_def elim!: bindA_RetE split: if_splits)
  show ?thesis
  proof (cases "admits (Shim st) ?au")
    case True
    have syn: "synced k (Shim st) w1" using synced_dialled [OF at True] k w1 by simp
    let ?u = "loaded k (request OpSnapshot dir) w1"
    obtain v cl srv' t where ans: "shim_answer cu (Shim st) OpSnapshot dir ?u = (v, cl, srv', t)"
      by (metis prod_cases4)
    have "OpSnapshot \<in> word_ops" "is_shim (Shim st)" by (simp_all add: word_ops_def)
    from shim.call_answer(1) [OF syn this(2,1) ok ans] call
    have v: "v = 0" and w2: "w2 = shim.after k cl srv' w1 t" by simp_all
    have "shimSnapshot cu dir ?u = (Ret (), t)"
      using ans v by (cases "shimSnapshot cu dir ?u") (auto simp: shim_answer_def op_defs split: if_splits)
    moreover have "node_at w2 = node_at t" by (rule ext) (simp add: w2 shim.after_def set_conn_def node_at_def)
    ultimately show ?thesis by (rule that)
  next
    case False
    then have st: "sh_secret st \<noteq> []" and secret: "secret = []" by simp_all
    let ?b = "request OpSnapshot dir"
    have "server_step cu (Shim st) False ?b u = Some ((Shim st, False, drop 4 ?b, word 2, True), u)" for u :: "'x world_scheme"
      using st get_word_word [of OpSnapshot "drop 4 ?b"]
      by (simp add: server_step_def handle_client_def require_auth_def request_def op_defs)
    moreover have "?b \<noteq> []" by (simp add: request_def)
    ultimately have "readU32 cu k (loaded k ?b w1) = (Ret 2, dialled ?p False (drop 4 ?b) True w)"
      using first_reply [OF at] secret k w1 by simp
    then show ?thesis using call call_write_open [of k w1 cu OpSnapshot dir] secret k w1 by simp
  qed
qed

section \<open>The whole checkpoint\<close>

lemma orc_Snapshot_never:
  assumes "length (c_RpcSecret (o_cfg oc)) < 2 ^ 32" and ok: "c_path_ok dir" and saves: "saves_allocs (x_cuda x)"
  shows "yields (orc_Snapshot x oc pid dir) (\<lambda>_. False)"
  unfolding yields_def
proof (intro allI impI)
  fix h r h' assume h: "shim_world h" and run: "orc_Snapshot x oc pid dir h = (Ret r, h')"
  define secret where "secret = (if c_RpcSecret (o_cfg oc) = [] then Getenv ''CUDACKPT_RPC_SECRET'' h else c_RpcSecret (o_cfg oc))"
  let ?path = "shimSocketPath (c_RunDir (o_cfg oc)) pid"
  from run have "fst (bindA (orc_dial x oc pid) (\<lambda>cli. deferA (client_Close cli)
      (bindA (wrapA CUDA ''snapshot'' (Snapshot (x_cuda x) cli dir)) (\<lambda>_. bindA (verifyImage x dir) (\<lambda>_.
       log_Info ''snapshot_ok'' [(''pid'', JInt pid), (''dir'', JStr dir)])))) h) = Ret r"
    by (simp add: orc_Snapshot_def with_client_def)
  then obtain k h1 h2 h3 where d: "orc_dial x oc pid h = (Ret k, h1)"
    and snap: "Snapshot (x_cuda x) k dir h1 = (Ret (), h2)" and ver: "verifyImage x dir h2 = (Ret (), h3)"
    unfolding deferA_fst by (auto elim!: fst_bindA_RetE)
  have dial: "DialPathWithSecret (x_cuda x) ?path secret h = (Ret k, h1)"
    using d by (simp add: orc_dial_def bindA_readA secret_def)
  have len: "length secret < 2 ^ 32" using assms(1) h by (simp add: secret_def shim_world_def)
  obtain srv where at: "server_at h (path_of ?path) = Some srv" using DialPathWithSecret_Ret(2) [OF dial] by auto
  then have "is_shim srv" using h map_of_SomeD by (fastforce simp: server_at_def shim_world_def)
  then obtain st where "srv = Shim st" by (cases srv) auto
  with at have at: "server_at h (path_of ?path) = Some (Shim st)" by simp
  obtain u u' :: host where s: "shimSnapshot (x_cuda x) dir u = (Ret (), u')" "node_at h2 = node_at u'"
    by (rule shim_snapshot_ret [OF dial at len ok snap])
  from shimSnapshot_manifest [OF saves s(1)] obtain n pad es tot where
    "node_at h2 (path_of dir @ [''manifest.bin'']) = Some (FileN (take n (snapManifest pad es tot)))" "es \<noteq> []" "length es < 2 ^ 32"
    using s(2) by auto
  from verifyImage_shim_manifest [OF this] ver show False by blast
qed

text \<open>An action that never returns a value on a host where only shims listen, and leaves it one.\<close>

definition dead :: "'a hact \<Rightarrow> bool" where
  "dead m \<longleftrightarrow> keeps shim_world m \<and> yields m (\<lambda>_. False)"

lemma dead_bind: "dead m \<Longrightarrow> dead (bindA m f)"
  unfolding dead_def
proof (intro conjI)
  assume m: "keeps shim_world m \<and> yields m (\<lambda>_. False)"
  show "keeps shim_world (bindA m f)"
  proof (rule keepsI)
    fix h assume h: "shim_world h"
    have "shim_world (snd (m h))" using m h by (simp add: keeps_def)
    moreover have "\<nexists>a. fst (m h) = Ret a" using m h unfolding yields_def by (metis prod.collapse)
    ultimately show "shim_world (snd (bindA m f h))" by (auto simp: bindA_def split: prod.split outcome.split)
  qed
  show "yields (bindA m f) (\<lambda>_. False)" using m by (auto simp: yields_def elim!: bindA_RetE)
qed

lemma dead_then: "keeps shim_world m \<Longrightarrow> (\<And>a. dead (f a)) \<Longrightarrow> dead (bindA m f)"
  unfolding dead_def by (intro conjI keeps_bindA yields_then) simp_all

lemma dead_rules:
  "dead (errA e)" "dead a \<Longrightarrow> dead b \<Longrightarrow> dead (if c then a else b)" "dead (f x) \<Longrightarrow> dead (Let x f)"
  by (simp_all add: dead_def yields_cases keeps_pure)

lemma dead_try:
  assumes "dead m" and "\<And>e. dead (g e)"
  shows "dead (bindA (tryA m) (\<lambda>r. case r of Inl e \<Rightarrow> g e | Inr v \<Rightarrow> f v))"
proof -
  have "shim_world (snd (bindA (tryA m) (\<lambda>r. case r of Inl e \<Rightarrow> g e | Inr v \<Rightarrow> f v) h)) \<and>
      fst (bindA (tryA m) (\<lambda>r. case r of Inl e \<Rightarrow> g e | Inr v \<Rightarrow> f v) h) \<noteq> Ret a" if h: "shim_world h" for h a
  proof -
    obtain r t where run: "m h = (r, t)" by force
    have t: "shim_world t" using assms(1) h run by (metis dead_def keepsD)
    have r: "\<nexists>v. r = Ret v" using assms(1) h run unfolding dead_def yields_def by metis
    have g: "shim_world (snd (g e t)) \<and> fst (g e t) \<noteq> Ret a" for e
      using assms(2) [of e] t unfolding dead_def keeps_def yields_def by (metis prod.collapse)
    show ?thesis using r g t by (cases r) (simp_all add: bindA_def tryA_def run)
  qed
  then show ?thesis unfolding dead_def keeps_def yields_def by (metis fst_conv)
qed

lemma doCheckpoint_dead:
  assumes "length (c_RpcSecret (o_cfg oc)) < 2 ^ 32" and "saves_allocs (x_cuda x)"
    and "c_path_ok (StageDir (if out = [] then imageDir (c_ImageRoot (o_cfg oc)) pid else out))"
  shows "dead (doCheckpoint x oc pid out)"
proof -
  have snap: "dead (orc_Snapshot x oc pid (StageDir (if out = [] then imageDir (c_ImageRoot (o_cfg oc)) pid else out)))"
    using orc_Snapshot_never [OF assms(1,3,2)] by (simp add: dead_def hshim.shim)
  show ?thesis
    unfolding doCheckpoint_def checkpointBody_def WriteStaging_def Let_def
    by (intro dead_then [OF hshim.log(1)] dead_then [OF keeps_pure(4)] dead_then dead_try dead_bind [OF snap] dead_rules
        hshim.shim hshim.irules)
qed

lemma dead_reported: "dead m \<Longrightarrow> dead (reportCheckpoint pid out m)"
  unfolding reportCheckpoint_def by (intro dead_try dead_then dead_rules hshim.log hshim.hrules)

lemma dead_retry:
  assumes "\<And>i. dead (f i)"
  shows "dead (retryLoop sleepH n i b f stop)"
proof (induction n arbitrary: i)
  case 0
  show ?case unfolding retryLoop.simps [of _ 0] by (intro dead_try assms) (simp add: dead_rules)
next
  case (Suc n)
  have "dead (bindA (doA (sleepH b)) (\<lambda>_. retryLoop sleepH n (i + 1) b f stop))"
    by (intro dead_then hshim.hrules Suc)
  then show ?case unfolding retryLoop.simps [of _ "Suc n"] by (intro dead_try assms) (simp add: dead_rules)
qed

text \<open>C4: with the repository's own shim a checkpoint of a process with device memory never succeeds.
  On a host where every process that listens, now or later, is the shim, and the snapshots are
  those the shim makes (with any driver, number of threads and schedule) of a process with live
  allocations, neither \<open>Checkpoint\<close> nor \<open>EnqueueCheckpoint\<close>, which tries again, returns
  success, whatever the disk does: the manifest the C compiler lays out is not one that the
  verification of the orchestrator can read.\<close>

theorem Checkpoint_never_with_shim:
  assumes "shim_world h" and "length (c_RpcSecret (o_cfg oc)) < 2 ^ 32"
    and "c_path_ok (StageDir (if out = [] then imageDir (c_ImageRoot (o_cfg oc)) pid else out))"
    and "x_cuda x = shim_cuda d hw sched pad s" and "driver_ok d mem live" and "buffers_stay d live" and "pool_ok live s"
    and "allocs_snapshot (sm_trk s) \<noteq> []" and "length (allocs_snapshot (sm_trk s)) < 2 ^ 32"
    and "alloc_bytes (allocs_snapshot (sm_trk s)) < 2 ^ 64"
  shows "Checkpoint x oc pid out h \<noteq> (Ret (), h') \<and> EnqueueCheckpoint x oc pid out h \<noteq> (Ret (), h')"
proof -
  have "saves_allocs (x_cuda x)" unfolding assms(4) by (rule shim_cuda_saves [OF assms(5-10)])
  from doCheckpoint_dead [OF assms(2) this assms(3)] have one: "dead (doCheckpoint x oc pid out)" .
  have "dead (Checkpoint x oc pid out)" unfolding Checkpoint_def by (rule dead_reported [OF one])
  then have "Checkpoint x oc pid out h \<noteq> (Ret (), h')" using assms(1) by (auto simp: dead_def yields_def)
  moreover have "dead (EnqueueCheckpoint x oc pid out)"
    unfolding EnqueueCheckpoint_def CheckpointWithRetry_def applyRetry_def Let_def
    by (intro dead_reported dead_retry dead_then hshim.log one)
  then have "EnqueueCheckpoint x oc pid out h \<noteq> (Ret (), h')" using assms(1) by (auto simp: dead_def yields_def)
  ultimately show ?thesis ..
qed

theorem Checkpoint_never_witness:
  "\<forall>h'. Checkpoint (demo_ext\<lparr>x_cuda := shim_cuda toy_driver 4 [1, 0] 0 toy_shim\<rparr>) demo_orc 9 ''img'' demo_shims \<noteq> (Ret (), h')"
proof
  fix h'
  have "shim_world demo_shims" by (simp add: shim_world_def demo_shims_def demo_host_def Getenv_def)
  moreover have "c_path_ok (StageDir ''img'')" by code_simp
  ultimately show "Checkpoint (demo_ext\<lparr>x_cuda := shim_cuda toy_driver 4 [1, 0] 0 toy_shim\<rparr>) demo_orc 9 ''img'' demo_shims \<noteq> (Ret (), h')"
    by (intro Checkpoint_never_with_shim [THEN conjunct1, OF _ _ _ _ toy_driver_ok toy_stay toy_pools(1)])
      (simp_all add: demo_orc_def builtin_def toy_allocs toy_rec_def)
qed

end
